(* ===== verification/Prelude.thy ===== *)
theory Prelude
  imports Main "HOL-Library.Word" "HOL-Library.Sublist"
begin

text \<open>
  What the components share: the Rust integer types, the string and option operations of the
  Rust standard library that the gateway uses, the lemmas about them, and the two interfaces
  every stateful component is an instance of (a machine driven by a list of calls, and a
  transition relation with an inductive invariant).

  A Rust \<open>String\<close> is a sequence of bytes, and so is a HOL \<open>string\<close>. \<open>Result\<close> is a sum with
  the error on the left. Times are natural numbers of nanoseconds on the monotonic clock.
\<close>

section \<open>Rust types\<close>

type_synonym u8 = "8 word"
type_synonym u16 = "16 word"
type_synonym u32 = "32 word"
type_synonym u64 = "64 word"
type_synonym u128 = "128 word"
type_synonym usize = "64 word"
type_synonym i64 = "64 word"
type_synonym instant = nat
type_synonym bytes = string

named_theorems rust_std \<open>unfolding rules of the modelled standard library\<close>
named_theorems step_inv_intros \<open>preservation of the component invariants\<close>

definition duration_ms :: "u64 \<Rightarrow> nat" where
  [rust_std]: "duration_ms m = unat m * 1000000"

definition duration_secs :: "u64 \<Rightarrow> nat" where
  [rust_std]: "duration_secs s = unat s * 1000000000"

definition elapsed :: "instant \<Rightarrow> instant \<Rightarrow> nat" where
  [rust_std]: "elapsed now since = now - since"

definition saturating_sub :: "'a::len word \<Rightarrow> 'a word \<Rightarrow> 'a word" where
  "saturating_sub a b = (if a < b then 0 else a - b)"

definition unwrap_or :: "'a option \<Rightarrow> 'a \<Rightarrow> 'a" where
  [rust_std]: "unwrap_or v d = (case v of None \<Rightarrow> d | Some x \<Rightarrow> x)"

definition map_err :: "('e \<Rightarrow> 'f) \<Rightarrow> 'e + 'a \<Rightarrow> 'f + 'a" where
  [rust_std]: "map_err f r = (case r of Inl e \<Rightarrow> Inl (f e) | Inr x \<Rightarrow> Inr x)"

definition and_then :: "'e + 'a \<Rightarrow> ('a \<Rightarrow> 'e + 'b) \<Rightarrow> 'e + 'b" where
  [rust_std]: "and_then r f = (case r of Inl e \<Rightarrow> Inl e | Inr x \<Rightarrow> f x)"

section \<open>Strings\<close>

definition starts_with :: "string \<Rightarrow> string \<Rightarrow> bool" where
  "starts_with s p = prefix p s"

definition ends_with :: "string \<Rightarrow> string \<Rightarrow> bool" where
  "ends_with s p = suffix p s"

definition trim_end_matches :: "char \<Rightarrow> string \<Rightarrow> string" where
  "trim_end_matches c s = rev (dropWhile (\<lambda>x. x = c) (rev s))"

fun split_on :: "char \<Rightarrow> string \<Rightarrow> string list" where
  "split_on c [] = [[]]"
| "split_on c (x # xs) =
     (if x = c then [] # split_on c xs
      else (case split_on c xs of [] \<Rightarrow> [[x]] | y # ys \<Rightarrow> (x # y) # ys))"

fun splitn :: "nat \<Rightarrow> char \<Rightarrow> string \<Rightarrow> string list" where
  "splitn 0 c s = []"
| "splitn (Suc 0) c s = [s]"
| "splitn (Suc (Suc n)) c s =
     (case dropWhile (\<lambda>x. x \<noteq> c) s of
        [] \<Rightarrow> [s]
      | _ # rest \<Rightarrow> takeWhile (\<lambda>x. x \<noteq> c) s # splitn (Suc n) c rest)"

fun join_with :: "char \<Rightarrow> string list \<Rightarrow> string" where
  "join_with c [] = []"
| "join_with c [s] = s"
| "join_with c (s # t # ts) = s @ [c] @ join_with c (t # ts)"

definition digit :: "nat \<Rightarrow> char" where
  "digit d = char_of (48 + d)"

fun show_nat :: "nat \<Rightarrow> string" where
  "show_nat n = (if n < 10 then [digit n] else show_nat (n div 10) @ [digit (n mod 10)])"

declare show_nat.simps [simp del]

lemma digit_simps:
  "digit 0 = CHR ''0''" "digit 1 = CHR ''1''" "digit 2 = CHR ''2''" "digit 3 = CHR ''3''"
  "digit 4 = CHR ''4''" "digit 5 = CHR ''5''" "digit 6 = CHR ''6''" "digit 7 = CHR ''7''"
  "digit 8 = CHR ''8''" "digit 9 = CHR ''9''" "digit (Suc 0) = CHR ''1''"
  by code_simp+

definition to_ascii_lower :: "char \<Rightarrow> char" where
  "to_ascii_lower c = (if c \<in> set ''ABCDEFGHIJKLMNOPQRSTUVWXYZ'' then char_of (of_char c + (32::nat)) else c)"

definition to_lowercase :: "string \<Rightarrow> string" where
  "to_lowercase s = map to_ascii_lower s"

subsection \<open>Lemmas on strings\<close>

lemma split_on_nonempty [simp]: "split_on c s \<noteq> []"
  by (induction s) (auto split: list.splits)

lemma split_on_no_sep [simp]: "c \<notin> set s \<Longrightarrow> split_on c s = [s]"
  by (induction s) auto

lemma split_on_append: "c \<notin> set s \<Longrightarrow> split_on c (s @ c # t) = s # split_on c t"
  by (induction s) auto

lemma split_on_pieces: "p \<in> set (split_on c s) \<Longrightarrow> c \<notin> set p"
proof (induction s arbitrary: p)
  case Nil
  then show ?case by simp
next
  case (Cons x xs)
  then show ?case by (cases "split_on c xs") (auto split: if_splits)
qed

lemma split_on_join:
  "ps \<noteq> [] \<Longrightarrow> list_all (\<lambda>p. c \<notin> set p) ps \<Longrightarrow> split_on c (join_with c ps) = ps"
  by (induction c ps rule: join_with.induct) (auto simp: split_on_append)

lemma join_split_on [simp]: "join_with c (split_on c s) = s"
proof (induction s)
  case Nil
  then show ?case by simp
next
  case (Cons x xs)
  obtain y ys where "split_on c xs = y # ys"
    by (cases "split_on c xs") auto
  with Cons show ?case by (cases ys) auto
qed

lemma splitn_sep:
  "c \<notin> set s \<Longrightarrow> splitn (Suc (Suc n)) c (s @ c # t) = s # splitn (Suc n) c t"
proof -
  assume "c \<notin> set s"
  then have "dropWhile (\<lambda>x. x \<noteq> c) (s @ c # t) = c # t"
    and "takeWhile (\<lambda>x. x \<noteq> c) (s @ c # t) = s"
    by (induction s) auto
  then show ?thesis by simp
qed

lemma splitn_no_sep: "c \<notin> set s \<Longrightarrow> splitn (Suc n) c s = [s]"
proof (cases n)
  case 0
  then show ?thesis by simp
next
  case (Suc m)
  assume "c \<notin> set s"
  then have "dropWhile (\<lambda>x. x \<noteq> c) s = []"
    by (induction s) auto
  with Suc show ?thesis by (simp del: dropWhile_eq_Nil_conv)
qed

lemma length_splitn: "length (splitn n c s) \<le> n"
  by (induction n c s rule: splitn.induct) (auto split: list.splits)

lemma trim_end_matches_not_last: "trim_end_matches c s = [] \<or> last (trim_end_matches c s) \<noteq> c"
proof (cases "dropWhile (\<lambda>x. x = c) (rev s)")
  case Nil
  then show ?thesis by (simp add: trim_end_matches_def)
next
  case (Cons y ys)
  then have "y \<noteq> c" by (metis (mono_tags, lifting) hd_dropWhile list.distinct(1) list.sel(1))
  with Cons show ?thesis by (simp add: trim_end_matches_def)
qed

lemma trim_end_matches_idem [simp]:
  "trim_end_matches c (trim_end_matches c s) = trim_end_matches c s"
  by (simp add: trim_end_matches_def dropWhile_idem)

lemma trim_end_matches_snoc [simp]: "trim_end_matches c (s @ [c]) = trim_end_matches c s"
  by (simp add: trim_end_matches_def)

lemma trim_end_matches_id: "s = [] \<or> last s \<noteq> c \<Longrightarrow> trim_end_matches c s = s"
  by (cases s rule: rev_cases) (auto simp: trim_end_matches_def)

subsection \<open>Decimal numerals\<close>

lemma of_char_digit: "d < 10 \<Longrightarrow> of_char (digit d) = (48 + d :: nat)"
  by (simp add: digit_def)

lemma digit_inj: "c < 10 \<Longrightarrow> d < 10 \<Longrightarrow> digit c = digit d \<longleftrightarrow> c = d"
  by (metis of_char_digit add_left_cancel)

lemma show_nat_nonempty [simp]: "show_nat n \<noteq> []" "[] \<noteq> show_nat n"
  by (subst show_nat.simps, simp)+

lemma show_nat_small: "n < 10 \<Longrightarrow> show_nat n = [digit n]"
  by (simp add: show_nat.simps)

lemma show_nat_step: "\<not> n < 10 \<Longrightarrow> show_nat n = show_nat (n div 10) @ [digit (n mod 10)]"
  by (simp add: show_nat.simps [of n])

lemma show_nat_inj: "show_nat m = show_nat n \<longleftrightarrow> m = n"
proof
  show "show_nat m = show_nat n \<Longrightarrow> m = n"
  proof (induction m arbitrary: n rule: less_induct)
    case (less m)
    consider "m < 10" "n < 10" | "m < 10" "\<not> n < 10" | "\<not> m < 10" "n < 10" | "\<not> m < 10" "\<not> n < 10"
      by blast
    then show ?case
    proof cases
      case 4
      then have eq: "show_nat (m div 10) = show_nat (n div 10)" "digit (m mod 10) = digit (n mod 10)"
        using less.prems by (simp_all add: show_nat_step)
      have "m div 10 = n div 10"
        using less.IH [OF _ eq(1)] 4 by simp
      moreover have "m mod 10 = n mod 10" using eq(2) by (simp add: digit_inj)
      ultimately show ?thesis by (metis div_mult_mod_eq)
    qed (use less.prems in \<open>simp_all add: show_nat_small show_nat_step digit_inj append_eq_Cons_conv\<close>)
  qed
qed simp

lemma show_nat_digits: "c \<in> set (show_nat n) \<Longrightarrow> (48 :: nat) \<le> of_char c \<and> of_char c < (58 :: nat)"
proof (induction n rule: less_induct)
  case (less n)
  show ?case
  proof (cases "n < 10")
    case True
    with less.prems show ?thesis by (simp add: show_nat_small of_char_digit)
  next
    case False
    with less.prems less.IH [of "n div 10"] show ?thesis
      by (auto simp: show_nat_step of_char_digit)
  qed
qed

lemma colon_not_in_show_nat [simp]: "CHR '':'' \<notin> set (show_nat n)"
  using show_nat_digits [of "CHR '':''" n] by auto

lemma append_sep_inj:
  "c \<notin> set xs \<Longrightarrow> c \<notin> set ys \<Longrightarrow> xs @ c # us = ys @ c # vs \<longleftrightarrow> xs = ys \<and> us = vs"
proof (induction xs arbitrary: ys)
  case Nil
  then show ?case by (cases ys) auto
next
  case (Cons x xs)
  then show ?case by (cases ys) auto
qed

section \<open>Sets\<close>

lemma disjoint_insert_subset: "x \<notin> A \<Longrightarrow> A \<inter> D = {} \<Longrightarrow> D' \<subseteq> insert x D \<Longrightarrow> A \<inter> D' = {}"
  by blast

section \<open>Words\<close>

lemma unat_Suc_word:
  fixes w :: "'a::len word"
  assumes "unat w + 1 < 2 ^ LENGTH('a)"
  shows "unat (w + 1) = unat w + 1"
  using assms by (metis unat_1 unat_add_lem)

lemma unat_of_nat_less: "n < 2 ^ LENGTH('a) \<Longrightarrow> unat (of_nat n :: 'a::len word) = n"
  by (simp add: unsigned_of_nat take_bit_nat_eq_self)

lemma unat_saturating_sub [simp]: "unat (saturating_sub a b) = unat a - unat b"
  by (auto simp: saturating_sub_def word_less_nat_alt unat_sub word_le_nat_alt not_less)

lemma saturating_sub_zero [simp]: "saturating_sub 0 b = 0"
  by (simp add: saturating_sub_def word_gt_0)

lemma unat_Suc_bounded:
  fixes w b :: "'a::len word"
  assumes "w < b"
  shows "unat (w + 1) = unat w + 1"
proof (rule unat_Suc_word)
  have "unat w < unat b" using assms by (simp add: word_less_nat_alt)
  moreover have "unat b < 2 ^ LENGTH('a)" by (rule unsigned_less)
  ultimately show "unat w + 1 < 2 ^ LENGTH('a)" by linarith
qed

section \<open>Interfaces of stateful components\<close>

text \<open>
  A component driven by calls: \<open>exec\<close> runs one call, and \<open>inv\<close> is what every call keeps.
  The client of the component may rely on \<open>inv\<close> after any sequence of calls.
\<close>

locale call_machine =
  fixes exec :: "'c \<Rightarrow> 's \<Rightarrow> 's"
    and ok :: "'c \<Rightarrow> bool"
    and inv :: "'s \<Rightarrow> bool"
  assumes exec_inv: "ok c \<Longrightarrow> inv s \<Longrightarrow> inv (exec c s)"
begin

lemma fold_inv: "list_all ok cs \<Longrightarrow> inv s \<Longrightarrow> inv (fold exec cs s)"
  by (induction cs arbitrary: s) (auto intro: exec_inv)

end

text \<open>
  A component whose parts interleave: \<open>step\<close> relates a state to its possible successors.
\<close>

locale invariant_system =
  fixes init :: "'s \<Rightarrow> bool"
    and step :: "'s \<Rightarrow> 's \<Rightarrow> bool"
    and inv :: "'s \<Rightarrow> bool"
  assumes init_inv: "init s \<Longrightarrow> inv s"
    and step_inv: "step s t \<Longrightarrow> inv s \<Longrightarrow> inv t"
begin

lemma steps_inv: "step\<^sup>*\<^sup>* s t \<Longrightarrow> inv s \<Longrightarrow> inv t"
  by (induction rule: rtranclp_induct) (auto intro: step_inv)

lemma reach_inv: "init s \<Longrightarrow> step\<^sup>*\<^sup>* s t \<Longrightarrow> inv t"
  by (blast intro: steps_inv init_inv)

end

text \<open>
  A table scanned in order for the first entry that matches a query: what the policy engine, the
  router and the model directory all do.
\<close>

locale first_match =
  fixes matches :: "'r \<Rightarrow> 'q \<Rightarrow> bool"
    and scan :: "'r list \<Rightarrow> 'q \<Rightarrow> 'r option"
  assumes scan_Nil: "scan [] q = None"
    and scan_Cons: "scan (r # rs) q = (if matches r q then Some r else scan rs q)"
begin

lemma scan_None: "scan rs q = None \<longleftrightarrow> (\<forall>r\<in>set rs. \<not> matches r q)"
  by (induction rs) (auto simp: scan_Nil scan_Cons)

lemma scan_SomeD: "scan rs q = Some r \<Longrightarrow> r \<in> set rs \<and> matches r q"
  by (induction rs) (auto simp: scan_Nil scan_Cons split: if_splits)

lemma scan_Some: "scan rs q \<noteq> None \<longleftrightarrow> (\<exists>r\<in>set rs. matches r q)"
  by (auto simp: scan_None)

lemma scan_append:
  "scan (rs @ rs') q = (case scan rs q of None \<Rightarrow> scan rs' q | Some r \<Rightarrow> Some r)"
  by (induction rs) (auto simp: scan_Nil scan_Cons)

lemma scan_firstI:
  "matches r q \<Longrightarrow> \<forall>b\<in>set before. \<not> matches b q \<Longrightarrow> scan (before @ r # after) q = Some r"
  using scan_None [of before q] by (simp add: scan_append scan_Cons)

lemma scan_firstE:
  assumes "scan rs q = Some r"
  obtains before after where "rs = before @ r # after" "matches r q" "\<forall>b\<in>set before. \<not> matches b q"
  using assms
proof (induction rs arbitrary: thesis)
  case Nil
  then show ?case by (simp add: scan_Nil)
next
  case (Cons x xs)
  show ?case
  proof (cases "matches x q")
    case True
    with Cons.prems(2) have "r = x" by (simp add: scan_Cons)
    with True show ?thesis by (intro Cons.prems(1) [of "[]" xs]) simp_all
  next
    case False
    with Cons.prems(2) have "scan xs q = Some r" by (simp add: scan_Cons)
    then obtain b a where "xs = b @ r # a" "matches r q" "\<forall>y\<in>set b. \<not> matches y q"
      using Cons.IH by blast
    with False show ?thesis by (intro Cons.prems(1) [of "x # b" a]) simp_all
  qed
qed

lemma scan_found_mono: "set rs \<subseteq> set rs' \<Longrightarrow> scan rs q \<noteq> None \<Longrightarrow> scan rs' q \<noteq> None"
  by (auto simp: scan_None)

end

end
