(* ===== verification/Http.thy ===== *)
theory Http
  imports Prelude
begin

text \<open>
  The HTTP vocabulary of the two gateways: requests and responses as the handlers read and build
  them. The \<open>http\<close> crate's validity checks are parameters (\<open>http_lib\<close>); \<open>http_contract\<close> states
  what the handlers rely on. A call of \<open>unwrap\<close> on a failed build is the value \<open>Panicked\<close>.
\<close>

section \<open>Status codes, headers, messages\<close>

text \<open>\<open>StatusCode::is_success\<close>: the class 2xx.\<close>

definition is_success :: "u16 \<Rightarrow> bool" where
  "is_success st \<longleftrightarrow> 200 \<le> st \<and> st < 300"

type_synonym headers = "(string \<times> string) list"

text \<open>
  A request as \<open>hyper\<close> hands it to a service: its body arrives later, so reading it may fail.
  Headers are listed in the order \<open>HeaderMap\<close> iterates over them.
\<close>

record http_request =
  req_method :: string
  req_path :: string
  req_query :: "string option"
  req_headers :: headers
  req_body :: "string + bytes"

record http_response =
  resp_status :: u16
  resp_headers :: headers
  resp_body :: bytes

datatype 'a outcome = Panicked string | Returned 'a

text \<open>
  \<open>header_ok n v\<close>: \<open>n\<close> and \<open>v\<close> convert to a header name and value. \<open>uri_ok u\<close>: \<open>u\<close> parses as a URI.
  \<open>method_from_bytes\<close> and \<open>status_from_u16\<close> are the checked constructors of the two types, and
  \<open>value_to_str\<close> is \<open>HeaderValue::to_str\<close>.
\<close>

record http_lib =
  header_ok :: "string \<Rightarrow> string \<Rightarrow> bool"
  uri_ok :: "string \<Rightarrow> bool"
  method_from_bytes :: "string \<Rightarrow> string + string"
  status_from_u16 :: "u16 \<Rightarrow> u16 option"
  value_to_str :: "string \<Rightarrow> string option"

section \<open>The response builder\<close>

text \<open>
  A builder in its initial state, one call of \<open>header\<close>, one of \<open>status\<close>; \<open>body\<close> reports the
  first invalid part.
\<close>

definition response_builder :: http_response where
  "response_builder = \<lparr>resp_status = 200, resp_headers = [], resp_body = ''''\<rparr>"

definition add_header :: "string \<Rightarrow> string \<Rightarrow> http_response \<Rightarrow> http_response" where
  "add_header n v b = b\<lparr>resp_headers := resp_headers b @ [(n, v)]\<rparr>"

definition set_status :: "u16 \<Rightarrow> http_response \<Rightarrow> http_response" where
  "set_status st b = b\<lparr>resp_status := st\<rparr>"

definition build_body :: "http_lib \<Rightarrow> bytes \<Rightarrow> http_response \<Rightarrow> string + http_response" where
  "build_body lib body b =
     (if list_all (\<lambda>(n, v). header_ok lib n v) (resp_headers b)
      then Inr (b\<lparr>resp_body := body\<rparr>) else Inl ''http::Error'')"

fun unwrap_result :: "string + 'a \<Rightarrow> 'a outcome" where
  "unwrap_result (Inl e) = Panicked e"
| "unwrap_result (Inr x) = Returned x"

lemmas builder_defs = response_builder_def add_header_def set_status_def build_body_def

lemma build_body_status: "build_body lib body b = Inr r \<Longrightarrow> resp_status r = resp_status b"
  by (auto simp: build_body_def split: if_splits)

lemma build_body_headers: "build_body lib body b = Inr r \<Longrightarrow> resp_headers r = resp_headers b"
  by (auto simp: build_body_def split: if_splits)

section \<open>What the handlers rely on\<close>

text \<open>
  Documented behaviour of the \<open>http\<close> crate: names of lower-case letters, digits and hyphens are
  header names, printable ASCII is a header value and converts back to a string, an upper-case
  word is a method, and the status codes are 100 to 999.
\<close>

definition token_char :: "char \<Rightarrow> bool" where
  "token_char c \<longleftrightarrow> c \<in> set ''abcdefghijklmnopqrstuvwxyz0123456789-''"

definition token :: "string \<Rightarrow> bool" where
  "token n \<longleftrightarrow> n \<noteq> '''' \<and> list_all token_char n"

definition visible_char :: "char \<Rightarrow> bool" where
  "visible_char c \<longleftrightarrow> 32 \<le> (of_char c :: nat) \<and> (of_char c :: nat) < 127"

definition visible :: "string \<Rightarrow> bool" where
  "visible v \<longleftrightarrow> list_all visible_char v"

definition upper_word :: "string \<Rightarrow> bool" where
  "upper_word m \<longleftrightarrow> m \<noteq> '''' \<and> list_all (\<lambda>c. c \<in> set ''ABCDEFGHIJKLMNOPQRSTUVWXYZ'') m"

definition http_contract :: "http_lib \<Rightarrow> bool" where
  "http_contract lib \<longleftrightarrow>
     (\<forall>n v. token n \<longrightarrow> visible v \<longrightarrow> header_ok lib n v) \<and>
     (\<forall>v. visible v \<longrightarrow> value_to_str lib v = Some v) \<and>
     (\<forall>m. upper_word m \<longrightarrow> method_from_bytes lib m = Inr m) \<and>
     (\<forall>st. status_from_u16 lib st = (if 100 \<le> st \<and> st \<le> 999 then Some st else None))"

lemma http_contractD:
  assumes "http_contract lib"
  shows "token n \<Longrightarrow> visible v \<Longrightarrow> header_ok lib n v"
    and "visible v \<Longrightarrow> value_to_str lib v = Some v"
    and "upper_word m \<Longrightarrow> method_from_bytes lib m = Inr m"
    and "status_from_u16 lib st = (if 100 \<le> st \<and> st \<le> 999 then Some st else None)"
  using assms by (simp_all add: http_contract_def)

definition headers_ok :: "http_lib \<Rightarrow> headers \<Rightarrow> bool" where
  "headers_ok lib hs \<longleftrightarrow> list_all (\<lambda>(n, v). header_ok lib n v) hs"

lemma build_body_ok:
  "headers_ok lib (resp_headers b) \<Longrightarrow> build_body lib body b = Inr (b\<lparr>resp_body := body\<rparr>)"
  by (simp add: build_body_def headers_ok_def)

lemma headers_ok_visible:
  assumes "http_contract lib" "list_all (\<lambda>(n, v). token n \<and> visible v) hs"
  shows "headers_ok lib hs"
  using assms(2) http_contractD(1) [OF assms(1)] by (auto simp: headers_ok_def list_all_iff)

text \<open>A library that accepts exactly what the contract names.\<close>

definition strict_http :: http_lib where
  "strict_http =
     \<lparr>header_ok = (\<lambda>n v. token n \<and> visible v),
      uri_ok = (\<lambda>u. u \<noteq> '''' \<and> visible u),
      method_from_bytes = (\<lambda>m. if upper_word m then Inr m else Inl ''invalid HTTP method''),
      status_from_u16 = (\<lambda>st. if 100 \<le> st \<and> st \<le> 999 then Some st else None),
      value_to_str = (\<lambda>v. if visible v then Some v else None)\<rparr>"

lemma strict_http_contract: "http_contract strict_http"
  by (simp add: http_contract_def strict_http_def)

lemmas http_chars =
  token_def token_char_def visible_def visible_char_def upper_word_def

end
