(* ===== verification/Proxy.thy ===== *)
theory Proxy
  imports Http
begin

text \<open>
  The upstream proxies \<open>rust-gateway/src/proxy.rs\<close> and \<open>gateway/src/proxy.rs\<close>. The \<open>reqwest\<close> client
  is a parameter: a function from the request given to \<open>send()\<close> to its answer. \<open>forward\<close> returns its
  result together with the requests it gave to \<open>send()\<close>, one element per call. What such a call puts on
  the wire is up to \<open>reqwest\<close>: nothing when it refuses the URL, and further requests when it follows
  redirects.
\<close>

section \<open>Messages to and from the upstream\<close>

record client_request =
  cr_method :: string
  cr_url :: string
  cr_headers :: headers
  cr_body :: "bytes option"

text \<open>Reading the body of an answer may fail after its head has arrived.\<close>

record upstream_response =
  up_status :: u16
  up_headers :: headers
  up_body :: "string + bytes"

type_synonym upstream_send = "client_request \<Rightarrow> string + upstream_response"

datatype proxy_error = Upstream string | Internal string

fun proxy_error_display :: "proxy_error \<Rightarrow> string" where
  "proxy_error_display (Upstream m) = ''upstream error: '' @ m"
| "proxy_error_display (Internal m) = ''internal error: '' @ m"

text \<open>The options of the pooled client; building it may fail, and \<open>expect\<close> then panics.\<close>

record proxy_client_options =
  pc_timeout :: nat
  pc_connect_timeout :: nat
  pc_pool_max_idle_per_host :: usize
  pc_pool_idle_timeout :: "nat option"
  pc_http2_prior_knowledge :: bool

definition proxy_client_new :: "(proxy_client_options \<Rightarrow> string + 'c) \<Rightarrow> 'c outcome" where
  "proxy_client_new build =
     (case build \<lparr>pc_timeout = duration_secs 30, pc_connect_timeout = duration_secs 5,
                  pc_pool_max_idle_per_host = 100, pc_pool_idle_timeout = None,
                  pc_http2_prior_knowledge = True\<rparr> of
        Inl e \<Rightarrow> Panicked ''failed to build HTTP client''
      | Inr c \<Rightarrow> Returned c)"

definition gw_proxy_client_new :: "(proxy_client_options \<Rightarrow> string + 'c) \<Rightarrow> 'c outcome" where
  "gw_proxy_client_new build =
     (case build \<lparr>pc_timeout = duration_secs 30, pc_connect_timeout = duration_secs 5,
                  pc_pool_max_idle_per_host = 200, pc_pool_idle_timeout = Some (duration_secs 60),
                  pc_http2_prior_knowledge = True\<rparr> of
        Inl e \<Rightarrow> Panicked ''failed to build HTTP client''
      | Inr c \<Rightarrow> Returned c)"

text \<open>\<open>client.request(method, url)\<close> and \<open>.header(name, value)\<close>.\<close>

definition client_request_new :: "string \<Rightarrow> string \<Rightarrow> client_request" where
  "client_request_new m url = \<lparr>cr_method = m, cr_url = url, cr_headers = [], cr_body = None\<rparr>"

definition client_header :: "string \<Rightarrow> string \<Rightarrow> client_request \<Rightarrow> client_request" where
  "client_header n v r = r\<lparr>cr_headers := cr_headers r @ [(n, v)]\<rparr>"

section \<open>Interface: forwarding a list of headers\<close>

text \<open>
  A loop that copies the headers with an allowed name to the upstream request. Its client may
  rely on what is copied, in which order and how often, and on nothing else being touched.
\<close>

locale header_filter =
  fixes allowed :: "string \<Rightarrow> bool"
    and copy :: "headers \<Rightarrow> client_request \<Rightarrow> client_request"
  assumes copy_Nil: "copy [] r = r"
    and copy_Cons: "copy ((n, v) # hs) r = copy hs (if allowed n then client_header n v r else r)"
begin

lemma copied_headers: "cr_headers (copy hs r) = cr_headers r @ filter (\<lambda>(n, v). allowed n) hs"
  by (induction hs arbitrary: r) (auto simp: copy_Nil copy_Cons client_header_def)

lemma copy_keeps: "cr_method (copy hs r) = cr_method r" "cr_url (copy hs r) = cr_url r"
  "cr_body (copy hs r) = cr_body r"
  by (induction hs arbitrary: r) (auto simp: copy_Nil copy_Cons client_header_def)

lemma copied_request:
  "copy hs (client_request_new m url) =
     \<lparr>cr_method = m, cr_url = url, cr_headers = filter (\<lambda>(n, v). allowed n) hs, cr_body = None\<rparr>"
  by (rule client_request.equality) (simp_all add: copied_headers copy_keeps client_request_new_def)

end

section \<open>The proxy of rust-gateway\<close>

definition forwarded_header :: "string \<Rightarrow> bool" where
  "forwarded_header n \<longleftrightarrow>
     n = ''authorization'' \<or> n = ''content-type'' \<or> n = ''x-request-id'' \<or> n = ''accept''"

fun forward_headers :: "headers \<Rightarrow> client_request \<Rightarrow> client_request" where
  "forward_headers [] upstream_req = upstream_req"
| "forward_headers ((key, value) # hs) upstream_req =
     forward_headers hs
       (if forwarded_header key then client_header key value upstream_req else upstream_req)"

text \<open>The response used when the builder reports an error; its own \<open>unwrap\<close> may panic.\<close>

definition fallback_response :: "http_lib \<Rightarrow> http_response outcome" where
  "fallback_response lib =
     unwrap_result (build_body lib ''{}'' (set_status 500 response_builder))"

definition build_or_fallback :: "http_lib \<Rightarrow> bytes \<Rightarrow> http_response \<Rightarrow> http_response outcome" where
  "build_or_fallback lib body b =
     (case build_body lib body b of Inr r \<Rightarrow> Returned r | Inl e \<Rightarrow> fallback_response lib)"

definition forward ::
  "http_lib \<Rightarrow> upstream_send \<Rightarrow> http_request \<Rightarrow> string \<Rightarrow>
     (proxy_error + http_response) outcome \<times> client_request list" where
  "forward lib send req upstream_url =
     (case method_from_bytes lib (req_method req) of
        Inl e \<Rightarrow> (Returned (Inl (Internal e)), [])
      | Inr m \<Rightarrow>
          (let upstream_req = forward_headers (req_headers req) (client_request_new m upstream_url) in
           case send upstream_req of
             Inl e \<Rightarrow> (Returned (Inl (Upstream e)), [upstream_req])
           | Inr resp \<Rightarrow>
               (let status = unwrap_or (status_from_u16 lib (up_status resp)) 502 in
                case up_body resp of
                  Inl e \<Rightarrow> (Returned (Inl (Upstream e)), [upstream_req])
                | Inr body_bytes \<Rightarrow>
                    (map_outcome Inr
                       (build_or_fallback lib body_bytes
                         (add_header ''x-appgate-proxy'' ''1''
                           (add_header ''content-type'' ''application/json''
                             (set_status status response_builder)))),
                     [upstream_req]))))"

section \<open>The proxy of the gateway crate\<close>

definition gw_forwarded_header :: "string \<Rightarrow> bool" where
  "gw_forwarded_header n \<longleftrightarrow>
     (let key_str = to_lowercase n in
      key_str = ''authorization'' \<or> key_str = ''content-type'' \<or> key_str = ''x-request-id'' \<or>
      key_str = ''accept'' \<or> key_str = ''x-api-key'' \<or> key_str = ''x-tenant-id'' \<or>
      key_str = ''user-agent'')"

fun gw_forward_headers :: "headers \<Rightarrow> client_request \<Rightarrow> client_request" where
  "gw_forward_headers [] upstream_req = upstream_req"
| "gw_forward_headers ((key, value) # hs) upstream_req =
     gw_forward_headers hs
       (if gw_forwarded_header key then client_header key value upstream_req else upstream_req)"

definition captured :: "http_lib \<Rightarrow> headers \<Rightarrow> string \<Rightarrow> string option" where
  "captured lib hs n = (case map_of hs n of None \<Rightarrow> None | Some v \<Rightarrow> value_to_str lib v)"

definition opt_header :: "string \<Rightarrow> string option \<Rightarrow> http_response \<Rightarrow> http_response" where
  "opt_header n v b = (case v of None \<Rightarrow> b | Some x \<Rightarrow> add_header n x b)"

definition gw_forward ::
  "http_lib \<Rightarrow> upstream_send \<Rightarrow> http_request \<Rightarrow> string \<Rightarrow>
     (proxy_error + http_response) outcome \<times> client_request list" where
  "gw_forward lib send req upstream_url =
     (case method_from_bytes lib (req_method req) of
        Inl e \<Rightarrow> (Returned (Inl (Internal e)), [])
      | Inr m \<Rightarrow>
          (let upstream_req = gw_forward_headers (req_headers req) (client_request_new m upstream_url) in
           case send upstream_req of
             Inl e \<Rightarrow> (Returned (Inl (Upstream e)), [upstream_req])
           | Inr resp \<Rightarrow>
               (let status = unwrap_or (status_from_u16 lib (up_status resp)) 502;
                    content_type = captured lib (up_headers resp) ''content-type'';
                    cache_control = captured lib (up_headers resp) ''cache-control'' in
                case up_body resp of
                  Inl e \<Rightarrow> (Returned (Inl (Upstream e)), [upstream_req])
                | Inr body_bytes \<Rightarrow>
                    (let builder = add_header ''x-appgate-proxy'' ''1'' (set_status status response_builder);
                         builder = opt_header ''content-type'' content_type builder;
                         builder = opt_header ''cache-control'' cache_control builder in
                     (map_outcome Inr (build_or_fallback lib body_bytes builder), [upstream_req])))))"

definition handle_proxy_request ::
  "http_lib \<Rightarrow> upstream_send \<Rightarrow> http_request \<Rightarrow> string \<Rightarrow>
     http_response outcome \<times> client_request list" where
  "handle_proxy_request lib send req upstream_url =
     (case gw_forward lib send req upstream_url of
        (Panicked e, sent) \<Rightarrow> (Panicked e, sent)
      | (Returned (Inr resp), sent) \<Rightarrow> (Returned resp, sent)
      | (Returned (Inl e), sent) \<Rightarrow>
          (unwrap_result
             (build_body lib
                (''{\"error\":\"upstream_error\",\"message\":\"'' @ proxy_error_display e @ ''\"}'')
                (add_header ''content-type'' ''application/json'' (set_status 502 response_builder))),
           sent))"

section \<open>What is sent and what comes back\<close>

interpretation fwd: header_filter forwarded_header forward_headers
  by unfold_locales simp_all

interpretation gw_fwd: header_filter gw_forwarded_header gw_forward_headers
  by unfold_locales simp_all

lemma fallback_never_panics [simp]:
  "fallback_response lib = Returned \<lparr>resp_status = 500, resp_headers = [], resp_body = ''{}''\<rparr>"
  by (simp add: fallback_response_def builder_defs)

lemma build_or_fallback_returns:
  "\<exists>r. map_outcome Inr (build_or_fallback lib body b) = Returned r"
  by (simp add: build_or_fallback_def split: sum.split)

lemma forward_returns: "\<exists>r. fst (forward lib send req url) = Returned r"
  by (simp add: forward_def Let_def build_or_fallback_returns split: sum.split)

lemma gw_forward_returns: "\<exists>r. fst (gw_forward lib send req url) = Returned r"
  by (simp add: gw_forward_def Let_def build_or_fallback_returns split: sum.split)

text \<open>The request that reaches the upstream, as a function of what the proxy was given.\<close>

definition upstream_view :: "(string \<Rightarrow> bool) \<Rightarrow> string \<Rightarrow> string \<Rightarrow> headers \<Rightarrow> client_request" where
  "upstream_view allowed m url hs =
     \<lparr>cr_method = m, cr_url = url, cr_headers = filter (\<lambda>(n, v). allowed n) hs, cr_body = None\<rparr>"

lemma forward_sent:
  "snd (forward lib send req url) =
     (case method_from_bytes lib (req_method req) of
        Inl e \<Rightarrow> []
      | Inr m \<Rightarrow> [upstream_view forwarded_header m url (req_headers req)])"
  by (simp add: forward_def Let_def fwd.copied_request upstream_view_def split: sum.split)

lemma gw_forward_sent:
  "snd (gw_forward lib send req url) =
     (case method_from_bytes lib (req_method req) of
        Inl e \<Rightarrow> []
      | Inr m \<Rightarrow> [upstream_view gw_forwarded_header m url (req_headers req)])"
  by (simp add: gw_forward_def Let_def gw_fwd.copied_request upstream_view_def split: sum.split)

text \<open>The status a proxy reports for an upstream status.\<close>

definition proxied_status :: "u16 \<Rightarrow> u16" where
  "proxied_status st = (if 100 \<le> st \<and> st \<le> 999 then st else 502)"

lemma forward_result:
  assumes "http_contract lib" "method_from_bytes lib (req_method req) = Inr m"
  shows "fst (forward lib send req url) =
     Returned (case send (upstream_view forwarded_header m url (req_headers req)) of
        Inl e \<Rightarrow> Inl (Upstream e)
      | Inr resp \<Rightarrow>
          (case up_body resp of
             Inl e \<Rightarrow> Inl (Upstream e)
           | Inr body \<Rightarrow>
               Inr \<lparr>resp_status = proxied_status (up_status resp),
                    resp_headers = [(''content-type'', ''application/json''), (''x-appgate-proxy'', ''1'')],
                    resp_body = body\<rparr>))"
proof -
  have "header_ok lib ''content-type'' ''application/json''" "header_ok lib ''x-appgate-proxy'' ''1''"
    by (rule http_contractD(1) [OF assms(1)]; simp add: http_chars)+
  then show ?thesis
    using assms(2) http_contractD(4) [OF assms(1)]
    by (simp add: forward_def Let_def fwd.copied_request upstream_view_def build_or_fallback_def
        builder_defs proxied_status_def unwrap_or_def split: sum.split)
qed

text \<open>The headers the gateway crate puts on the answer: its own, and two of the upstream's.\<close>

definition gw_answer_headers :: "headers \<Rightarrow> headers" where
  "gw_answer_headers hs =
     [(''x-appgate-proxy'', ''1'')] @
     (case map_of hs ''content-type'' of None \<Rightarrow> [] | Some v \<Rightarrow> [(''content-type'', v)]) @
     (case map_of hs ''cache-control'' of None \<Rightarrow> [] | Some v \<Rightarrow> [(''cache-control'', v)])"

lemma captured_visible:
  assumes "http_contract lib" "list_all (\<lambda>(n, v). visible v) hs"
  shows "captured lib hs n = map_of hs n" "map_of hs n = Some v \<Longrightarrow> visible v"
  using assms(2) http_contractD(2) [OF assms(1)]
  by (auto simp: captured_def list_all_iff split: option.split dest!: map_of_SomeD)

lemma gw_answer_headers_ok:
  assumes "http_contract lib" "list_all (\<lambda>(n, v). visible v) hs"
  shows "headers_ok lib (gw_answer_headers hs)"
proof (rule headers_ok_visible [OF assms(1)])
  have "token ''x-appgate-proxy''" "visible ''1''" "token ''content-type''" "token ''cache-control''"
    by (simp_all add: http_chars)
  then show "list_all (\<lambda>(n, v). token n \<and> visible v) (gw_answer_headers hs)"
    using captured_visible(2) [OF assms] by (simp add: gw_answer_headers_def split: option.split)
qed

lemma gw_built_headers:
  assumes "http_contract lib" "list_all (\<lambda>(n, v). visible v) hs"
  shows "opt_header ''cache-control'' (captured lib hs ''cache-control'')
           (opt_header ''content-type'' (captured lib hs ''content-type'')
             (add_header ''x-appgate-proxy'' ''1'' (set_status st response_builder))) =
         \<lparr>resp_status = st, resp_headers = gw_answer_headers hs, resp_body = ''''\<rparr>"
  by (simp add: captured_visible(1) [OF assms] gw_answer_headers_def opt_header_def builder_defs
      split: option.split)

lemma gw_forward_result:
  assumes "http_contract lib" "method_from_bytes lib (req_method req) = Inr m"
    and "send (upstream_view gw_forwarded_header m url (req_headers req)) = Inr resp"
    and "list_all (\<lambda>(n, v). visible v) (up_headers resp)"
  shows "fst (gw_forward lib send req url) =
     Returned (case up_body resp of
         Inl e \<Rightarrow> Inl (Upstream e)
       | Inr body \<Rightarrow> Inr \<lparr>resp_status = proxied_status (up_status resp),
                         resp_headers = gw_answer_headers (up_headers resp), resp_body = body\<rparr>)"
  using assms(2,3) build_body_ok [of lib "\<lparr>resp_status = _, resp_headers = gw_answer_headers (up_headers resp), resp_body = ''''\<rparr>"]
    gw_answer_headers_ok [OF assms(1,4)] gw_built_headers [OF assms(1,4)] http_contractD(4) [OF assms(1)]
  by (simp add: gw_forward_def Let_def gw_fwd.copied_request upstream_view_def build_or_fallback_def
      proxied_status_def unwrap_or_def split: sum.split)

section \<open>Properties\<close>

text \<open>
  Claim C11. What reaches the upstream. Each proxy sends nothing when the method is refused, and
  otherwise exactly one request: to the given URL, with exactly the allowed headers of the
  request in their order (four names in rust-gateway, seven in the gateway crate, compared
  without case), and with no body. In particular the body of the client's request is never sent.
\<close>

theorem proxy_sends_exactly:
  "snd (forward lib send req url) =
     (case method_from_bytes lib (req_method req) of
        Inl e \<Rightarrow> []
      | Inr m \<Rightarrow>
          [\<lparr>cr_method = m, cr_url = url,
            cr_headers = filter (\<lambda>(n, v). n \<in> {''authorization'', ''content-type'', ''x-request-id'', ''accept''})
                           (req_headers req),
            cr_body = None\<rparr>]) \<and>
   snd (gw_forward lib send req url) =
     (case method_from_bytes lib (req_method req) of
        Inl e \<Rightarrow> []
      | Inr m \<Rightarrow>
          [\<lparr>cr_method = m, cr_url = url,
            cr_headers = filter (\<lambda>(n, v). to_lowercase n \<in> {''authorization'', ''content-type'', ''x-request-id'',
                             ''accept'', ''x-api-key'', ''x-tenant-id'', ''user-agent''}) (req_headers req),
            cr_body = None\<rparr>])"
  unfolding forward_sent gw_forward_sent upstream_view_def forwarded_header_def gw_forwarded_header_def Let_def
  by (simp only: insert_iff empty_iff simp_thms)

text \<open>
  What rust-gateway's proxy answers for a method that is an upper-case word: it never panics; a transport
  error, before or while the body is read, is an \<open>Upstream\<close> error with its message; any other
  answer is passed on with its status (502 when it is no status code) and its body, under
  \<open>content-type: application/json\<close> whatever type the upstream declared.
\<close>

theorem proxy_result:
  assumes "http_contract lib" "upper_word (req_method req)"
  shows "fst (forward lib send req url) =
     Returned (case send (upstream_view forwarded_header (req_method req) url (req_headers req)) of
        Inl e \<Rightarrow> Inl (Upstream e)
      | Inr resp \<Rightarrow>
          (case up_body resp of
             Inl e \<Rightarrow> Inl (Upstream e)
           | Inr body \<Rightarrow>
               Inr \<lparr>resp_status = (if 100 \<le> up_status resp \<and> up_status resp \<le> 999 then up_status resp else 502),
                    resp_headers = [(''content-type'', ''application/json''), (''x-appgate-proxy'', ''1'')],
                    resp_body = body\<rparr>))"
  using forward_result [OF assms(1) http_contractD(3) [OF assms]] unfolding proxied_status_def .

definition sample_request :: http_request where
  "sample_request =
     \<lparr>req_method = ''POST'', req_path = ''/v1/proxy'', req_query = None,
      req_headers = [(''cookie'', ''s=1''), (''accept'', ''*/*'')], req_body = Inr ''hello''\<rparr>"

definition sample_upstream :: upstream_send where
  "sample_upstream r =
     Inr \<lparr>up_status = 201, up_headers = [(''content-type'', ''text/html''), (''server'', ''x'')],
          up_body = Inr ''page''\<rparr>"

lemma sample_upper: "upper_word (req_method sample_request)"
  by (simp add: sample_request_def upper_word_def)

theorem proxy_result_witness:
  "fst (forward strict_http sample_upstream sample_request ''http://up'') =
     Returned (Inr \<lparr>resp_status = 201,
       resp_headers = [(''content-type'', ''application/json''), (''x-appgate-proxy'', ''1'')],
       resp_body = ''page''\<rparr>)"
  using proxy_result [OF strict_http_contract sample_upper, of sample_upstream "''http://up''"]
  by (simp add: sample_upstream_def)

text \<open>
  What the gateway crate's proxy answers when the upstream's header values are
  printable: status and body as before, and of the upstream's headers exactly the first
  \<open>content-type\<close> and the first \<open>cache-control\<close>, after the gateway's own marker.
\<close>

theorem gw_proxy_result:
  assumes "http_contract lib" "upper_word (req_method req)"
    and "send (upstream_view gw_forwarded_header (req_method req) url (req_headers req)) = Inr resp"
    and "list_all (\<lambda>(n, v). visible v) (up_headers resp)"
  shows "fst (gw_forward lib send req url) =
     Returned (case up_body resp of
         Inl e \<Rightarrow> Inl (Upstream e)
       | Inr body \<Rightarrow> Inr \<lparr>resp_status = proxied_status (up_status resp),
                         resp_headers = gw_answer_headers (up_headers resp), resp_body = body\<rparr>)"
  using gw_forward_result [where send = send and url = url and resp = resp,
      OF assms(1) http_contractD(3) [OF assms(1,2)]] assms(3,4) by blast

theorem gw_proxy_result_witness:
  "fst (gw_forward strict_http sample_upstream sample_request ''http://up'') =
     Returned (Inr \<lparr>resp_status = 201,
       resp_headers = [(''x-appgate-proxy'', ''1''), (''content-type'', ''text/html'')], resp_body = ''page''\<rparr>)"
  using gw_proxy_result [OF strict_http_contract sample_upper, of sample_upstream "''http://up''"]
  by (simp add: sample_upstream_def gw_answer_headers_def proxied_status_def visible_def visible_char_def)

end
