(* ===== verification/Config.thy ===== *)
theory Config
  imports Prelude
begin

text \<open>
  Configuration of the two gateway crates: \<open>rust-gateway/src/config.rs\<close> (the structs, their
  derived \<open>Default\<close> instances, the functions named in the \<open>serde\<close> attributes and
  \<open>from_env\<close>) and \<open>gateway/src/config.rs\<close> with the command-line arguments of
  \<open>gateway/src/main.rs\<close>. The \<open>envy\<close> loader is a parameter.
\<close>

section \<open>rust-gateway: structs\<close>

record tls_config =
  tls_enabled :: bool
  cert_path :: "string option"
  key_path :: "string option"
  min_version :: "string option"

record jwt_config =
  jwt_enabled :: bool
  jwks_url :: "string option"
  issuer :: "string option"
  audience :: "string option"
  jwt_key_path :: "string option"

record rate_limit_config =
  rl_enabled :: bool
  requests_per_second :: u64
  burst_size :: u32
  window_secs :: u64

record upstream_config =
  default_url :: string
  connect_timeout_ms :: "u64 option"
  read_timeout_ms :: "u64 option"
  keepalive_duration_secs :: "u64 option"
  max_connections :: "usize option"

record audit_config =
  audit_endpoint :: string

record cache_config =
  cache_enabled :: bool
  ttl_secs :: "u64 option"
  max_size :: "u64 option"

record circuit_breaker_config =
  failure_threshold :: u32
  recovery_timeout_ms :: u64
  half_open_max_calls :: u32

record gateway_config =
  bind_addr :: string
  port :: u16
  tls :: tls_config
  jwt :: jwt_config
  rate_limit :: rate_limit_config
  upstream :: upstream_config
  audit :: audit_config
  cache :: cache_config
  circuit_breaker_cfg :: circuit_breaker_config
  log_level :: string
  control_plane_url :: string
  environment :: string

section \<open>rust-gateway: the functions named by the serde attributes\<close>

definition default_bind :: string where "default_bind = ''0.0.0.0''"
definition default_port :: u16 where "default_port = 8080"
definition default_log_level :: string where "default_log_level = ''info''"
definition default_control_plane_url :: string where
  "default_control_plane_url = ''http://appgate-control-plane:8080''"
definition default_environment :: string where "default_environment = ''production''"
definition default_true :: bool where "default_true = True"
definition default_rps :: u64 where "default_rps = 100"
definition default_burst :: u32 where "default_burst = 150"
definition default_window :: u64 where "default_window = 60"
definition default_upstream_url :: string where "default_upstream_url = ''''"
definition default_audit_endpoint :: string where "default_audit_endpoint = ''/v1/audit/batch''"
definition default_failure_threshold :: u32 where "default_failure_threshold = 5"
definition default_recovery_timeout_ms :: u64 where "default_recovery_timeout_ms = 30000"
definition default_half_open_max_calls :: u32 where "default_half_open_max_calls = 3"

lemmas serde_defaults =
  default_bind_def default_port_def default_log_level_def default_control_plane_url_def
  default_environment_def default_true_def default_rps_def default_burst_def default_window_def
  default_upstream_url_def default_audit_endpoint_def default_failure_threshold_def
  default_recovery_timeout_ms_def default_half_open_max_calls_def

section \<open>rust-gateway: derived and written Default instances\<close>

text \<open>
  \<open>#[derive(Default)]\<close> takes the default of each field's type: \<open>false\<close>, \<open>0\<close>, the empty
  string, \<open>None\<close>. It does not look at the \<open>serde\<close> attributes.
\<close>

definition tls_config_default :: tls_config where
  "tls_config_default =
     \<lparr>tls_enabled = False, cert_path = None, key_path = None, min_version = None\<rparr>"

definition jwt_config_default :: jwt_config where
  "jwt_config_default =
     \<lparr>jwt_enabled = False, jwks_url = None, issuer = None, audience = None, jwt_key_path = None\<rparr>"

definition rate_limit_config_default :: rate_limit_config where
  "rate_limit_config_default =
     \<lparr>rl_enabled = False, requests_per_second = 0, burst_size = 0, window_secs = 0\<rparr>"

definition upstream_config_default :: upstream_config where
  "upstream_config_default =
     \<lparr>default_url = '''', connect_timeout_ms = None, read_timeout_ms = None,
      keepalive_duration_secs = None, max_connections = None\<rparr>"

definition audit_config_default :: audit_config where
  "audit_config_default = \<lparr>audit_endpoint = ''''\<rparr>"

definition cache_config_default :: cache_config where
  "cache_config_default = \<lparr>cache_enabled = False, ttl_secs = None, max_size = None\<rparr>"

definition circuit_breaker_config_default :: circuit_breaker_config where
  "circuit_breaker_config_default =
     \<lparr>failure_threshold = 0, recovery_timeout_ms = 0, half_open_max_calls = 0\<rparr>"

definition gateway_config_default :: gateway_config where
  "gateway_config_default =
     \<lparr>bind_addr = default_bind, port = default_port, tls = tls_config_default,
      jwt = jwt_config_default, rate_limit = rate_limit_config_default,
      upstream = upstream_config_default, audit = audit_config_default,
      cache = cache_config_default, circuit_breaker_cfg = circuit_breaker_config_default,
      log_level = default_log_level, control_plane_url = default_control_plane_url,
      environment = default_environment\<rparr>"

lemmas derived_defaults =
  tls_config_default_def jwt_config_default_def rate_limit_config_default_def
  upstream_config_default_def audit_config_default_def cache_config_default_def
  circuit_breaker_config_default_def gateway_config_default_def

text \<open>\<open>envy\<close> reads the process environment and returns a configuration or an error.\<close>

type_synonym env = "string \<rightharpoonup> string"

definition from_env :: "(env \<Rightarrow> string + gateway_config) \<Rightarrow> env \<Rightarrow> gateway_config" where
  "from_env envy env = (case envy env of Inr c \<Rightarrow> c | Inl e \<Rightarrow> gateway_config_default)"

text \<open>
  A configuration as \<open>serde\<close> builds it when every section is given without its optional
  fields: each attribute supplies its function's value.
\<close>

definition circuit_breaker_config_serde :: circuit_breaker_config where
  "circuit_breaker_config_serde =
     \<lparr>failure_threshold = default_failure_threshold,
      recovery_timeout_ms = default_recovery_timeout_ms,
      half_open_max_calls = default_half_open_max_calls\<rparr>"

section \<open>gateway: command line and configuration\<close>

record gw_args =
  arg_listen_addr :: string
  arg_listen_port :: u16
  arg_control_plane_url :: string
  arg_tls_cert_path :: string
  arg_tls_key_path :: string
  arg_jwt_key_path :: string
  arg_jwt_issuer :: string
  arg_jwt_audience :: string
  arg_otlp_endpoint :: string

definition gw_args_default :: gw_args where
  "gw_args_default =
     \<lparr>arg_listen_addr = ''0.0.0.0'', arg_listen_port = 8443,
      arg_control_plane_url = ''http://appgate-control-plane:8080'',
      arg_tls_cert_path = ''/etc/appgate/tls/cert.pem'',
      arg_tls_key_path = ''/etc/appgate/tls/key.pem'',
      arg_jwt_key_path = ''/etc/appgate/jwt/verify.pem'',
      arg_jwt_issuer = ''https://appgate.example.com'',
      arg_jwt_audience = ''appgate-gateway'',
      arg_otlp_endpoint = ''http://otel-collector:4317''\<rparr>"

record gw_config =
  gw_listen_addr :: string
  gw_listen_port :: u16
  gw_control_plane_url :: string
  gw_jwt_key_path :: string
  gw_jwt_issuer :: string
  gw_jwt_audience :: string
  allowed_algorithms :: "string list"
  clock_skew_seconds :: int

definition gw_config_load :: "gw_args \<Rightarrow> string + gw_config" where
  "gw_config_load args =
     Inr \<lparr>gw_listen_addr = arg_listen_addr args, gw_listen_port = arg_listen_port args,
          gw_control_plane_url = arg_control_plane_url args,
          gw_jwt_key_path = arg_jwt_key_path args, gw_jwt_issuer = arg_jwt_issuer args,
          gw_jwt_audience = arg_jwt_audience args,
          allowed_algorithms = [''RS256'', ''ES256''], clock_skew_seconds = 30\<rparr>"

end
