(* ===== verification/Routing.thy ===== *)
theory Routing
  imports Config
begin

text \<open>
  \<open>rust-gateway/src/router.rs\<close>: the route table read from \<open>APPGATE_ROUTES\<close>, the choice of an
  upstream for a path and for a model. The construction of the HTTP client is a parameter that
  takes the options the source sets.
\<close>

section \<open>Routes\<close>

record route =
  path_prefix :: string
  route_upstream :: string
  provider :: string

record client_options =
  connect_timeout :: nat
  read_timeout :: nat
  pool_max_idle_per_host :: usize
  pool_idle_timeout :: nat
  http2_prior_knowledge :: bool

record 'c router =
  client :: 'c
  default_upstream :: string
  routes :: "route list"

definition router_client_options :: "upstream_config \<Rightarrow> client_options" where
  "router_client_options u =
     \<lparr>connect_timeout = duration_ms (unwrap_or (connect_timeout_ms u) 5000),
      read_timeout = duration_ms (unwrap_or (read_timeout_ms u) 60000),
      pool_max_idle_per_host = unwrap_or (max_connections u) 1000,
      pool_idle_timeout = duration_secs (unwrap_or (keepalive_duration_secs u) 30),
      http2_prior_knowledge = True\<rparr>"

definition parse_route :: "string \<Rightarrow> route option" where
  "parse_route pair =
     (case splitn 3 CHR ''='' pair of
        [a, b, c] \<Rightarrow> Some \<lparr>path_prefix = a, route_upstream = c, provider = b\<rparr>
      | _ \<Rightarrow> None)"

fun parse_pairs :: "string list \<Rightarrow> route list" where
  "parse_pairs [] = []"
| "parse_pairs (pair # pairs) =
     (case parse_route pair of
        Some r \<Rightarrow> r # parse_pairs pairs
      | None \<Rightarrow> parse_pairs pairs)"

definition parse_routes :: "string \<Rightarrow> route list" where
  "parse_routes route_env = parse_pairs (split_on CHR '','' route_env)"

definition default_route :: "string \<Rightarrow> route" where
  "default_route url =
     \<lparr>path_prefix = ''/v1/chat/completions'', route_upstream = url, provider = ''openai''\<rparr>"

text \<open>The result is \<open>Inl\<close> with the panic message when the client cannot be built.\<close>

definition router_new ::
  "(client_options \<Rightarrow> string + 'c) \<Rightarrow> gateway_config \<Rightarrow> env \<Rightarrow> string + 'c router" where
  "router_new build cfg env =
     (case build (router_client_options (upstream cfg)) of
        Inl e \<Rightarrow> Inl ''failed to build HTTP client''
      | Inr c \<Rightarrow>
          (let rs = (case env ''APPGATE_ROUTES'' of
                       Some route_env \<Rightarrow> parse_routes route_env
                     | None \<Rightarrow> []);
               rs = (if rs = [] then [default_route (default_url (upstream cfg))] else rs)
           in Inr \<lparr>client = c, default_upstream = default_url (upstream cfg), routes = rs\<rparr>))"

section \<open>Choosing an upstream\<close>

fun select_loop :: "route list \<Rightarrow> string \<Rightarrow> route option" where
  "select_loop [] path = None"
| "select_loop (r # rs) path =
     (if starts_with path (path_prefix r) then Some r else select_loop rs path)"

definition select :: "'c router \<Rightarrow> string \<Rightarrow> string option" where
  "select rt path =
     (case select_loop (routes rt) path of
        Some r \<Rightarrow> Some (route_upstream r)
      | None \<Rightarrow> Some (default_upstream rt))"

definition model_provider :: "string \<Rightarrow> string" where
  "model_provider model =
     (if starts_with model ''gpt-'' then ''openai''
      else if starts_with model ''claude-'' then ''anthropic''
      else if starts_with model ''llama-'' then ''meta''
      else ''default'')"

fun provider_loop :: "route list \<Rightarrow> string \<Rightarrow> route option" where
  "provider_loop [] p = None"
| "provider_loop (r # rs) p = (if provider r = p then Some r else provider_loop rs p)"

definition get_provider_url :: "'c router \<Rightarrow> string \<Rightarrow> string + string" where
  "get_provider_url rt model =
     (case provider_loop (routes rt) (model_provider model) of
        Some r \<Rightarrow> Inr (route_upstream r)
      | None \<Rightarrow>
          if default_upstream rt \<noteq> '''' then Inr (default_upstream rt)
          else Inl (''no upstream configured for model: '' @ model))"

interpretation path_scan: first_match "\<lambda>r path. starts_with path (path_prefix r)" select_loop
  by unfold_locales simp_all

interpretation provider_scan: first_match "\<lambda>r p. provider r = p" provider_loop
  by unfold_locales simp_all

section \<open>Printing routes\<close>

definition print_route :: "route \<Rightarrow> string" where
  "print_route r = path_prefix r @ ''='' @ provider r @ ''='' @ route_upstream r"

definition print_routes :: "route list \<Rightarrow> string" where
  "print_routes rs = join_with CHR '','' (map print_route rs)"

definition route_printable :: "route \<Rightarrow> bool" where
  "route_printable r \<longleftrightarrow>
     CHR '','' \<notin> set (path_prefix r) \<and> CHR '','' \<notin> set (provider r) \<and>
     CHR '','' \<notin> set (route_upstream r) \<and>
     CHR ''='' \<notin> set (path_prefix r) \<and> CHR ''='' \<notin> set (provider r)"

lemma parse_print_route:
  assumes "route_printable r"
  shows "parse_route (print_route r) = Some r"
proof -
  have "splitn 3 CHR ''='' (print_route r) = [path_prefix r, provider r, route_upstream r]"
    using assms splitn_sep [of "CHR ''=''" "path_prefix r" 1 "provider r @ ''='' @ route_upstream r"]
      splitn_sep [of "CHR ''=''" "provider r" 0 "route_upstream r"]
    by (simp add: print_route_def route_printable_def numeral_3_eq_3)
  then show ?thesis by (simp add: parse_route_def)
qed

lemma parse_print_pairs: "list_all route_printable rs \<Longrightarrow> parse_pairs (map print_route rs) = rs"
  by (induction rs) (simp_all add: parse_print_route)

lemma parse_pairs_filter: "parse_pairs ps = List.map_filter parse_route ps"
  by (induction ps) (simp_all add: map_filter_simps split: option.splits)

lemma parse_route_Some:
  assumes "parse_route pair = Some r"
  shows "pair = print_route r \<and> CHR ''='' \<notin> set (path_prefix r) \<and> CHR ''='' \<notin> set (provider r)"
proof -
  have *: "takeWhile (\<lambda>x. x \<noteq> c) s @ c # t = s \<and> c \<notin> set (takeWhile (\<lambda>x. x \<noteq> c) s)"
    if "dropWhile (\<lambda>x. x \<noteq> c) s = d # t" for s t :: string and c d
  proof -
    have "d = c" using that by (metis (mono_tags, lifting) dropWhile_eq_Cons_conv)
    then show ?thesis using that by (metis (mono_tags, lifting) set_takeWhileD takeWhile_dropWhile_id)
  qed
  show ?thesis
    using assms
    by (auto simp: parse_route_def numeral_3_eq_3 print_route_def
        split: list.splits dest!: *)
qed

lemma parse_pairs_piece:
  "r \<in> set (parse_pairs ps) \<Longrightarrow>
     print_route r \<in> set ps \<and> CHR ''='' \<notin> set (path_prefix r) \<and> CHR ''='' \<notin> set (provider r)"
  by (induction ps) (auto dest: parse_route_Some split: option.splits)

text \<open>
  Where an operator can have pointed the traffic for a path: the default upstream of the configuration, or
  the last field of a piece \<open>prefix=provider=upstream\<close> of \<open>APPGATE_ROUTES\<close> whose prefix the path starts with.
\<close>

definition configured_upstream :: "gateway_config \<Rightarrow> env \<Rightarrow> string \<Rightarrow> string \<Rightarrow> bool" where
  "configured_upstream cfg env path url \<longleftrightarrow>
     url = default_url (upstream cfg) \<or>
     (\<exists>v pre prov. env ''APPGATE_ROUTES'' = Some v \<and> starts_with path pre \<and>
        CHR ''='' \<notin> set pre \<and> CHR ''='' \<notin> set prov \<and>
        pre @ ''='' @ prov @ ''='' @ url \<in> set (split_on CHR '','' v))"

lemma select_configured:
  assumes "router_new build cfg env = Inr rt" "select rt path = Some url"
  shows "configured_upstream cfg env path url"
proof (cases "select_loop (routes rt) path")
  case None
  with assms show ?thesis
    by (auto simp: router_new_def select_def configured_upstream_def Let_def split: sum.splits)
next
  case (Some r)
  then have r: "r \<in> set (routes rt)" "starts_with path (path_prefix r)"
    using path_scan.scan_SomeD by blast+
  have url: "url = route_upstream r" using assms(2) Some by (simp add: select_def)
  consider "r = default_route (default_url (upstream cfg))"
    | v where "env ''APPGATE_ROUTES'' = Some v" "r \<in> set (parse_routes v)"
    using assms(1) r(1)
    by (cases "env ''APPGATE_ROUTES''") (auto simp: router_new_def Let_def split: sum.splits if_splits)
  then show ?thesis
  proof cases
    case 1
    then show ?thesis by (simp add: configured_upstream_def url default_route_def)
  next
    case 2
    note parse_pairs_piece [OF 2(2) [unfolded parse_routes_def]]
    with 2 r(2) show ?thesis by (auto simp: configured_upstream_def url print_route_def)
  qed
qed

section \<open>Properties\<close>

text \<open>
  Claim C28. The route table survives a round trip through \<open>APPGATE_ROUTES\<close>: printing a nonempty
  list of routes as \<open>prefix=provider=upstream\<close> joined by commas and parsing it gives the same
  routes in the same order, for all routes without commas whose prefix and provider have no
  equals sign; the upstream may contain equals signs.
\<close>

theorem routes_round_trip:
  assumes "rs \<noteq> []" "list_all route_printable rs"
  shows "parse_routes (print_routes rs) = rs"
proof -
  have "list_all (\<lambda>p. CHR '','' \<notin> set p) (map print_route rs)"
    using assms(2) by (induction rs) (auto simp: print_route_def route_printable_def)
  then show ?thesis
    using assms by (simp add: parse_routes_def print_routes_def split_on_join parse_print_pairs)
qed

theorem routes_round_trip_witness:
  "parse_routes (print_routes
     [\<lparr>path_prefix = ''/v1/chat'', route_upstream = ''https://api.openai.com/v1?x=1'',
       provider = ''openai''\<rparr>,
      \<lparr>path_prefix = ''/v1/messages'', route_upstream = ''https://api.anthropic.com'',
       provider = ''anthropic''\<rparr>]) =
     [\<lparr>path_prefix = ''/v1/chat'', route_upstream = ''https://api.openai.com/v1?x=1'',
       provider = ''openai''\<rparr>,
      \<lparr>path_prefix = ''/v1/messages'', route_upstream = ''https://api.anthropic.com'',
       provider = ''anthropic''\<rparr>]"
  by (rule routes_round_trip) (simp_all add: route_printable_def)

text \<open>
  The parser invents nothing: every route it returns is, printed, one of the
  comma-separated pieces of the variable, in order and with no piece used twice; pieces that
  lack two equals signs are dropped.
\<close>

theorem parsed_routes_are_pieces:
  "subseq (map print_route (parse_routes s)) (split_on CHR '','' s) \<and>
   length (parse_routes s) = length (filter (\<lambda>p. parse_route p \<noteq> None) (split_on CHR '','' s))"
proof -
  have "subseq (map print_route (parse_pairs ps)) ps \<and>
        length (parse_pairs ps) = length (filter (\<lambda>p. parse_route p \<noteq> None) ps)" for ps
    by (induction ps) (auto dest!: parse_route_Some split: option.splits)
  then show ?thesis by (simp add: parse_routes_def)
qed

text \<open>
  Selection always answers: the upstream of the first route whose prefix starts the
  path, all routes before it not matching, or else the default upstream. The fallback that the
  proxy handler keeps for a missing answer is never used.
\<close>

theorem select_first_or_default:
  "(\<exists>before r after. routes rt = before @ r # after \<and> prefix (path_prefix r) path \<and>
      list_all (\<lambda>b. \<not> prefix (path_prefix b) path) before \<and> select rt path = Some (route_upstream r)) \<or>
   (list_all (\<lambda>r. \<not> prefix (path_prefix r) path) (routes rt) \<and>
      select rt path = Some (default_upstream rt))"
proof (cases "select_loop (routes rt) path")
  case None
  then show ?thesis
    using path_scan.scan_None [of "routes rt" path] by (simp add: select_def starts_with_def list_all_iff)
next
  case (Some r)
  from path_scan.scan_firstE [OF Some] obtain before after
    where "routes rt = before @ r # after" "starts_with path (path_prefix r)"
      "\<forall>b\<in>set before. \<not> starts_with path (path_prefix b)"
    by metis
  with Some show ?thesis by (auto simp: select_def starts_with_def list_all_iff)
qed

text \<open>
  A model is resolved to the first route of its provider, else to a nonempty default
  upstream; it is an error exactly when neither exists.
\<close>

theorem provider_url_error_iff:
  "(\<exists>e. get_provider_url rt model = Inl e) \<longleftrightarrow>
     (\<forall>r\<in>set (routes rt). provider r \<noteq> model_provider model) \<and> default_upstream rt = ''''"
proof (cases "provider_loop (routes rt) (model_provider model)")
  case None
  then show ?thesis
    using provider_scan.scan_None [of "routes rt" "model_provider model"]
    by (simp add: get_provider_url_def)
next
  case (Some r)
  then show ?thesis
    using provider_scan.scan_SomeD [OF Some] by (auto simp: get_provider_url_def)
qed

text \<open>
  Without \<open>APPGATE_ROUTES\<close> every path goes to the configured default URL; and when that
  URL is empty, a \<open>gpt-\<close> model resolves to the empty string as if it were an upstream while other
  models are refused with an error.
\<close>

theorem default_router_behaviour:
  assumes "router_new build cfg (Map.empty) = Inr rt"
  shows "select rt path = Some (default_url (upstream cfg)) \<and>
         (default_url (upstream cfg) = '''' \<longrightarrow>
            get_provider_url rt (''gpt-'' @ m) = Inr '''' \<and>
            get_provider_url rt (''claude-'' @ m) =
              Inl (''no upstream configured for model: '' @ ''claude-'' @ m))"
  using assms
  by (auto simp: router_new_def default_route_def select_def get_provider_url_def
      model_provider_def starts_with_def Let_def split: sum.splits)

theorem default_router_behaviour_witness:
  "let rt = \<lparr>client = (), default_upstream = default_url (upstream gateway_config_default),
             routes = [default_route (default_url (upstream gateway_config_default))]\<rparr>
   in select rt ''/v1/proxy'' = Some (default_url (upstream gateway_config_default)) \<and>
      (default_url (upstream gateway_config_default) = '''' \<longrightarrow>
         get_provider_url rt (''gpt-'' @ ''4'') = Inr '''' \<and>
         get_provider_url rt (''claude-'' @ ''4'') =
           Inl (''no upstream configured for model: '' @ ''claude-'' @ ''4''))"
  unfolding Let_def
  by (rule default_router_behaviour [where build = "\<lambda>_. Inr ()" and cfg = gateway_config_default])
    (simp add: router_new_def Let_def)

end
