(* ===== verification/Rate_Limit.thy ===== *)
theory Rate_Limit
  imports Config
begin

text \<open>
  The rate limiters \<open>rust-gateway/src/rate_limit.rs\<close> and \<open>gateway/src/rate_limit.rs\<close>. Redis and
  the \<open>governor\<close> limiter are parameters: Redis as one function per command over an abstract server
  state, \<open>governor\<close> as its \<open>check\<close>. \<open>redis_contract\<close> states the documented behaviour of the four
  sorted-set commands; the sliding-window bound is proved from it. A check against Redis is four
  separate commands, so the concurrent model runs it one command at a time.
\<close>

section \<open>Redis as a parameter\<close>

type_synonym ('r, 'a) redis_cmd = "'r \<Rightarrow> (string + 'a) \<times> 'r"

record 'r redis_ops =
  zremrangebyscore :: "string \<Rightarrow> int \<Rightarrow> int \<Rightarrow> ('r, unit) redis_cmd"
  zcard :: "string \<Rightarrow> ('r, int) redis_cmd"
  zadd :: "string \<Rightarrow> int \<Rightarrow> string \<Rightarrow> ('r, unit) redis_cmd"
  expire :: "string \<Rightarrow> int \<Rightarrow> ('r, unit) redis_cmd"

text \<open>
  \<open>u64 as f64\<close>: exact below \<open>2^53\<close>, otherwise rounded to 53 bits, ties to even; the value is an
  integer in either case.
\<close>

fun bit_length :: "nat \<Rightarrow> nat" where
  "bit_length n = (if n = 0 then 0 else Suc (bit_length (n div 2)))"

declare bit_length.simps [simp del]

definition u64_as_f64 :: "u64 \<Rightarrow> int" where
  "u64_as_f64 w =
     (let n = unat w in
      if n < 2 ^ 53 then int n
      else
        (let k = bit_length n - 53; q = n div 2 ^ k; r = n mod 2 ^ k;
             q' = (if 2 * r > 2 ^ k \<or> (2 * r = 2 ^ k \<and> odd q) then q + 1 else q)
         in int (q' * 2 ^ k)))"

definition as_i64 :: "u64 \<Rightarrow> int" where
  "as_i64 w = sint w"

definition limit_key :: "string \<Rightarrow> string" where
  "limit_key identity = ''ratelimit:'' @ identity"

definition limit_member :: "u64 \<Rightarrow> string \<Rightarrow> string" where
  "limit_member now uuid = show_nat (unat now) @ '':'' @ uuid"

definition window_start :: "u64 \<Rightarrow> u64 \<Rightarrow> u64" where
  "window_start now window = saturating_sub now (window * 1000)"

text \<open>The body of \<open>check_redis\<close>: each \<open>?\<close> returns the error of its command.\<close>

definition check_redis ::
  "'r redis_ops \<Rightarrow> string \<Rightarrow> u64 \<Rightarrow> u64 \<Rightarrow> string + nat \<Rightarrow> string \<Rightarrow> ('r, bool) redis_cmd" where
  "check_redis ops identity limit window clock uuid r0 =
     (let key = limit_key identity in
      case clock of
        Inl e \<Rightarrow> (Inl e, r0)
      | Inr millis \<Rightarrow>
          (let now = of_nat millis in
           case zremrangebyscore ops key 0 (as_i64 (window_start now window)) r0 of
             (Inl e, r1) \<Rightarrow> (Inl e, r1)
           | (Inr _, r1) \<Rightarrow>
               (case zcard ops key r1 of
                  (Inl e, r2) \<Rightarrow> (Inl e, r2)
                | (Inr count, r2) \<Rightarrow>
                    if count \<ge> as_i64 limit then (Inr False, r2)
                    else
                      (case zadd ops key (u64_as_f64 now) (limit_member now uuid) r2 of
                         (Inl e, r3) \<Rightarrow> (Inl e, r3)
                       | (Inr _, r3) \<Rightarrow>
                           (case expire ops key (as_i64 window) r3 of
                              (Inl e, r4) \<Rightarrow> (Inl e, r4)
                            | (Inr _, r4) \<Rightarrow> (Inr True, r4))))))"

section \<open>The service of rust-gateway\<close>

record quota =
  per_second :: u32
  burst :: u32

text \<open>\<open>'c\<close> is a Redis connection, \<open>'g\<close> a \<open>governor\<close> limiter.\<close>

record ('c, 'g) rate_limiter =
  rl_redis :: "'c option"
  rl_local :: "'g option"

definition rl_new_local :: "(quota \<Rightarrow> 'g) \<Rightarrow> ('c, 'g) rate_limiter" where
  "rl_new_local direct =
     \<lparr>rl_redis = None, rl_local = Some (direct \<lparr>per_second = 1000, burst = 1000\<rparr>)\<rparr>"

definition rl_new ::
  "(string \<Rightarrow> string + 'c) \<Rightarrow> (quota \<Rightarrow> 'g) \<Rightarrow> string option \<Rightarrow> string + ('c, 'g) rate_limiter" where
  "rl_new open_conn direct redis_url =
     (case redis_url of
        Some url \<Rightarrow>
          if url \<noteq> '''' then
            (case open_conn url of
               Inl e \<Rightarrow> Inl e
             | Inr conn \<Rightarrow> Inr \<lparr>rl_redis = Some conn, rl_local = None\<rparr>)
          else Inr (rl_new_local direct)
      | None \<Rightarrow> Inr (rl_new_local direct))"

definition check_local ::
  "('g \<Rightarrow> bool \<times> 'g) \<Rightarrow> string \<Rightarrow> u64 \<Rightarrow> u64 \<Rightarrow> ('c, 'g) rate_limiter \<Rightarrow>
     (string + bool) \<times> ('c, 'g) rate_limiter" where
  "check_local gcheck identity limit window s =
     (case rl_local s of
        Some g \<Rightarrow>
          (case gcheck g of
             (True, g') \<Rightarrow> (Inr True, s\<lparr>rl_local := Some g'\<rparr>)
           | (False, g') \<Rightarrow> (Inr False, s\<lparr>rl_local := Some g'\<rparr>))
      | None \<Rightarrow> (Inr True, s))"

definition rl_check ::
  "('c \<Rightarrow> 'r redis_ops) \<Rightarrow> ('g \<Rightarrow> bool \<times> 'g) \<Rightarrow> string \<Rightarrow> u64 \<Rightarrow> u64 \<Rightarrow> string + nat \<Rightarrow> string \<Rightarrow>
     ('c, 'g) rate_limiter \<Rightarrow> 'r \<Rightarrow> (string + bool) \<times> ('c, 'g) rate_limiter \<times> 'r" where
  "rl_check ops gcheck identity limit window clock uuid s r =
     (case rl_redis s of
        Some conn \<Rightarrow>
          (let (res, r') = check_redis (ops conn) identity limit window clock uuid r in (res, s, r'))
      | None \<Rightarrow>
          (let (res, s') = check_local gcheck identity limit window s in (res, s', r)))"

section \<open>The limiter of the gateway crate\<close>

record 'g distributed_limiter =
  dl_local :: "'g option"
  dl_enabled :: bool

definition dl_new :: "(quota \<Rightarrow> 'g) \<Rightarrow> string \<Rightarrow> string + 'g distributed_limiter" where
  "dl_new direct redis_url =
     Inr \<lparr>dl_local = Some (direct \<lparr>per_second = 1000, burst = 2000\<rparr>), dl_enabled = True\<rparr>"

definition dl_new_local :: "(quota \<Rightarrow> 'g) \<Rightarrow> 'g distributed_limiter" where
  "dl_new_local direct =
     \<lparr>dl_local = Some (direct \<lparr>per_second = 500, burst = 1000\<rparr>), dl_enabled = True\<rparr>"

definition dl_set_enabled :: "bool \<Rightarrow> 'g distributed_limiter \<Rightarrow> 'g distributed_limiter" where
  "dl_set_enabled b s = s\<lparr>dl_enabled := b\<rparr>"

definition dl_check ::
  "('g \<Rightarrow> bool \<times> 'g) \<Rightarrow> string \<Rightarrow> 'p option \<Rightarrow> 'g distributed_limiter \<Rightarrow>
     (string + bool) \<times> 'g distributed_limiter" where
  "dl_check gcheck key policy_limits s =
     (if \<not> dl_enabled s then (Inr True, s)
      else
        (case dl_local s of
           Some g \<Rightarrow>
             (case gcheck g of
                (True, g') \<Rightarrow> (Inr True, s\<lparr>dl_local := Some g'\<rparr>)
              | (False, g') \<Rightarrow> (Inr False, s\<lparr>dl_local := Some g'\<rparr>))
         | None \<Rightarrow> (Inr True, s)))"

section \<open>The sliding window, abstractly\<close>

text \<open>
  \<open>admit L W log ts\<close> is the list of admitted times when a log of admissions is purged of what is
  \<open>W\<close> old and a request is admitted while the log is shorter than \<open>L\<close>.
\<close>

fun admit :: "int \<Rightarrow> int \<Rightarrow> int list \<Rightarrow> int list \<Rightarrow> int list" where
  "admit L W log [] = []"
| "admit L W log (t # ts) =
     (let log' = filter (\<lambda>s. t - W < s) log in
      if int (length log') < L then t # admit L W (log' @ [t]) ts else admit L W log' ts)"

definition in_window :: "int \<Rightarrow> int \<Rightarrow> int list \<Rightarrow> nat" where
  "in_window W T xs = length (filter (\<lambda>s. T - W < s \<and> s \<le> T) xs)"

lemma in_window_append [simp]: "in_window W T (xs @ ys) = in_window W T xs + in_window W T ys"
  by (simp add: in_window_def)

lemma in_window_later: "\<forall>s\<in>set xs. T < s \<Longrightarrow> in_window W T xs = 0"
  by (auto simp: in_window_def filter_empty_conv)

lemma in_window_purge:
  "t \<le> T \<Longrightarrow> in_window W T (filter (\<lambda>s. t - W < s) xs) = in_window W T xs"
  by (auto simp: in_window_def intro!: arg_cong [of _ _ length] filter_cong)

lemma in_window_le_length: "in_window W T xs \<le> length xs"
  by (simp add: in_window_def)

lemma length_filter_mono: "length (filter P (filter Q xs)) \<le> length (filter P xs)"
  by (induction xs) auto

lemma admit_times: "set (admit L W log ts) \<subseteq> set ts"
  by (induction L W log ts rule: admit.induct) (auto simp: Let_def)

lemma admit_bound:
  assumes "sorted ts" "\<forall>T. int (in_window W T log) \<le> L" "0 \<le> L"
  shows "int (in_window W T (log @ admit L W log ts)) \<le> L"
  using assms
proof (induction L W log ts rule: admit.induct)
  case (1 L W log)
  then show ?case by simp
next
  case (2 L W log t ts)
  let ?log = "filter (\<lambda>s. t - W < s) log"
  have later: "set (admit L W l (t # ts)) \<subseteq> {t..}" for l
    using admit_times [of L W l "t # ts"] "2.prems"(1) by auto
  show ?case
  proof (cases "T < t")
    case True
    then have "in_window W T (admit L W log (t # ts)) = 0"
      using later by (intro in_window_later) force
    with "2.prems"(2) show ?thesis by simp
  next
    case False
    then have purge: "in_window W T log = in_window W T ?log" by (simp add: in_window_purge)
    show ?thesis
    proof (cases "int (length ?log) < L")
      case True
      then have "int (length (?log @ [t])) \<le> L" by simp
      then have "\<forall>T. int (in_window W T (?log @ [t])) \<le> L"
        using in_window_le_length [of W _ "?log @ [t]"] by (meson of_nat_mono order.trans)
      with "2.IH"(1) [OF refl True] "2.prems" purge True show ?thesis
        by (simp add: Let_def in_window_def)
    next
      case len: False
      have "in_window W T' ?log \<le> in_window W T' log" for T'
        unfolding in_window_def by (rule length_filter_mono)
      with "2.prems"(2) have "\<forall>T. int (in_window W T ?log) \<le> L"
        by (meson of_nat_mono order.trans)
      with "2.IH"(2) [OF refl len] "2.prems" purge len show ?thesis by (simp add: Let_def)
    qed
  qed
qed

section \<open>Redis refines the sliding window\<close>

text \<open>
  \<open>zs r k\<close> is the sorted set stored at \<open>k\<close> in server state \<open>r\<close>: a map from members to scores. \<open>EXPIRE\<close> deletes
  the key for a number of seconds that is not positive and is an error when the expiry in
  milliseconds overflows 64 bits, so it is relied on only in between, with a server clock below
  \<open>2^53\<close> ms. That a key set to expire later disappears between two commands is left out: it has then
  seen no insertion for \<open>window\<close> seconds, so that the next check would purge all of it.
\<close>

definition expiry_fits :: "int \<Rightarrow> bool" where
  "expiry_fits secs \<longleftrightarrow> 0 < secs \<and> secs * 1000 + 2 ^ 53 < 2 ^ 63"

definition redis_contract :: "'r redis_ops \<Rightarrow> ('r \<Rightarrow> string \<Rightarrow> string \<rightharpoonup> int) \<Rightarrow> bool" where
  "redis_contract ops zs \<longleftrightarrow>
     (\<forall>r k lo hi. \<exists>r'. zremrangebyscore ops k lo hi r = (Inr (), r') \<and>
        zs r' = (zs r)(k := (\<lambda>m. case zs r k m of None \<Rightarrow> None
                               | Some s \<Rightarrow> if lo \<le> s \<and> s \<le> hi then None else Some s))) \<and>
     (\<forall>r k. zcard ops k r = (Inr (int (card (dom (zs r k)))), r)) \<and>
     (\<forall>r k sc m. \<exists>r'. zadd ops k sc m r = (Inr (), r') \<and> zs r' = (zs r)(k := (zs r k)(m \<mapsto> sc))) \<and>
     (\<forall>r k secs. expiry_fits secs \<longrightarrow> (\<exists>r'. expire ops k secs r = (Inr (), r') \<and> zs r' = zs r))"

definition purged :: "int \<Rightarrow> (string \<rightharpoonup> int) \<Rightarrow> (string \<rightharpoonup> int)" where
  "purged hi z = (\<lambda>m. case z m of None \<Rightarrow> None | Some s \<Rightarrow> if 0 \<le> s \<and> s \<le> hi then None else Some s)"

text \<open>A sorted set represents a log: the same number of entries above every score.\<close>

definition represents :: "(string \<rightharpoonup> int) \<Rightarrow> int list \<Rightarrow> bool" where
  "represents z log \<longleftrightarrow> finite (dom z) \<and> (\<forall>m s. z m = Some s \<longrightarrow> 0 < s) \<and> (\<forall>s\<in>set log. 0 < s) \<and>
     (\<forall>x. card {m. \<exists>s. z m = Some s \<and> x < s} = length (filter (\<lambda>s. x < s) log))"

lemma represents_length:
  assumes "represents z log"
  shows "card (dom z) = length log"
proof -
  have "card {m. \<exists>s. z m = Some s \<and> 0 < s} = length (filter (\<lambda>s. 0 < s) log)"
    using assms by (simp only: represents_def)
  moreover have "{m. \<exists>s. z m = Some s \<and> 0 < s} = dom z"
    using assms by (auto simp: represents_def)
  moreover have "filter (\<lambda>s. 0 < s) log = log"
    using assms by (simp add: represents_def)
  ultimately show ?thesis by simp
qed

lemma purged_Some: "purged hi z m = Some s \<longleftrightarrow> z m = Some s \<and> \<not> (0 \<le> s \<and> s \<le> hi)"
  by (auto simp: purged_def split: option.splits)

lemma represents_purged:
  assumes "represents z log" "0 \<le> hi"
  shows "represents (purged hi z) (filter (\<lambda>s. hi < s) log)"
proof -
  have pos: "z m = Some s \<Longrightarrow> 0 < s" for m s using assms(1) by (auto simp: represents_def)
  have set_eq: "{m. \<exists>s. purged hi z m = Some s \<and> x < s} = {m. \<exists>s. z m = Some s \<and> max x hi < s}" for x
    using pos by (fastforce simp: purged_Some)
  have filter_eq: "filter (\<lambda>s. x < s) (filter (\<lambda>s. hi < s) log) = filter (\<lambda>s. max x hi < s) log" for x
    by (simp add: conj_commute)
  have "card {m. \<exists>s. purged hi z m = Some s \<and> x < s} =
          length (filter (\<lambda>s. x < s) (filter (\<lambda>s. hi < s) log))" for x
    unfolding set_eq filter_eq using assms(1) by (simp only: represents_def)
  moreover have "finite (dom (purged hi z))"
    by (rule finite_subset [of _ "dom z"]) (use assms(1) in \<open>auto simp: represents_def purged_Some\<close>)
  moreover have "\<forall>m s. purged hi z m = Some s \<longrightarrow> 0 < s"
    using pos by (auto simp: purged_Some)
  ultimately show ?thesis using assms(1) by (simp add: represents_def)
qed

lemma represents_add:
  assumes "represents z log" "m \<notin> dom z" "0 < t"
  shows "represents (z(m \<mapsto> t)) (log @ [t])"
proof -
  have fin: "finite (dom z)" using assms(1) by (simp add: represents_def)
  have "{k. \<exists>s. (z(m \<mapsto> t)) k = Some s \<and> x < s} =
          (if x < t then insert m else id) {k. \<exists>s. z k = Some s \<and> x < s}" for x
    using assms(2) by auto
  moreover have "finite {k. \<exists>s. z k = Some s \<and> x < s}" for x
    by (rule finite_subset [OF _ fin]) auto
  moreover have "m \<notin> {k. \<exists>s. z k = Some s \<and> x < s}" for x using assms(2) by auto
  ultimately have "card {k. \<exists>s. (z(m \<mapsto> t)) k = Some s \<and> x < s} =
                     length (filter (\<lambda>s. x < s) (log @ [t]))" for x
    using assms(1) by (simp add: represents_def)
  then show ?thesis using assms fin by (simp add: represents_def)
qed

lemma as_i64_small:
  assumes "unat w < 2 ^ 63"
  shows "as_i64 w = int (unat w)"
proof -
  have nn: "0 \<le> uint w" by simp
  moreover have "uint w < 2 ^ 63"
    using assms nn by (simp add: unat_eq_nat_uint nat_less_iff del: nat_uint_eq)
  moreover have "- (2 ^ 63) \<le> uint w" by (rule order.trans [OF _ nn]) simp
  ultimately have "signed_take_bit 63 (uint w) = uint w"
    by (intro signed_take_bit_int_eq_self)
  then show ?thesis by (simp add: as_i64_def sint_uint)
qed

lemma u64_as_f64_small: "unat w < 2 ^ 53 \<Longrightarrow> u64_as_f64 w = int (unat w)"
  by (simp add: u64_as_f64_def Let_def)

lemma window_start_unat:
  assumes "unat window * 1000 < 2 ^ 63"
  shows "unat (window_start now window) = unat now - unat window * 1000"
proof -
  have "unat (window * 1000) = unat window * 1000"
    using assms by (simp add: unat_word_ariths)
  then show ?thesis by (simp add: window_start_def)
qed

lemma redis_contractD:
  assumes "redis_contract ops zs"
  shows "\<exists>r'. zremrangebyscore ops k 0 hi r = (Inr (), r') \<and> zs r' = (zs r)(k := purged hi (zs r k))"
    and "zcard ops k r = (Inr (int (card (dom (zs r k)))), r)"
    and "\<exists>r'. zadd ops k sc m r = (Inr (), r') \<and> zs r' = (zs r)(k := (zs r k)(m \<mapsto> sc))"
    and "expiry_fits secs \<Longrightarrow> \<exists>r'. expire ops k secs r = (Inr (), r') \<and> zs r' = zs r"
  using assms by (auto simp: redis_contract_def purged_def)

lemma expiry_fits_window:
  assumes "0 < unat window" "unat window * 1000 + 2 ^ 53 < 2 ^ 63"
  shows "expiry_fits (as_i64 window)"
proof -
  have "as_i64 window = int (unat window)" using assms(2) by (intro as_i64_small) linarith
  moreover have "int (unat window * 1000 + 2 ^ 53) < int (2 ^ 63)" using assms(2) by (simp only: of_nat_less_iff)
  ultimately show ?thesis using assms(1) unfolding expiry_fits_def by (metis of_nat_0_less_iff of_nat_add of_nat_mult of_nat_numeral of_nat_power)
qed

text \<open>The parameters of a deployment: a positive window and values that fit their casts.\<close>

definition sane_window :: "u64 \<Rightarrow> u64 \<Rightarrow> bool" where
  "sane_window limit window \<longleftrightarrow>
     unat limit < 2 ^ 63 \<and> 0 < unat window \<and> unat window * 1000 + 2 ^ 53 < 2 ^ 63"

lemma represents_window:
  assumes "sane_window limit window" "millis < 2 ^ 53" "represents m log"
  shows "represents (purged (as_i64 (window_start (of_nat millis) window)) m)
           (filter (\<lambda>s. int millis - int (unat window * 1000) < s) log)"
proof -
  let ?hi = "as_i64 (window_start (of_nat millis) window)"
  have un: "unat (of_nat millis :: u64) = millis" using assms(2) by (intro unat_of_nat_less) simp
  have ws: "unat (window_start (of_nat millis) window) = millis - unat window * 1000"
    using assms(1) un by (simp add: sane_window_def window_start_unat)
  have hi: "?hi = int (millis - unat window * 1000)"
    using ws assms(2) by (subst as_i64_small) simp_all
  have cut: "int (millis - n) < s \<longleftrightarrow> int millis - int n < s" if "0 < s" for n s using that by linarith
  have "\<forall>s\<in>set log. 0 < s" using assms(3) by (simp add: represents_def)
  then have "filter (\<lambda>s. ?hi < s) log = filter (\<lambda>s. int millis - int (unat window * 1000) < s) log"
    unfolding hi using cut by (intro filter_cong) blast+
  then show ?thesis using represents_purged [OF assms(3), of ?hi] hi by simp
qed

lemma check_redis_step:
  assumes C: "redis_contract ops zs" and W: "sane_window limit window"
    and now: "0 < millis" "millis < 2 ^ 53"
    and R: "represents (zs r (limit_key i)) log"
    and fresh: "limit_member (of_nat millis) uuid \<notin> dom (zs r (limit_key i))"
    and log': "log' = filter (\<lambda>s. int millis - int (unat window * 1000) < s) log"
    and b: "b \<longleftrightarrow> int (length log') < int (unat limit)"
  shows "\<exists>r'. check_redis ops i limit window (Inr millis) uuid r = (Inr b, r') \<and>
           represents (zs r' (limit_key i)) (if b then log' @ [int millis] else log') \<and>
           dom (zs r' (limit_key i)) \<subseteq>
             insert (limit_member (of_nat millis) uuid) (dom (zs r (limit_key i)))"
proof -
  let ?k = "limit_key i" and ?now = "of_nat millis :: u64"
  let ?m = "limit_member ?now uuid" and ?hi = "as_i64 (window_start ?now window)"
  have un: "unat ?now = millis" using now(2) by (intro unat_of_nat_less) simp
  have purge: "represents (purged ?hi (zs r ?k)) log'"
    unfolding log' by (rule represents_window [OF W now(2) R])
  obtain r1 where r1: "zremrangebyscore ops ?k 0 ?hi r = (Inr (), r1)"
    "zs r1 = (zs r)(?k := purged ?hi (zs r ?k))"
    using redis_contractD(1) [OF C] by blast
  have card: "zcard ops ?k r1 = (Inr (int (length log')), r1)"
    using redis_contractD(2) [OF C, of ?k r1] r1(2) represents_length [OF purge] by simp
  have lim: "as_i64 limit = int (unat limit)"
    using W by (intro as_i64_small) (simp add: sane_window_def)
  have sub: "dom (zs r1 ?k) \<subseteq> dom (zs r ?k)"
    by (auto simp: r1(2) purged_Some)
  show ?thesis
  proof (cases b)
    case False
    then have "check_redis ops i limit window (Inr millis) uuid r = (Inr False, r1)"
      by (simp add: check_redis_def r1(1) card lim b)
    with False purge r1(2) sub show ?thesis by auto
  next
    case True
    obtain r2 where r2: "zadd ops ?k (u64_as_f64 ?now) ?m r1 = (Inr (), r2)"
      "zs r2 = (zs r1)(?k := (zs r1 ?k)(?m \<mapsto> u64_as_f64 ?now))"
      using redis_contractD(3) [OF C] by blast
    have "expiry_fits (as_i64 window)" using W by (intro expiry_fits_window) (simp_all add: sane_window_def)
    then obtain r3 where r3: "expire ops ?k (as_i64 window) r2 = (Inr (), r3)" "zs r3 = zs r2"
      using redis_contractD(4) [OF C] by blast
    have run: "check_redis ops i limit window (Inr millis) uuid r = (Inr True, r3)"
      using True by (simp add: check_redis_def r1(1) card lim b r2(1) r3(1))
    have sc: "u64_as_f64 ?now = int millis" using un now(2) by (simp add: u64_as_f64_small)
    have "?m \<notin> dom (zs r1 ?k)" using fresh sub by blast
    then have "represents ((zs r1 ?k)(?m \<mapsto> int millis)) (log' @ [int millis])"
      using purge r1(2) now(1) by (intro represents_add) simp_all
    with run True r3(2) r2(2) sc sub show ?thesis by auto
  qed
qed

lemma limit_member_inj:
  "limit_member now uuid = limit_member now' uuid' \<longleftrightarrow> now = now' \<and> uuid = uuid'"
  by (simp add: limit_member_def append_sep_inj show_nat_inj word_unat_eq_iff)

lemma distinct_members:
  assumes "distinct cs" "\<forall>(t, u)\<in>set cs. 0 < t \<and> t < 2 ^ 53"
  shows "distinct (map (\<lambda>(t, u). limit_member (of_nat t) u) cs)"
proof -
  have "inj_on (\<lambda>(t, u). limit_member (of_nat t) u) (set cs)"
  proof (rule inj_onI, clarify)
    fix t u t' u'
    assume "(t, u) \<in> set cs" "(t', u') \<in> set cs" "limit_member (of_nat t) u = limit_member (of_nat t') u'"
    moreover from this assms(2) have "t < 2 ^ 53" "t' < 2 ^ 53" by auto
    then have "unat (of_nat t :: u64) = t" "unat (of_nat t' :: u64) = t'"
      by (auto intro!: unat_of_nat_less)
    ultimately show "t = t' \<and> u = u'" by (metis limit_member_inj)
  qed
  then show ?thesis using assms(1) by (simp add: distinct_map)
qed

text \<open>Checks made one after the other: each call is its clock reading and its identifier.\<close>

fun redis_run ::
  "'r redis_ops \<Rightarrow> string \<Rightarrow> u64 \<Rightarrow> u64 \<Rightarrow> (nat \<times> string) list \<Rightarrow> 'r \<Rightarrow> (string + bool) list" where
  "redis_run ops i limit window [] r = []"
| "redis_run ops i limit window ((millis, uuid) # cs) r =
     (let (res, r') = check_redis ops i limit window (Inr millis) uuid r
      in res # redis_run ops i limit window cs r')"

definition admitted_times :: "(nat \<times> string) list \<Rightarrow> (string + bool) list \<Rightarrow> int list" where
  "admitted_times cs rs = map (\<lambda>((t, _), _). int t) (filter (\<lambda>(_, res). res = Inr True) (zip cs rs))"

lemma redis_run_admit:
  assumes C: "redis_contract ops zs" and W: "sane_window limit window"
    and "\<forall>(t, u)\<in>set cs. 0 < t \<and> t < 2 ^ 53"
    and "distinct (map (\<lambda>(t, u). limit_member (of_nat t) u) cs)"
    and "represents (zs r (limit_key i)) log"
    and "(\<lambda>(t, u). limit_member (of_nat t) u) ` set cs \<inter> dom (zs r (limit_key i)) = {}"
  shows "admitted_times cs (redis_run ops i limit window cs r) =
           admit (int (unat limit)) (int (unat window * 1000)) log (map (\<lambda>(t, _). int t) cs) \<and>
         list_all (\<lambda>res. \<exists>b. res = Inr b) (redis_run ops i limit window cs r)"
  using assms(3-6)
proof (induction cs arbitrary: r log)
  case Nil
  then show ?case by (simp add: admitted_times_def)
next
  case (Cons c cs)
  obtain t u where c: "c = (t, u)" by (cases c)
  let ?log = "filter (\<lambda>s. int t - int (unat window * 1000) < s) log"
  let ?b = "int (length ?log) < int (unat limit)"
  have pre: "0 < t" "t < 2 ^ 53" "limit_member (of_nat t) u \<notin> dom (zs r (limit_key i))"
    using Cons.prems(1,4) c by auto
  obtain r' where r': "check_redis ops i limit window (Inr t) u r = (Inr ?b, r')"
    "represents (zs r' (limit_key i)) (if ?b then ?log @ [int t] else ?log)"
    "dom (zs r' (limit_key i)) \<subseteq> insert (limit_member (of_nat t) u) (dom (zs r (limit_key i)))"
    using check_redis_step [OF C W, of t r i log u ?log ?b] pre Cons.prems(3) by blast
  have "limit_member (of_nat t) u \<notin> (\<lambda>(t, u). limit_member (of_nat t) u) ` set cs"
    using Cons.prems(2) c by simp
  moreover have "(\<lambda>(t, u). limit_member (of_nat t) u) ` set cs \<inter> dom (zs r (limit_key i)) = {}"
    using Cons.prems(4) by (simp only: list.set image_insert) blast
  ultimately have "(\<lambda>(t, u). limit_member (of_nat t) u) ` set cs \<inter> dom (zs r' (limit_key i)) = {}"
    using r'(3) by (rule disjoint_insert_subset)
  with Cons.IH [OF _ _ r'(2)] Cons.prems(1,2) c
  have IH: "admitted_times cs (redis_run ops i limit window cs r') =
      admit (int (unat limit)) (int (unat window * 1000))
        (if ?b then ?log @ [int t] else ?log) (map (\<lambda>(t, _). int t) cs) \<and>
      list_all (\<lambda>res. \<exists>b. res = Inr b) (redis_run ops i limit window cs r')"
    by simp
  have "admitted_times (c # cs) (redis_run ops i limit window (c # cs) r) =
      (if ?b then [int t] else []) @ admitted_times cs (redis_run ops i limit window cs r')"
    by (simp add: c r'(1) admitted_times_def)
  with IH show ?case by (simp add: c r'(1) Let_def)
qed

section \<open>Concurrent checks\<close>

text \<open>
  A check is four commands, and the task is suspended at each \<open>await\<close>: \<open>rl_step\<close> runs one command
  of \<open>check_redis\<close>, so that other checks may run in between.
\<close>

datatype rl_pc = Purge | Count | Add | Expire | Done "string + bool"

record rl_task =
  t_identity :: string
  t_limit :: u64
  t_window :: u64
  t_now :: u64
  t_uuid :: string

fun rl_step :: "'r redis_ops \<Rightarrow> rl_task \<Rightarrow> rl_pc \<times> 'r \<Rightarrow> rl_pc \<times> 'r" where
  "rl_step ops t (Purge, r) =
     (case zremrangebyscore ops (limit_key (t_identity t)) 0
             (as_i64 (window_start (t_now t) (t_window t))) r of
        (Inl e, r') \<Rightarrow> (Done (Inl e), r')
      | (Inr _, r') \<Rightarrow> (Count, r'))"
| "rl_step ops t (Count, r) =
     (case zcard ops (limit_key (t_identity t)) r of
        (Inl e, r') \<Rightarrow> (Done (Inl e), r')
      | (Inr count, r') \<Rightarrow>
          if count \<ge> as_i64 (t_limit t) then (Done (Inr False), r') else (Add, r'))"
| "rl_step ops t (Add, r) =
     (case zadd ops (limit_key (t_identity t)) (u64_as_f64 (t_now t))
             (limit_member (t_now t) (t_uuid t)) r of
        (Inl e, r') \<Rightarrow> (Done (Inl e), r')
      | (Inr _, r') \<Rightarrow> (Expire, r'))"
| "rl_step ops t (Expire, r) =
     (case expire ops (limit_key (t_identity t)) (as_i64 (t_window t)) r of
        (Inl e, r') \<Rightarrow> (Done (Inl e), r')
      | (Inr _, r') \<Rightarrow> (Done (Inr True), r'))"
| "rl_step ops t (Done res, r) = (Done res, r)"

text \<open>Two tasks and a schedule: \<open>True\<close> lets the first make a step, \<open>False\<close> the second.\<close>

fun interleave ::
  "'r redis_ops \<Rightarrow> rl_task \<Rightarrow> rl_task \<Rightarrow> bool list \<Rightarrow> rl_pc \<times> rl_pc \<times> 'r \<Rightarrow> rl_pc \<times> rl_pc \<times> 'r" where
  "interleave ops t1 t2 [] s = s"
| "interleave ops t1 t2 (b # bs) (p1, p2, r) =
     (if b then (let (p, r') = rl_step ops t1 (p1, r) in interleave ops t1 t2 bs (p, p2, r'))
      else (let (p, r') = rl_step ops t2 (p2, r) in interleave ops t1 t2 bs (p1, p, r')))"

section \<open>Properties\<close>

text \<open>A server state that is the map itself, for the instances below.\<close>

definition map_redis :: "(string \<Rightarrow> string \<rightharpoonup> int) redis_ops" where
  "map_redis =
     \<lparr>zremrangebyscore = (\<lambda>k lo hi r. (Inr (), r(k := (\<lambda>m. case r k m of None \<Rightarrow> None
          | Some s \<Rightarrow> if lo \<le> s \<and> s \<le> hi then None else Some s)))),
      zcard = (\<lambda>k r. (Inr (int (card (dom (r k)))), r)),
      zadd = (\<lambda>k sc m r. (Inr (), r(k := (r k)(m \<mapsto> sc)))),
      expire = (\<lambda>k secs r. (Inr (), r))\<rparr>"

lemma map_redis_contract: "redis_contract map_redis (\<lambda>r. r)"
  by (simp add: redis_contract_def map_redis_def)

text \<open>
  Claim C3. Sliding-window soundness: against a Redis server that behaves as documented, checks
  for one identity made one after the other with a non-decreasing clock, no two with the same
  clock reading and identifier, never fail, and never admit more than \<open>limit\<close> requests in any half-open window of \<open>window\<close>
  seconds, wherever that window is placed.
\<close>

theorem sliding_window_bound:
  assumes "redis_contract ops zs" "sane_window limit window"
    and "zs r (limit_key i) = Map.empty"
    and "\<forall>(t, u)\<in>set cs. 0 < t \<and> t < 2 ^ 53" "sorted (map fst cs)"
    and "distinct cs"
  shows "list_all (\<lambda>res. \<exists>b. res = Inr b) (redis_run ops i limit window cs r) \<and>
         in_window (int (unat window * 1000)) T
           (admitted_times cs (redis_run ops i limit window cs r)) \<le> unat limit"
proof -
  let ?W = "int (unat window * 1000)" and ?L = "int (unat limit)"
  let ?ts = "map (\<lambda>(t, _). int t) cs"
  have "represents (zs r (limit_key i)) []" using assms(3) by (simp add: represents_def)
  from redis_run_admit [OF assms(1,2,4) distinct_members [OF assms(6,4)] this] assms(3)
  have run: "admitted_times cs (redis_run ops i limit window cs r) = admit ?L ?W [] ?ts"
    and ok: "list_all (\<lambda>res. \<exists>b. res = Inr b) (redis_run ops i limit window cs r)"
    by simp_all
  have ts: "?ts = map int (map fst cs)" by auto
  have "sorted (map int (map fst cs))"
    using assms(5) by (simp only: sorted_map of_nat_le_iff)
  then have "sorted ?ts" by (simp only: ts)
  then have "int (in_window ?W T ([] @ admit ?L ?W [] ?ts)) \<le> ?L"
    by (intro admit_bound) (simp_all add: in_window_def)
  then have "int (in_window ?W T (admit ?L ?W [] ?ts)) \<le> ?L" by (simp only: append_Nil)
  then have "in_window ?W T (admit ?L ?W [] ?ts) \<le> unat limit" by (simp only: of_nat_le_iff)
  with run ok show ?thesis by (simp only: simp_thms)
qed

theorem sliding_window_bound_witness:
  "list_all (\<lambda>res. \<exists>b. res = Inr b)
     (redis_run map_redis ''alice'' 2 60 [(1000, ''a''), (1500, ''b''), (2000, ''c'')] (\<lambda>_. Map.empty)) \<and>
   in_window (int (unat (60 :: u64) * 1000)) 2000
     (admitted_times [(1000, ''a''), (1500, ''b''), (2000, ''c'')]
       (redis_run map_redis ''alice'' 2 60 [(1000, ''a''), (1500, ''b''), (2000, ''c'')] (\<lambda>_. Map.empty)))
     \<le> unat (2 :: u64)"
  by (rule sliding_window_bound [OF map_redis_contract]) (simp_all add: sane_window_def)

text \<open>
  The check and the insertion are separate commands, so concurrent checks exceed the
  limit: on an empty window with a limit of one, two checks for the same identity whose counts
  both come before either insertion are both admitted.
\<close>

theorem concurrent_checks_exceed_limit:
  assumes "redis_contract ops zs" "zs r (limit_key i) = Map.empty"
    and "0 < unat window" "unat window * 1000 + 2 ^ 53 < 2 ^ 63"
  shows "\<exists>r'. interleave ops
      \<lparr>t_identity = i, t_limit = 1, t_window = window, t_now = now, t_uuid = u1\<rparr>
      \<lparr>t_identity = i, t_limit = 1, t_window = window, t_now = now, t_uuid = u2\<rparr>
      [True, True, False, False, True, True, False, False] (Purge, Purge, r) =
      (Done (Inr True), Done (Inr True), r')"
proof -
  let ?k = "limit_key i" and ?hi = "as_i64 (window_start now window)"
  have exp: "expiry_fits (as_i64 window)"
    using assms(3,4) by (rule expiry_fits_window)
  have purge: "purged ?hi Map.empty = Map.empty" by (simp add: purged_def fun_eq_iff)
  obtain r1 where r1: "zremrangebyscore ops ?k 0 ?hi r = (Inr (), r1)" "zs r1 ?k = Map.empty"
    using redis_contractD(1) [OF assms(1), of ?k ?hi r] assms(2) purge by auto
  obtain r2 where r2: "zremrangebyscore ops ?k 0 ?hi r1 = (Inr (), r2)" "zs r2 ?k = Map.empty"
    using redis_contractD(1) [OF assms(1), of ?k ?hi r1] r1(2) purge by auto
  have c: "zcard ops ?k r1 = (Inr 0, r1)" "zcard ops ?k r2 = (Inr 0, r2)"
    using redis_contractD(2) [OF assms(1), of ?k] r1(2) r2(2) by simp_all
  obtain r3 where r3: "zadd ops ?k (u64_as_f64 now) (limit_member now u1) r2 = (Inr (), r3)"
    using redis_contractD(3) [OF assms(1)] by blast
  obtain r4 where r4: "expire ops ?k (as_i64 window) r3 = (Inr (), r4)"
    using redis_contractD(4) [OF assms(1) exp] by blast
  obtain r5 where r5: "zadd ops ?k (u64_as_f64 now) (limit_member now u2) r4 = (Inr (), r5)"
    using redis_contractD(3) [OF assms(1)] by blast
  obtain r6 where r6: "expire ops ?k (as_i64 window) r5 = (Inr (), r6)"
    using redis_contractD(4) [OF assms(1) exp] by blast
  have "as_i64 1 = 1" by (subst as_i64_small) simp_all
  then show ?thesis by (simp add: r1(1) r2(1) c r3 r4 r5 r6)
qed

theorem concurrent_checks_exceed_limit_witness:
  "\<exists>r'. interleave map_redis
      \<lparr>t_identity = ''alice'', t_limit = 1, t_window = 60, t_now = 5000, t_uuid = ''a''\<rparr>
      \<lparr>t_identity = ''alice'', t_limit = 1, t_window = 60, t_now = 5000, t_uuid = ''b''\<rparr>
      [True, True, False, False, True, True, False, False] (Purge, Purge, \<lambda>_. Map.empty) =
      (Done (Inr True), Done (Inr True), r')"
  by (rule concurrent_checks_exceed_limit [OF map_redis_contract]) simp_all

text \<open>
  The command-by-command model is the function: once the clock is read, four undisturbed steps of a
  task are \<open>check_redis\<close>, with the same answer and the same server, failing commands and refusals
  included.
\<close>

theorem rl_steps_check_redis:
  "(rl_step ops \<lparr>t_identity = i, t_limit = limit, t_window = window, t_now = of_nat millis, t_uuid = uuid\<rparr> ^^ 4)
     (Purge, r) =
   (let (res, r') = check_redis ops i limit window (Inr millis) uuid r in (Done res, r'))"
  by (auto simp: numeral_eq_Suc check_redis_def Let_def split: prod.splits sum.splits)

lemma div_eq_one: "m \<le> (n :: int) \<Longrightarrow> n < 2 * m \<Longrightarrow> n div m = 1"
  by (intro int_div_pos_eq [where r = "n - m"]) simp_all

text \<open>
  The limit is cast to a signed integer: a limit of \<open>2^63\<close> or more becomes negative and
  refuses every request instead of admitting practically all.
\<close>

theorem huge_limit_refuses_all:
  assumes "redis_contract ops zs" "2 ^ 63 \<le> unat limit"
  shows "fst (check_redis ops i limit window (Inr millis) uuid r) = Inr False"
proof -
  let ?k = "limit_key i" and ?hi = "as_i64 (window_start (of_nat millis) window)"
  have "uint limit \<ge> 2 ^ 63" using assms(2) by (simp add: unat_eq_nat_uint le_nat_iff del: nat_uint_eq)
  moreover have "uint limit < 2 * 2 ^ 63" using uint_lt2p [of limit] by simp
  ultimately have "uint limit div 2 ^ 63 = 1" by (rule div_eq_one)
  then have "bit (uint limit) 63" by (simp add: bit_iff_odd)
  then have neg: "as_i64 limit < 0" by (simp add: as_i64_def sint_uint signed_take_bit_negative_iff)
  obtain r1 where "zremrangebyscore ops ?k 0 ?hi r = (Inr (), r1)"
    using redis_contractD(1) [OF assms(1)] by blast
  then show ?thesis
    using neg redis_contractD(2) [OF assms(1), of ?k r1] by (simp add: check_redis_def Let_def)
qed

theorem huge_limit_refuses_all_witness:
  "fst (check_redis map_redis ''alice'' 18446744073709551615 60 (Inr 5000) ''a'' (\<lambda>_. Map.empty)) = Inr False"
  by (rule huge_limit_refuses_all [OF map_redis_contract]) simp

text \<open>
  A sequence of checks through \<open>check\<close>; each request carries its identity, limit and window.
\<close>

fun rl_run ::
  "('c \<Rightarrow> 'r redis_ops) \<Rightarrow> ('g \<Rightarrow> bool \<times> 'g) \<Rightarrow> (string \<times> u64 \<times> u64 \<times> (string + nat) \<times> string) list \<Rightarrow>
     ('c, 'g) rate_limiter \<Rightarrow> 'r \<Rightarrow> (string + bool) list \<times> 'r" where
  "rl_run ops gcheck [] s r = ([], r)"
| "rl_run ops gcheck ((i, limit, window, clock, uuid) # reqs) s r =
     (let (res, s', r') = rl_check ops gcheck i limit window clock uuid s r;
          (rs, r'') = rl_run ops gcheck reqs s' r'
      in (res # rs, r''))"

fun governor_run :: "('g \<Rightarrow> bool \<times> 'g) \<Rightarrow> nat \<Rightarrow> 'g \<Rightarrow> bool list" where
  "governor_run gcheck 0 g = []"
| "governor_run gcheck (Suc n) g = fst (gcheck g) # governor_run gcheck n (snd (gcheck g))"

lemma rl_run_local:
  "rl_run ops gcheck reqs \<lparr>rl_redis = None, rl_local = Some g\<rparr> r =
     (map Inr (governor_run gcheck (length reqs) g), r)"
proof (induction reqs arbitrary: g)
  case (Cons q reqs)
  then show ?case
    by (cases q; cases "gcheck g") (auto simp: rl_check_def check_local_def split: bool.split)
qed simp

text \<open>
  Without a Redis URL the service keeps one limiter for all callers: the answers to a
  sequence of checks are those of a single limiter of 1000 per second over the number of checks,
  whatever identities, limits and windows they carry; no check fails and the Redis server is not
  touched.
\<close>

theorem local_limits_are_global:
  "case rl_new open_conn direct None of
     Inl e \<Rightarrow> False
   | Inr s \<Rightarrow> rl_run ops gcheck reqs s r =
       (map Inr (governor_run gcheck (length reqs) (direct \<lparr>per_second = 1000, burst = 1000\<rparr>)), r)"
  by (simp add: rl_new_def rl_new_local_def rl_run_local)

end
