(* ===== verification/Policy.thy ===== *)
theory Policy
  imports Http
begin

text \<open>
  The policy engines: \<open>gateway/src/policy.rs\<close> (structures, evaluation, the refresh loop) and the
  placeholder of \<open>rust-gateway/src/policy.rs\<close>. The HTTP client and the JSON decoder are inputs of
  the refresh step: what a fetch of the policy list answered.
\<close>

section \<open>Policies\<close>

record subject_selector =
  sel_roles :: "string list option"
  sel_users :: "string list option"

record rate_limits =
  requests_per_minute :: u32

record logging_config =
  metadata_only :: bool

record policy_spec =
  subjects :: subject_selector
  providers :: "string list"
  models :: "string list"
  limits :: rate_limits
  logging :: logging_config

record policy =
  policy_ident :: string
  policy_name :: string
  spec :: policy_spec

record evaluation_result =
  allowed :: bool
  policy_id :: "string option"
  reason :: string

record policy_engine =
  policies :: "policy list"
  policies_url :: string
  engine_healthy :: bool

section \<open>Evaluation\<close>

text \<open>The loop over the caller's roles in \<open>matches_subject\<close>.\<close>

fun any_role :: "string list \<Rightarrow> string list \<Rightarrow> bool" where
  "any_role policy_roles [] = False"
| "any_role policy_roles (role # roles) =
     (if role \<in> set policy_roles then True else any_role policy_roles roles)"

definition matches_subject :: "policy \<Rightarrow> string \<Rightarrow> string list \<Rightarrow> bool" where
  "matches_subject p identity_id roles =
     (if (case sel_roles (subjects (spec p)) of
            Some policy_roles \<Rightarrow> any_role policy_roles roles | None \<Rightarrow> False)
      then True
      else (case sel_users (subjects (spec p)) of
              Some policy_users \<Rightarrow> identity_id \<in> set policy_users
            | None \<Rightarrow> False))"

type_synonym access_request = "string \<times> string list \<times> string \<times> string"

text \<open>One turn of the loop in \<open>evaluate\<close>: does it get past the three \<open>continue\<close>s?\<close>

fun policy_grants :: "policy \<Rightarrow> access_request \<Rightarrow> bool" where
  "policy_grants p (identity_id, roles, provider, model) =
     (if \<not> matches_subject p identity_id roles then False
      else if providers (spec p) \<noteq> [] \<and> provider \<notin> set (providers (spec p)) then False
      else if models (spec p) \<noteq> [] \<and> model \<notin> set (models (spec p)) then False
      else True)"

fun evaluate_loop :: "policy list \<Rightarrow> access_request \<Rightarrow> policy option" where
  "evaluate_loop [] q = None"
| "evaluate_loop (p # ps) q = (if policy_grants p q then Some p else evaluate_loop ps q)"

definition evaluate ::
  "policy_engine \<Rightarrow> string \<Rightarrow> string list \<Rightarrow> string \<Rightarrow> string \<Rightarrow> evaluation_result" where
  "evaluate engine identity_id roles provider model =
     (if policies engine = [] then
        \<lparr>allowed = False, policy_id = None, reason = ''No policies configured - fail closed''\<rparr>
      else
        (case evaluate_loop (policies engine) (identity_id, roles, provider, model) of
           Some p \<Rightarrow>
             \<lparr>allowed = True, policy_id = Some (policy_ident p), reason = ''Access granted by policy''\<rparr>
         | None \<Rightarrow>
             \<lparr>allowed = False, policy_id = None, reason = ''No matching policy found''\<rparr>))"

definition policy_count :: "policy_engine \<Rightarrow> nat" where
  "policy_count engine = length (policies engine)"

definition engine_is_healthy :: "policy_engine \<Rightarrow> bool" where
  "engine_is_healthy engine = engine_healthy engine"

section \<open>Construction and refresh\<close>

definition policy_engine_new :: "string \<Rightarrow> policy_engine" where
  "policy_engine_new url =
     \<lparr>policies = [], policies_url = trim_end_matches CHR ''/'' url @ ''/v1/policies'',
      engine_healthy = True\<rparr>"

text \<open>
  What \<open>client.get(url).send()\<close> answered: a response with its status and, once the body is
  decoded, a policy list or a decoding error; or a transport error.
\<close>

datatype fetch = Response u16 "string + policy list" | SendError string

fun refresh_step :: "fetch \<Rightarrow> policy_engine \<Rightarrow> policy_engine" where
  "refresh_step (Response st body) engine =
     (if is_success st then
        (case body of
           Inr fetched \<Rightarrow> engine\<lparr>policies := fetched, engine_healthy := True\<rparr>
         | Inl e \<Rightarrow> engine)
      else engine)"
| "refresh_step (SendError e) engine = engine\<lparr>engine_healthy := False\<rparr>"

section \<open>The placeholder engine of rust-gateway\<close>

definition stub_evaluate :: "string \<Rightarrow> string \<Rightarrow> string \<Rightarrow> bool" where
  "stub_evaluate identity resource action = True"

section \<open>Lemmas\<close>

lemma any_role_iff [simp]: "any_role ps rs \<longleftrightarrow> set ps \<inter> set rs \<noteq> {}"
  by (induction rs) auto

lemma matches_subject_iff:
  "matches_subject p u rs \<longleftrightarrow>
     (\<exists>ps. sel_roles (subjects (spec p)) = Some ps \<and> set ps \<inter> set rs \<noteq> {}) \<or>
     (\<exists>us. sel_users (subjects (spec p)) = Some us \<and> u \<in> set us)"
  by (auto simp: matches_subject_def split: option.splits)

lemma policy_grants_iff:
  "policy_grants p (u, rs, provider, model) \<longleftrightarrow>
     matches_subject p u rs \<and>
     (providers (spec p) = [] \<or> provider \<in> set (providers (spec p))) \<and>
     (models (spec p) = [] \<or> model \<in> set (models (spec p)))"
  by auto

declare policy_grants.simps [simp del]

interpretation policy_scan: first_match policy_grants evaluate_loop
  by unfold_locales simp_all

text \<open>The last successful answer of a sequence of fetches.\<close>

fun fetched_policies :: "fetch \<Rightarrow> policy list option" where
  "fetched_policies (Response st (Inr ps)) = (if is_success st then Some ps else None)"
| "fetched_policies _ = None"

fun last_fetched :: "fetch list \<Rightarrow> policy list \<Rightarrow> policy list" where
  "last_fetched [] ps = ps"
| "last_fetched (f # fs) ps = last_fetched fs (unwrap_or (fetched_policies f) ps)"

lemma refresh_policies:
  "policies (refresh_step f e) = unwrap_or (fetched_policies f) (policies e)"
  by (cases "(f, e)" rule: refresh_step.cases)
    (auto simp: unwrap_or_def is_success_def split: sum.splits)

lemma refresh_run: "policies (fold refresh_step fs e) = last_fetched fs (policies e)"
  by (induction fs arbitrary: e) (simp_all add: refresh_policies)

section \<open>Properties\<close>

text \<open>
  Claim C5. An access is allowed if and only if some policy of the current list selects the
  caller (by one of its roles or by name), names the provider or no provider at all, and names
  the model or no model at all.
\<close>

theorem evaluate_allowed_iff:
  "allowed (evaluate engine u rs provider model) \<longleftrightarrow>
     (\<exists>p\<in>set (policies engine).
        ((\<exists>ps. sel_roles (subjects (spec p)) = Some ps \<and> set ps \<inter> set rs \<noteq> {}) \<or>
         (\<exists>us. sel_users (subjects (spec p)) = Some us \<and> u \<in> set us)) \<and>
        (providers (spec p) = [] \<or> provider \<in> set (providers (spec p))) \<and>
        (models (spec p) = [] \<or> model \<in> set (models (spec p))))"
proof -
  have "allowed (evaluate engine u rs provider model) \<longleftrightarrow>
          evaluate_loop (policies engine) (u, rs, provider, model) \<noteq> None"
    by (auto simp: evaluate_def split: option.splits)
  also have "\<dots> \<longleftrightarrow> (\<exists>p\<in>set (policies engine). policy_grants p (u, rs, provider, model))"
    by (rule policy_scan.scan_Some)
  finally show ?thesis by (simp only: policy_grants_iff matches_subject_iff)
qed

text \<open>
  The decision names the policy it rests on: an allowed access carries the id of the
  first granting policy in the list, all before it having refused; a denied one carries no id,
  and the reason tells an empty list from a list without a match.
\<close>

theorem evaluate_names_first_match:
  "(allowed (evaluate engine u rs provider model) \<longleftrightarrow>
      (\<exists>before p after. policies engine = before @ p # after \<and>
         policy_grants p (u, rs, provider, model) \<and>
         list_all (\<lambda>b. \<not> policy_grants b (u, rs, provider, model)) before \<and>
         policy_id (evaluate engine u rs provider model) = Some (policy_ident p) \<and>
         reason (evaluate engine u rs provider model) = ''Access granted by policy'')) \<and>
   (\<not> allowed (evaluate engine u rs provider model) \<longleftrightarrow>
      policy_id (evaluate engine u rs provider model) = None \<and>
      reason (evaluate engine u rs provider model) =
        (if policies engine = [] then ''No policies configured - fail closed''
         else ''No matching policy found''))"
proof (cases "evaluate_loop (policies engine) (u, rs, provider, model)")
  case None
  then have "\<not> policy_grants p (u, rs, provider, model)" if "p \<in> set (policies engine)" for p
    using that policy_scan.scan_None by blast
  with None show ?thesis by (auto simp: evaluate_def)
next
  case (Some p)
  then have ne: "policies engine \<noteq> []" by auto
  from Some obtain before after where "policies engine = before @ p # after"
    "policy_grants p (u, rs, provider, model)"
    "\<forall>b\<in>set before. \<not> policy_grants b (u, rs, provider, model)"
    by (rule policy_scan.scan_firstE)
  then show ?thesis using Some ne by (simp add: evaluate_def list_all_iff) blast
qed

text \<open>
  Granting is monotone in the policy list: adding policies anywhere or reordering
  them never turns an allowed access into a denied one (there are no deny rules).
\<close>

theorem evaluate_monotone:
  assumes "set (policies e) \<subseteq> set (policies e')"
    and "allowed (evaluate e u rs provider model)"
  shows "allowed (evaluate e' u rs provider model)"
proof -
  have al: "allowed (evaluate x u rs provider model) \<longleftrightarrow>
              evaluate_loop (policies x) (u, rs, provider, model) \<noteq> None" for x
    by (auto simp: evaluate_def split: option.splits)
  show ?thesis using assms policy_scan.scan_found_mono [OF assms(1)] by (simp add: al)
qed

definition test_policy :: policy where
  "test_policy =
     \<lparr>policy_ident = ''test-1'', policy_name = ''Engineering LLM Access'',
      spec = \<lparr>subjects = \<lparr>sel_roles = Some [''engineering''], sel_users = None\<rparr>,
              providers = [''openai''], models = [''gpt-4''],
              limits = \<lparr>requests_per_minute = 60\<rparr>, logging = \<lparr>metadata_only = True\<rparr>\<rparr>\<rparr>"

theorem evaluate_monotone_witness:
  "allowed (evaluate \<lparr>policies = [test_policy\<lparr>policy_ident := ''x''\<rparr>, test_policy],
                      policies_url = '''', engine_healthy = True\<rparr>
              ''user-1'' [''engineering''] ''openai'' ''gpt-4'')"
  by (rule evaluate_monotone [where e = "\<lparr>policies = [test_policy], policies_url = '''',
          engine_healthy = True\<rparr>"])
    (simp_all add: evaluate_def test_policy_def matches_subject_def policy_grants.simps)

text \<open>
  Claim C31. After any sequence of fetches the engine decides by the last policy list that was
  fetched and decoded, and by the empty list (deny everything) before the first one: failed
  fetches, error statuses and undecodable bodies keep the old list. The health flag goes down
  only on a transport error and comes back only with a decoded list; an error status or an
  undecodable body leaves it as it was.
\<close>

theorem refresh_keeps_last_good:
  "policies (fold refresh_step fs (policy_engine_new url)) = last_fetched fs [] \<and>
   engine_healthy (refresh_step f e) =
     (case f of SendError _ \<Rightarrow> False
      | _ \<Rightarrow> (\<exists>ps. fetched_policies f = Some ps) \<or> engine_healthy e)"
proof -
  have "engine_healthy (refresh_step f e) =
     (case f of SendError _ \<Rightarrow> False | _ \<Rightarrow> (\<exists>ps. fetched_policies f = Some ps) \<or> engine_healthy e)"
    by (cases f) (auto split: sum.splits)
  then show ?thesis by (simp add: refresh_run policy_engine_new_def)
qed

text \<open>
  A new engine denies every access until a fetch has delivered policies; in particular
  it denies the access that the unit test \<open>test_allowed_request\<close> expects to be allowed.
\<close>

theorem new_engine_fails_closed:
  assumes "\<forall>f\<in>set fs. fetched_policies f = None"
  shows "evaluate (fold refresh_step fs (policy_engine_new url)) u rs provider model =
           \<lparr>allowed = False, policy_id = None, reason = ''No policies configured - fail closed''\<rparr>"
proof -
  have "last_fetched fs ps = ps" for ps
    using assms by (induction fs arbitrary: ps) (auto simp: unwrap_or_def)
  then show ?thesis by (simp add: evaluate_def refresh_run policy_engine_new_def)
qed

theorem new_engine_fails_closed_witness:
  "evaluate (fold refresh_step [SendError ''refused'', Response 500 (Inr [test_policy])]
               (policy_engine_new ''http://localhost:8443''))
      ''user-1'' [''engineering''] ''openai'' ''gpt-4'' =
     \<lparr>allowed = False, policy_id = None, reason = ''No policies configured - fail closed''\<rparr>"
  by (rule new_engine_fails_closed) (simp add: is_success_def)


text \<open>
  \<open>new\<close> spawns the refresh task, and \<open>tokio::spawn\<close> panics outside a runtime: \<open>in_runtime\<close> says where
  the constructor is called.
\<close>

definition policy_engine_start :: "bool \<Rightarrow> string \<Rightarrow> policy_engine outcome" where
  "policy_engine_start in_runtime url =
     (if in_runtime then Returned (policy_engine_new url)
      else Panicked ''there is no reactor running'')"

text \<open>
  The unit tests of \<open>policy.rs\<close>: whether they pass, with their assertions as conjuncts. They are plain
  \<open>#[test]\<close> functions, so \<open>in_runtime\<close> is false.
\<close>

definition test_allowed_request :: "bool \<Rightarrow> bool" where
  "test_allowed_request in_runtime =
     (case policy_engine_start in_runtime ''http://localhost:8443'' of
        Panicked e \<Rightarrow> False
      | Returned engine \<Rightarrow>
          (let result = evaluate engine ''user-1'' [''engineering''] ''openai'' ''gpt-4''
           in allowed result \<and> reason result = ''Access granted by policy''))"

definition test_denied_wrong_role :: "bool \<Rightarrow> bool" where
  "test_denied_wrong_role in_runtime =
     (case policy_engine_start in_runtime ''http://localhost:8443'' of
        Panicked e \<Rightarrow> False
      | Returned engine \<Rightarrow>
          (let result = evaluate engine ''user-1'' [''marketing''] ''openai'' ''gpt-4''
           in \<not> allowed result))"

definition test_fail_closed_no_policies :: "bool \<Rightarrow> bool" where
  "test_fail_closed_no_policies in_runtime =
     (case policy_engine_start in_runtime ''http://localhost:8443'' of
        Panicked e \<Rightarrow> False
      | Returned engine \<Rightarrow>
          (let result = evaluate engine ''user-1'' [''engineering''] ''openai'' ''gpt-4''
           in \<not> allowed result))"

text \<open>
  All three tests fail where they are run. Inside a runtime the last two would pass; the first would not
  even there, since no test puts \<open>test_policy\<close> into the engine.
\<close>

theorem policy_unit_tests:
  "\<not> test_allowed_request False \<and> \<not> test_denied_wrong_role False \<and> \<not> test_fail_closed_no_policies False \<and>
   \<not> test_allowed_request True \<and> test_denied_wrong_role True \<and> test_fail_closed_no_policies True"
  by (simp add: test_allowed_request_def test_denied_wrong_role_def test_fail_closed_no_policies_def
      policy_engine_start_def policy_engine_new_def evaluate_def)

end
