(* ===== verification/Ssrf.thy ===== *)
theory Ssrf
  imports Config
begin

text \<open>
  The SSRF guards \<open>rust-gateway/src/ssrf.rs\<close> and \<open>gateway/src/ssrf.rs\<close>. The URL parser (the
  \<open>url\<close> crate) is a parameter; the address predicates are those of \<open>std::net\<close>.
\<close>

section \<open>Addresses and parsed URLs\<close>

type_synonym ipv4 = u32
type_synonym ipv6 = u128

datatype ip_addr = V4 ipv4 | V6 ipv6

datatype host = Domain string | Ipv4 ipv4 | Ipv6 ipv6

record parsed_url =
  host_str :: "string option"
  host :: "host option"

type_synonym url_parser = "string \<Rightarrow> string + parsed_url"

definition octet :: "nat \<Rightarrow> ipv4 \<Rightarrow> u32" where
  "octet i ip = take_bit 8 (drop_bit (24 - 8 * i) ip)"

fun is_loopback :: "ip_addr \<Rightarrow> bool" where
  "is_loopback (V4 ip) = (octet 0 ip = 127)"
| "is_loopback (V6 ip) = (ip = 1)"

fun is_unspecified :: "ip_addr \<Rightarrow> bool" where
  "is_unspecified (V4 ip) = (ip = 0)"
| "is_unspecified (V6 ip) = (ip = 0)"

fun is_multicast :: "ip_addr \<Rightarrow> bool" where
  "is_multicast (V4 ip) = (224 \<le> octet 0 ip \<and> octet 0 ip \<le> 239)"
| "is_multicast (V6 ip) = (drop_bit 120 ip = 255)"

definition is_private :: "ipv4 \<Rightarrow> bool" where
  "is_private ip \<longleftrightarrow>
     octet 0 ip = 10 \<or>
     octet 0 ip = 172 \<and> 16 \<le> octet 1 ip \<and> octet 1 ip \<le> 31 \<or>
     octet 0 ip = 192 \<and> octet 1 ip = 168"

definition is_link_local :: "ipv4 \<Rightarrow> bool" where
  "is_link_local ip \<longleftrightarrow> octet 0 ip = 169 \<and> octet 1 ip = 254"

text \<open>The closure passed to \<open>parsed.host().and_then(..)\<close>, the same in both crates.\<close>

fun host_ip :: "host \<Rightarrow> ip_addr option" where
  "host_ip (Ipv4 ip) = Some (V4 ip)"
| "host_ip (Ipv6 ip) = Some (V6 ip)"
| "host_ip (Domain d) = None"

definition url_ip :: "parsed_url \<Rightarrow> ip_addr option" where
  "url_ip u = Option.bind (host u) host_ip"

definition BLOCKED_HOSTS :: "string list" where
  "BLOCKED_HOSTS = [''localhost'', ''127.0.0.1'', ''::1'', ''0.0.0.0'']"

definition blocked_host :: "parsed_url \<Rightarrow> bool" where
  "blocked_host u = (case host_str u of Some h \<Rightarrow> h \<in> set BLOCKED_HOSTS | None \<Rightarrow> False)"

definition internal_ip :: "ip_addr \<Rightarrow> bool" where
  "internal_ip ip \<longleftrightarrow> is_loopback ip \<or> is_unspecified ip \<or> is_multicast ip"

section \<open>rust-gateway\<close>

definition check_url :: "parsed_url \<Rightarrow> string + unit" where
  "check_url parsed =
     (if blocked_host parsed then Inl ''ssrf_localhost_blocked''
      else if (case url_ip parsed of Some ip \<Rightarrow> internal_ip ip | None \<Rightarrow> False)
      then Inl ''ssrf_internal_ip_blocked''
      else Inr ())"

definition validate_url :: "url_parser \<Rightarrow> string \<Rightarrow> string + unit" where
  "validate_url parse input =
     (case parse input of
        Inr u \<Rightarrow> check_url u
      | Inl e \<Rightarrow> Inl ''invalid_url'')"

section \<open>gateway\<close>

record ssrf_defense =
  approved_domains :: "string set"
  defense_enabled :: bool

definition defense_new :: ssrf_defense where
  "defense_new =
     \<lparr>approved_domains = insert ''api.anthropic.com'' (insert ''api.openai.com'' {}),
      defense_enabled = True\<rparr>"

definition set_enabled :: "bool \<Rightarrow> ssrf_defense \<Rightarrow> ssrf_defense" where
  "set_enabled b g = g\<lparr>defense_enabled := b\<rparr>"

definition approve_domain :: "string \<Rightarrow> ssrf_defense \<Rightarrow> ssrf_defense" where
  "approve_domain d g = g\<lparr>approved_domains := insert d (approved_domains g)\<rparr>"

definition domain_approved :: "string set \<Rightarrow> string \<Rightarrow> bool" where
  "domain_approved ds h \<longleftrightarrow> (\<exists>d\<in>ds. h = d \<or> ends_with h (''.'' @ d))"

definition check_upstream :: "ssrf_defense \<Rightarrow> parsed_url \<Rightarrow> string + unit" where
  "check_upstream g parsed =
     (if blocked_host parsed then Inl ''ssrf_localhost_blocked''
      else
        (case (case url_ip parsed of
                 Some ip \<Rightarrow>
                   if internal_ip ip then Some ''ssrf_internal_ip_blocked''
                   else
                     (case ip of
                        V4 v4 \<Rightarrow>
                          if is_private v4 then Some ''ssrf_private_ip_blocked''
                          else if is_link_local v4 then Some ''ssrf_link_local_blocked''
                          else None
                      | V6 v6 \<Rightarrow> None)
               | None \<Rightarrow> None) of
           Some e \<Rightarrow> Inl e
         | None \<Rightarrow>
             if approved_domains g \<noteq> {} then
               (case host_str parsed of
                  Some h \<Rightarrow>
                    if \<not> domain_approved (approved_domains g) h
                    then Inl ''ssrf_domain_not_approved'' else Inr ()
                | None \<Rightarrow> Inr ())
             else Inr ()))"

definition validate_upstream :: "url_parser \<Rightarrow> ssrf_defense \<Rightarrow> string \<Rightarrow> string + unit" where
  "validate_upstream parse g url =
     (if \<not> defense_enabled g then Inr ()
      else
        (case parse url of
           Inl e \<Rightarrow> Inl ''invalid_url''
         | Inr parsed \<Rightarrow> check_upstream g parsed))"

section \<open>Interface: a guard on hosts\<close>

text \<open>
  What a client may rely on: a guard that refuses names of the blocked list and loopback,
  unspecified and multicast addresses; and a stronger one that also refuses private and
  link-local IPv4 addresses.
\<close>

locale host_guard =
  fixes check :: "parsed_url \<Rightarrow> string + unit"
  assumes refuses_blocked: "blocked_host u \<Longrightarrow> check u \<noteq> Inr ()"
    and refuses_internal: "url_ip u = Some ip \<Longrightarrow> internal_ip ip \<Longrightarrow> check u \<noteq> Inr ()"
begin

lemma accepted_external:
  assumes "check u = Inr ()"
  shows "\<not> blocked_host u \<and> (\<forall>ip. url_ip u = Some ip \<longrightarrow> \<not> internal_ip ip)"
  using assms refuses_blocked refuses_internal by blast

end

locale private_guard = host_guard +
  assumes refuses_private:
    "url_ip u = Some (V4 v4) \<Longrightarrow> is_private v4 \<or> is_link_local v4 \<Longrightarrow> check u \<noteq> Inr ()"
begin

lemma accepted_public:
  assumes "check u = Inr ()" "url_ip u = Some (V4 v4)"
  shows "\<not> internal_ip (V4 v4) \<and> \<not> is_private v4 \<and> \<not> is_link_local v4"
  using assms accepted_external refuses_private by blast

end

interpretation url_guard: host_guard check_url
  by unfold_locales (auto simp: check_url_def split: if_splits)

interpretation upstream_guard: private_guard "check_upstream g" for g
  by unfold_locales (auto simp: check_upstream_def split: if_splits)

section \<open>Address ranges\<close>

definition ip4 :: "nat \<Rightarrow> nat \<Rightarrow> nat \<Rightarrow> nat \<Rightarrow> ipv4" where
  "ip4 a b c d = of_nat (((a * 256 + b) * 256 + c) * 256 + d)"

lemma unat_octet: "unat (octet i ip) = unat ip div 2 ^ (24 - 8 * i) mod 256"
proof -
  have "unat ip < 2 ^ 32" using unsigned_less [of ip] by simp
  then have "unat (octet i ip) = take_bit 8 (drop_bit (24 - 8 * i) (unat ip))"
    by (simp add: octet_def unsigned_take_bit_eq unsigned_drop_bit_eq take_bit_nat_eq_self)
  then show ?thesis by (simp add: take_bit_eq_mod drop_bit_eq_div)
qed

lemma octet0_octet1:
  "unat (octet 0 ip) = unat ip div 65536 div 256" "unat (octet 1 ip) = unat ip div 65536 mod 256"
proof -
  have "unat ip < 4294967296" using unsigned_less [of ip] by simp
  then have "unat ip div 65536 div 256 < 256" by (simp add: div_mult2_eq [symmetric] less_mult_imp_div_less)
  then show "unat (octet 0 ip) = unat ip div 65536 div 256"
    by (simp add: unat_octet div_mult2_eq [symmetric])
qed (simp add: unat_octet)

lemma div_range:
  fixes n :: nat
  shows "a \<le> n div 65536 \<and> n div 65536 \<le> b \<longleftrightarrow> a * 65536 \<le> n \<and> n \<le> b * 65536 + 65535"
proof -
  have "a \<le> n div 65536 \<longleftrightarrow> a * 65536 \<le> n" by (simp add: less_eq_div_iff_mult_less_eq)
  moreover have "n div 65536 < b + 1 \<longleftrightarrow> n < (b + 1) * 65536"
    by (rule div_less_iff_less_mult) simp
  ultimately show ?thesis by auto
qed

lemma ip4_range:
  assumes "a < 65536" "b < 65536"
  shows "of_nat (a * 65536) \<le> (ip :: ipv4) \<and> ip \<le> of_nat (b * 65536 + 65535) \<longleftrightarrow>
           a \<le> unat ip div 65536 \<and> unat ip div 65536 \<le> b"
proof -
  have "unat (of_nat (a * 65536) :: ipv4) = a * 65536"
    "unat (of_nat (b * 65536 + 65535) :: ipv4) = b * 65536 + 65535"
    using assms by (intro unat_of_nat_less; simp)+
  then show ?thesis by (simp add: word_le_nat_alt div_range del: of_nat_add of_nat_mult)
qed

lemma block_range:
  fixes q :: nat
  assumes "l \<le> h" "h < 256"
  shows "q div 256 = a \<and> l \<le> q mod 256 \<and> q mod 256 \<le> h \<longleftrightarrow> a * 256 + l \<le> q \<and> q \<le> a * 256 + h"
proof
  assume *: "q div 256 = a \<and> l \<le> q mod 256 \<and> q mod 256 \<le> h"
  have "q = q div 256 * 256 + q mod 256" by simp
  with * show "a * 256 + l \<le> q \<and> q \<le> a * 256 + h" by linarith
next
  assume *: "a * 256 + l \<le> q \<and> q \<le> a * 256 + h"
  then have "q div 256 = a" using assms(2) by (intro div_nat_eqI) auto
  moreover have "q = q div 256 * 256 + q mod 256" by simp
  ultimately show "q div 256 = a \<and> l \<le> q mod 256 \<and> q mod 256 \<le> h" using * by linarith
qed

lemma is_private_blocks:
  "is_private ip \<longleftrightarrow>
     (let q = unat ip div 65536
      in 2560 \<le> q \<and> q \<le> 2815 \<or> 44048 \<le> q \<and> q \<le> 44063 \<or> 49320 \<le> q \<and> q \<le> 49320)"
proof -
  have "is_private ip \<longleftrightarrow>
     (let q = unat ip div 65536
      in q div 256 = 10 \<and> 0 \<le> q mod 256 \<and> q mod 256 \<le> 255 \<or> q div 256 = 172 \<and> 16 \<le> q mod 256 \<and> q mod 256 \<le> 31 \<or>
         q div 256 = 192 \<and> 168 \<le> q mod 256 \<and> q mod 256 \<le> 168)"
    using mod_less_divisor [of 256 "unat ip div 65536"]
    by (auto simp: is_private_def word_unat_eq_iff word_le_nat_alt octet0_octet1 Let_def
        simp del: One_nat_def)
  then show ?thesis by (simp only: Let_def block_range) simp
qed

lemma is_link_local_blocks:
  "is_link_local ip \<longleftrightarrow> (let q = unat ip div 65536 in 43518 \<le> q \<and> q \<le> 43518)"
proof -
  have "is_link_local ip \<longleftrightarrow>
     (let q = unat ip div 65536 in q div 256 = 169 \<and> 254 \<le> q mod 256 \<and> q mod 256 \<le> 254)"
    by (auto simp: is_link_local_def word_unat_eq_iff octet0_octet1 Let_def simp del: One_nat_def)
  then show ?thesis by (simp only: Let_def block_range) simp
qed

lemma octet0_range:
  "a \<le> unat (octet 0 ip) \<and> unat (octet 0 ip) \<le> b \<longleftrightarrow>
     a * 256 \<le> unat ip div 65536 \<and> unat ip div 65536 \<le> b * 256 + 255"
proof -
  have "a \<le> unat ip div 65536 div 256 \<longleftrightarrow> a * 256 \<le> unat ip div 65536"
    by (simp add: less_eq_div_iff_mult_less_eq)
  moreover have "unat ip div 65536 div 256 < b + 1 \<longleftrightarrow> unat ip div 65536 < (b + 1) * 256"
    by (rule div_less_iff_less_mult) simp
  ultimately show ?thesis unfolding octet0_octet1 by auto
qed

text \<open>The address classes of \<open>std::net\<close> as blocks of addresses.\<close>

lemma v4_classes:
  "is_loopback (V4 ip) \<longleftrightarrow> ip \<in> {ip4 127 0 0 0 .. ip4 127 255 255 255}"
  "is_multicast (V4 ip) \<longleftrightarrow> ip \<in> {ip4 224 0 0 0 .. ip4 239 255 255 255}"
  "is_unspecified (V4 ip) \<longleftrightarrow> ip = ip4 0 0 0 0"
  "is_private ip \<longleftrightarrow> ip \<in> {ip4 10 0 0 0 .. ip4 10 255 255 255} \<union> {ip4 172 16 0 0 .. ip4 172 31 255 255} \<union>
                          {ip4 192 168 0 0 .. ip4 192 168 255 255}"
  "is_link_local ip \<longleftrightarrow> ip \<in> {ip4 169 254 0 0 .. ip4 169 254 255 255}"
proof -
  have "octet 0 ip = 127 \<longleftrightarrow> 127 \<le> unat (octet 0 ip) \<and> unat (octet 0 ip) \<le> 127"
    by (auto simp: word_unat_eq_iff)
  then show "is_loopback (V4 ip) \<longleftrightarrow> ip \<in> {ip4 127 0 0 0 .. ip4 127 255 255 255}"
    using ip4_range [of 32512 32767 ip] by (simp only: octet0_range) (simp add: ip4_def octet0_range)
  show "is_multicast (V4 ip) \<longleftrightarrow> ip \<in> {ip4 224 0 0 0 .. ip4 239 255 255 255}"
    using ip4_range [of 57344 61439 ip] octet0_range [of 224 ip 239] by (simp add: ip4_def word_le_nat_alt)
  show "is_unspecified (V4 ip) \<longleftrightarrow> ip = ip4 0 0 0 0" by (simp add: ip4_def)
qed (use ip4_range [of 2560 2815 ip] ip4_range [of 44048 44063 ip] ip4_range [of 49320 49320 ip]
    ip4_range [of 43518 43518 ip] in \<open>simp_all add: is_private_blocks is_link_local_blocks Let_def ip4_def\<close>)

text \<open>The multicast block \<open>ff00::/8\<close> is the last one.\<close>

lemma v6_multicast: "is_multicast (V6 ip) \<longleftrightarrow> 0xff000000000000000000000000000000 \<le> ip"
proof -
  let ?b = "2 ^ 120 :: nat"
  have lt: "unat ip < 256 * ?b" using unsigned_less [of ip] by simp
  have "is_multicast (V6 ip) \<longleftrightarrow> unat ip div ?b = 255"
    by (simp add: word_unat_eq_iff drop_bit_eq_div unat_div_distrib)
  also have "\<dots> \<longleftrightarrow> 255 \<le> unat ip div ?b"
    using less_mult_imp_div_less [OF lt] by auto
  also have "\<dots> \<longleftrightarrow> 255 * ?b \<le> unat ip" by (rule less_eq_div_iff_mult_less_eq) simp
  finally show ?thesis by (simp add: word_le_nat_alt)
qed

lemma blocked_host_iff:
  "blocked_host u \<longleftrightarrow> host_str u \<in> Some ` {''localhost'', ''127.0.0.1'', ''::1'', ''0.0.0.0''}"
  by (auto simp: blocked_host_def BLOCKED_HOSTS_def split: option.split)

lemma domain_approved_iff: "domain_approved ds h \<longleftrightarrow> (\<exists>d\<in>ds. h = d \<or> (\<exists>sub. h = sub @ ''.'' @ d))"
  by (simp add: domain_approved_def ends_with_def suffix_def)

section \<open>Properties\<close>

text \<open>
  Claim C6. The gateway crate's guard in terms of addresses and names: a URL passes if and only if the
  guard is switched off, or it parses, and its host string is none of the four blocked names; an
  IPv4 host lies outside 0.0.0.0, 127.0.0.0/8, 224.0.0.0/4, 10.0.0.0/8, 172.16.0.0/12,
  192.168.0.0/16 and 169.254.0.0/16; an IPv6 host is neither \<open>::\<close> nor \<open>::1\<close> nor in \<open>ff00::/8\<close> (private
  IPv6 blocks are not refused); and, when any domain is approved, the host string, if there is one,
  is an approved domain or ends in a dot and an approved domain.
\<close>

theorem validate_upstream_iff:
  "validate_upstream parse g url = Inr () \<longleftrightarrow>
     (if defense_enabled g then
        (\<exists>u. parse url = Inr u \<and>
           host_str u \<notin> Some ` {''localhost'', ''127.0.0.1'', ''::1'', ''0.0.0.0''} \<and>
           (case host u of
              Some (Ipv4 ip) \<Rightarrow>
                ip \<notin> {ip4 0 0 0 0} \<union> {ip4 127 0 0 0 .. ip4 127 255 255 255} \<union>
                     {ip4 224 0 0 0 .. ip4 239 255 255 255} \<union> {ip4 10 0 0 0 .. ip4 10 255 255 255} \<union>
                     {ip4 172 16 0 0 .. ip4 172 31 255 255} \<union> {ip4 192 168 0 0 .. ip4 192 168 255 255} \<union>
                     {ip4 169 254 0 0 .. ip4 169 254 255 255}
            | Some (Ipv6 ip) \<Rightarrow> ip \<notin> {0, 1} \<union> {0xff000000000000000000000000000000 ..}
            | _ \<Rightarrow> True) \<and>
           (approved_domains g = {} \<or>
            (case host_str u of
               None \<Rightarrow> True
             | Some h \<Rightarrow> \<exists>d\<in>approved_domains g. h = d \<or> (\<exists>sub. h = sub @ ''.'' @ d))))
      else True)"
proof -
  have "check_upstream g u = Inr () \<longleftrightarrow>
     \<not> blocked_host u \<and>
     (case host u of
        Some (Ipv4 ip) \<Rightarrow> \<not> internal_ip (V4 ip) \<and> \<not> is_private ip \<and> \<not> is_link_local ip
      | Some (Ipv6 ip) \<Rightarrow> \<not> internal_ip (V6 ip) | _ \<Rightarrow> True) \<and>
     (approved_domains g = {} \<or>
      (case host_str u of None \<Rightarrow> True | Some h \<Rightarrow> domain_approved (approved_domains g) h))" for u
    by (simp add: check_upstream_def url_ip_def split: option.splits host.splits)
  moreover have "\<not> internal_ip (V4 ip) \<and> \<not> is_private ip \<and> \<not> is_link_local ip \<longleftrightarrow>
      ip \<notin> {ip4 0 0 0 0} \<union> {ip4 127 0 0 0 .. ip4 127 255 255 255} \<union>
           {ip4 224 0 0 0 .. ip4 239 255 255 255} \<union> {ip4 10 0 0 0 .. ip4 10 255 255 255} \<union>
           {ip4 172 16 0 0 .. ip4 172 31 255 255} \<union> {ip4 192 168 0 0 .. ip4 192 168 255 255} \<union>
           {ip4 169 254 0 0 .. ip4 169 254 255 255}" for ip
    unfolding internal_ip_def v4_classes by blast
  moreover have "\<not> internal_ip (V6 ip) \<longleftrightarrow> ip \<notin> {0, 1} \<union> {0xff000000000000000000000000000000 ..}" for ip
    unfolding internal_ip_def v6_multicast by auto
  ultimately show ?thesis
    unfolding blocked_host_iff domain_approved_iff
    by (simp only: validate_upstream_def split: sum.split if_split) auto
qed

text \<open>
  Claim C32. With the default domain list and any further approvals, every accepted URL that has a
  host names an approved domain or a subdomain of one: a domain that merely ends in the same
  letters, such as \<open>evilapi.openai.com\<close>, is refused, and so is every numeric host that was not
  approved as such.
\<close>

theorem default_guard_confines:
  assumes "validate_upstream parse (fold approve_domain ds defense_new) url = Inr ()"
    and "parse url = Inr u" "host_str u = Some h"
  shows "\<exists>d\<in>{''api.openai.com'', ''api.anthropic.com''} \<union> set ds. h = d \<or> (\<exists>sub. h = sub @ ''.'' @ d)"
proof -
  have "approved_domains (fold approve_domain ds g) = approved_domains g \<union> set ds \<and>
        defense_enabled (fold approve_domain ds g) = defense_enabled g" for g
    by (induction ds arbitrary: g) (auto simp: approve_domain_def)
  then have ap: "approved_domains (fold approve_domain ds defense_new) =
      {''api.openai.com'', ''api.anthropic.com''} \<union> set ds"
    and en: "defense_enabled (fold approve_domain ds defense_new)"
    by (auto simp: defense_new_def)
  have "check_upstream (fold approve_domain ds defense_new) u = Inr ()"
    using assms(1,2) en by (simp add: validate_upstream_def)
  then have "domain_approved (approved_domains (fold approve_domain ds defense_new)) h"
    using assms(3) ap by (auto simp: check_upstream_def split: if_splits option.splits)
  then show ?thesis
    unfolding ap domain_approved_def ends_with_def suffix_def by blast
qed

definition sample_parser :: url_parser where
  "sample_parser s =
     (if s = ''https://eu.api.openai.com/v1''
      then Inr \<lparr>host_str = Some ''eu.api.openai.com'', host = Some (Domain ''eu.api.openai.com'')\<rparr>
      else if s = ''http://169.254.169.254/latest/meta-data''
      then Inr \<lparr>host_str = Some ''169.254.169.254'', host = Some (Ipv4 2852039166)\<rparr>
      else Inl ''relative URL without a base'')"

theorem default_guard_confines_witness:
  "\<exists>d\<in>{''api.openai.com'', ''api.anthropic.com''} \<union> set [].
     ''eu.api.openai.com'' = d \<or> (\<exists>sub. ''eu.api.openai.com'' = sub @ ''.'' @ d)"
proof (rule default_guard_confines [where parse = sample_parser and url = "''https://eu.api.openai.com/v1''"])
  show "sample_parser ''https://eu.api.openai.com/v1'' =
      Inr \<lparr>host_str = Some ''eu.api.openai.com'', host = Some (Domain ''eu.api.openai.com'')\<rparr>"
    by (simp add: sample_parser_def)
  have "ends_with ''eu.api.openai.com'' (''.'' @ ''api.openai.com'')"
    by (simp add: ends_with_def suffix_def)
  then show "validate_upstream sample_parser (fold approve_domain [] defense_new)
      ''https://eu.api.openai.com/v1'' = Inr ()"
    by (simp add: validate_upstream_def sample_parser_def check_upstream_def defense_new_def
        blocked_host_def BLOCKED_HOSTS_def url_ip_def domain_approved_def)
qed simp

text \<open>
  The rust-gateway guard, exactly: a URL passes if and only if it parses, its host is
  not a blocked name and its address, if it is one, is not loopback, unspecified or multicast;
  every failure has the error of the first check that refused it.
\<close>

theorem validate_url_table:
  "validate_url parse input =
     (case parse input of
        Inl _ \<Rightarrow> Inl ''invalid_url''
      | Inr u \<Rightarrow>
          if \<exists>h\<in>set BLOCKED_HOSTS. host_str u = Some h then Inl ''ssrf_localhost_blocked''
          else if \<exists>ip. url_ip u = Some ip \<and> (is_loopback ip \<or> is_unspecified ip \<or> is_multicast ip)
          then Inl ''ssrf_internal_ip_blocked'' else Inr ())"
  by (auto simp: validate_url_def check_url_def blocked_host_def internal_ip_def
      split: sum.splits option.splits)

text \<open>
  Claim C38. Unlike the gateway crate's guard, the rust-gateway guard accepts private and
  link-local addresses, although its header says that non-public networks are blocked: any URL
  the parser resolves to such an address passes (the cloud metadata address among them), while
  the gateway crate refuses it.
\<close>

theorem rust_guard_accepts_private:
  assumes "parse url = Inr u" "host u = Some (Ipv4 addr)" "\<not> blocked_host u"
    and "is_private addr \<or> is_link_local addr"
  shows "validate_url parse url = Inr () \<and>
         validate_upstream parse defense_new url \<noteq> Inr ()"
proof -
  have ip: "url_ip u = Some (V4 addr)" using assms(2) by (simp add: url_ip_def)
  have oct: "octet 0 addr \<in> {10, 172, 192, 169}"
    using assms(4) by (auto simp: is_private_def is_link_local_def)
  have "addr \<noteq> 0" using oct by (auto simp: octet_def)
  with oct have "\<not> internal_ip (V4 addr)"
    by (auto simp: internal_ip_def word_le_nat_alt)
  then have "validate_url parse url = Inr ()"
    using assms(1,3) ip by (simp add: validate_url_def check_url_def)
  moreover have "check_upstream defense_new u \<noteq> Inr ()"
    using upstream_guard.refuses_private [OF ip assms(4)] by simp
  ultimately show ?thesis
    using assms(1) by (simp add: validate_upstream_def defense_new_def)
qed

theorem rust_guard_accepts_private_witness:
  "validate_url sample_parser ''http://169.254.169.254/latest/meta-data'' = Inr () \<and>
   validate_upstream sample_parser defense_new ''http://169.254.169.254/latest/meta-data'' \<noteq> Inr ()"
  by (rule rust_guard_accepts_private
      [where u = "\<lparr>host_str = Some ''169.254.169.254'', host = Some (Ipv4 2852039166)\<rparr>"
         and addr = 2852039166])
    (simp_all add: sample_parser_def blocked_host_def BLOCKED_HOSTS_def is_link_local_def octet_def)

text \<open>
  A URL without a host (a \<open>file:\<close> or \<open>data:\<close> URL) passes both guards whatever the list
  of approved domains: none of the checks looks at it.
\<close>

theorem hostless_urls_pass:
  assumes "parse url = Inr u" "host_str u = None" "host u = None"
  shows "validate_url parse url = Inr () \<and> validate_upstream parse g url = Inr ()"
  using assms
  by (simp add: validate_url_def check_url_def validate_upstream_def check_upstream_def
      blocked_host_def url_ip_def)

theorem hostless_urls_pass_witness:
  "validate_url (\<lambda>_. Inr \<lparr>host_str = None, host = None\<rparr>) ''file:///etc/passwd'' = Inr () \<and>
   validate_upstream (\<lambda>_. Inr \<lparr>host_str = None, host = None\<rparr>) defense_new ''file:///etc/passwd'' = Inr ()"
  by (rule hostless_urls_pass [where u = "\<lparr>host_str = None, host = None\<rparr>"]) simp_all

end
