(* ===== verification/Audit_Log.thy ===== *)
theory Audit_Log
  imports Config Http
begin

text \<open>
  The audit loggers of the two crates, \<open>rust-gateway/src/audit.rs\<close> and \<open>gateway/src/audit.rs\<close>.
  A logger is an unbounded channel and a background task that batches what it receives. The
  task's loop is a \<open>select!\<close> over the channel and a five-second timer; each of its two branches
  is one step here (the timer branch's pattern always matches, so the \<open>else\<close> branch of the
  \<open>select!\<close> is never taken and the task never ends). The HTTP client is a parameter: it maps a
  URL and a batch to a status code or a transport error.
\<close>

section \<open>Interface: a batching worker\<close>

text \<open>
  What a logger promises: recording appends to what is pending if the logger accepts events, and
  the worker's steps only move events from the front of what is pending to the end of what was
  posted.
\<close>

locale batching_worker =
  fixes rec :: "'e \<Rightarrow> 's \<Rightarrow> 's"
    and recv :: "'s \<Rightarrow> 's"
    and tick :: "'s \<Rightarrow> 's"
    and accepts :: "'s \<Rightarrow> bool"
    and pending :: "'s \<Rightarrow> 'e list"
    and posted :: "'s \<Rightarrow> 'e list"
  assumes rec_flow: "posted (rec e s) = posted s"
      "pending (rec e s) = pending s @ (if accepts s then [e] else [])"
    and recv_flow: "posted (recv s) @ pending (recv s) = posted s @ pending s"
    and tick_flow: "posted (tick s) @ pending (tick s) = posted s @ pending s"
    and accepts_kept: "accepts (rec e s) = accepts s" "accepts (recv s) = accepts s"
      "accepts (tick s) = accepts s"
begin

text \<open>\<open>Inl e\<close> records \<open>e\<close>, \<open>Inr True\<close> is the channel branch, \<open>Inr False\<close> the timer branch.\<close>

fun run1 :: "'e + bool \<Rightarrow> 's \<Rightarrow> 's" where
  "run1 (Inl e) s = rec e s"
| "run1 (Inr b) s = (if b then recv s else tick s)"

lemma run_flow:
  "posted (fold run1 cs s) @ pending (fold run1 cs s) =
     posted s @ pending s @ (if accepts s then [e. Inl e \<leftarrow> cs] else [])"
proof (induction cs arbitrary: s)
  case Nil
  then show ?case by simp
next
  case (Cons c cs)
  show ?case
  proof (cases c)
    case (Inl e)
    then show ?thesis using Cons [of "rec e s"] by (simp add: rec_flow accepts_kept)
  next
    case (Inr b)
    then show ?thesis
      using Cons [of "recv s"] Cons [of "tick s"] recv_flow [of s] tick_flow [of s]
      by (auto simp: accepts_kept append_assoc [symmetric] simp del: append_assoc)
  qed
qed

end

section \<open>rust-gateway\<close>

record audit_event =
  event_type :: string
  actor_id :: string
  action :: string
  resource :: string
  result :: string
  correlation_id :: string
  source :: string
  metadata :: "string \<rightharpoonup> string"

type_synonym 'e http_post = "string \<Rightarrow> 'e list \<Rightarrow> string + u16"

record 'e audit_logger =
  queue :: "'e list"
  batch :: "'e list"
  posts :: "(string \<times> 'e list) list"
  accepted :: "'e list"
  endpoint :: string

definition audit_new :: "audit_config \<Rightarrow> env \<Rightarrow> 'e audit_logger" where
  "audit_new cfg env =
     (let control_plane_url =
            unwrap_or (env ''APPGATE_CONTROL_PLANE_URL'') ''http://appgate-control-plane:8080''
      in \<lparr>queue = [], batch = [], posts = [], accepted = [],
          endpoint = trim_end_matches CHR ''/'' control_plane_url @ ''/v1/audit/batch''\<rparr>)"

definition audit_record :: "'e \<Rightarrow> 'e audit_logger \<Rightarrow> 'e audit_logger" where
  "audit_record ev s = s\<lparr>queue := queue s @ [ev]\<rparr>"

definition send_batch :: "'e http_post \<Rightarrow> 'e audit_logger \<Rightarrow> 'e audit_logger" where
  "send_batch post s =
     (if batch s = [] then s
      else
        (let s' = s\<lparr>posts := posts s @ [(endpoint s, batch s)]\<rparr> in
         case post (endpoint s) (batch s) of
           Inr st \<Rightarrow> if \<not> is_success st then s' else s'\<lparr>accepted := accepted s @ batch s\<rparr>
         | Inl e \<Rightarrow> s'))"

definition audit_recv :: "'e http_post \<Rightarrow> 'e audit_logger \<Rightarrow> 'e audit_logger" where
  "audit_recv post s =
     (case queue s of
        [] \<Rightarrow> s
      | ev # q \<Rightarrow>
          (let s = s\<lparr>queue := q, batch := batch s @ [ev]\<rparr> in
           if length (batch s) \<ge> 100 then (send_batch post s)\<lparr>batch := []\<rparr> else s))"

definition audit_tick :: "'e http_post \<Rightarrow> 'e audit_logger \<Rightarrow> 'e audit_logger" where
  "audit_tick post s = (if batch s \<noteq> [] then (send_batch post s)\<lparr>batch := []\<rparr> else s)"

subsection \<open>Flow and bounds\<close>

definition audit_pending :: "'e audit_logger \<Rightarrow> 'e list" where
  "audit_pending s = batch s @ queue s"

definition audit_posted :: "'e audit_logger \<Rightarrow> 'e list" where
  "audit_posted s = concat (map snd (posts s))"

lemma send_batch_fields [simp]:
  "queue (send_batch post s) = queue s" "batch (send_batch post s) = batch s"
  "endpoint (send_batch post s) = endpoint s"
  by (auto simp: send_batch_def Let_def split: sum.splits)

lemma posts_send_batch:
  "posts (send_batch post s) = posts s @ (if batch s = [] then [] else [(endpoint s, batch s)])"
  by (auto simp: send_batch_def Let_def split: sum.splits)

lemma audit_posted_send_batch: "audit_posted (send_batch post s) = audit_posted s @ batch s"
  by (simp add: audit_posted_def posts_send_batch)

lemma accepted_send_batch:
  "accepted (send_batch post s) = accepted s \<or> accepted (send_batch post s) = accepted s @ batch s"
  by (auto simp: send_batch_def Let_def split: sum.splits)

lemma audit_recv_cases:
  "queue s = [] \<Longrightarrow> audit_recv post s = s"
  "queue s = ev # q \<Longrightarrow> length (batch s) < 99 \<Longrightarrow>
     audit_recv post s = s\<lparr>queue := q, batch := batch s @ [ev]\<rparr>"
  "queue s = ev # q \<Longrightarrow> length (batch s) \<ge> 99 \<Longrightarrow>
     audit_recv post s = (send_batch post (s\<lparr>queue := q, batch := batch s @ [ev]\<rparr>))\<lparr>batch := []\<rparr>"
  by (auto simp: audit_recv_def Let_def)

lemma audit_posted_batch [simp]:
  "audit_posted (s\<lparr>batch := b\<rparr>) = audit_posted s" "audit_posted (s\<lparr>queue := q\<rparr>) = audit_posted s"
  by (simp_all add: audit_posted_def)

interpretation audit_flow: batching_worker audit_record "audit_recv post" "audit_tick post"
  "\<lambda>_. True" audit_pending audit_posted for post
proof
  show "audit_posted (audit_recv post s) @ audit_pending (audit_recv post s) =
          audit_posted s @ audit_pending s" for s
    by (cases "queue s"; cases "length (batch s) < 99")
      (simp_all add: audit_recv_cases audit_pending_def audit_posted_send_batch not_less)
  show "audit_posted (audit_tick post s) @ audit_pending (audit_tick post s) =
          audit_posted s @ audit_pending s" for s
    by (simp add: audit_tick_def audit_pending_def audit_posted_send_batch)
qed (simp_all add: audit_record_def audit_pending_def audit_posted_def)

definition audit_inv :: "'e audit_logger \<Rightarrow> bool" where
  "audit_inv s \<longleftrightarrow> length (batch s) < 100 \<and>
     list_all (\<lambda>(url, b). url = endpoint s \<and> b \<noteq> [] \<and> length b \<le> 100) (posts s) \<and>
     subseq (accepted s) (audit_posted s)"

lemma subseq_accepted_send:
  assumes "subseq (accepted s) (audit_posted s)"
  shows "subseq (accepted (send_batch post s)) (audit_posted (send_batch post s))"
  using accepted_send_batch [of post s] assms
  by (auto simp: audit_posted_send_batch intro: list_emb_append_mono list_emb_append2)

lemma audit_inv_send:
  assumes "audit_inv s \<or> audit_inv (s\<lparr>batch := []\<rparr>)" "length (batch s) \<le> 100"
  shows "audit_inv ((send_batch post s)\<lparr>batch := []\<rparr>)"
proof -
  have "subseq (accepted s) (audit_posted s)" using assms(1) by (auto simp: audit_inv_def)
  from subseq_accepted_send [OF this] assms show ?thesis
    by (auto simp: audit_inv_def posts_send_batch)
qed

lemma audit_inv_recv [step_inv_intros]: "audit_inv s \<Longrightarrow> audit_inv (audit_recv post s)"
proof (cases "queue s")
  case (Cons ev q)
  assume inv: "audit_inv s"
  let ?s = "s\<lparr>queue := q, batch := batch s @ [ev]\<rparr>"
  have "audit_inv (?s\<lparr>batch := []\<rparr>)" "length (batch ?s) \<le> 100"
    using inv by (auto simp: audit_inv_def)
  then have "audit_inv ((send_batch post ?s)\<lparr>batch := []\<rparr>)" by (intro audit_inv_send) simp_all
  with inv Cons show ?thesis
    by (cases "length (batch s) < 99") (auto simp: audit_recv_cases not_less audit_inv_def)
qed (simp add: audit_recv_cases)

lemma audit_inv_tick [step_inv_intros]: "audit_inv s \<Longrightarrow> audit_inv (audit_tick post s)"
  using audit_inv_send [of s post] by (auto simp: audit_tick_def audit_inv_def)

lemma audit_inv_record [step_inv_intros]: "audit_inv s \<Longrightarrow> audit_inv (audit_record ev s)"
  by (simp add: audit_inv_def audit_record_def audit_posted_def)

lemma audit_inv_new [simp]: "audit_inv (audit_new cfg env)"
  by (simp add: audit_inv_def audit_new_def Let_def)

text \<open>The calls on a logger and its worker, as one machine.\<close>

fun audit_exec :: "'e http_post \<Rightarrow> 'e + bool \<Rightarrow> 'e audit_logger \<Rightarrow> 'e audit_logger" where
  "audit_exec post (Inl ev) s = audit_record ev s"
| "audit_exec post (Inr b) s = (if b then audit_recv post s else audit_tick post s)"

interpretation audit_machine: call_machine "audit_exec post" "\<lambda>_. True" audit_inv for post
proof
  fix c and s :: "'a audit_logger"
  assume "audit_inv s"
  then show "audit_inv (audit_exec post c s)" by (cases c) (auto intro: step_inv_intros)
qed

lemma audit_exec_run1: "audit_exec post = audit_flow.run1 post"
proof (intro ext)
  show "audit_exec post c s = audit_flow.run1 post c s" for c s
    by (cases c) simp_all
qed

subsection \<open>Draining\<close>

lemma recv_queue: "queue (audit_recv post s) = tl (queue s)"
  by (cases "queue s"; cases "length (batch s) < 99") (simp_all add: audit_recv_cases not_less)

lemma recvs_queue: "queue ((audit_recv post ^^ n) s) = drop n (queue s)"
  by (induction n) (simp_all add: recv_queue tl_drop drop_Suc)

lemma recvs_inv: "audit_inv s \<Longrightarrow> audit_inv ((audit_recv post ^^ n) s)"
  by (induction n) (auto intro: step_inv_intros)

lemma recvs_flow:
  "audit_posted ((audit_recv post ^^ n) s) @ audit_pending ((audit_recv post ^^ n) s) =
     audit_posted s @ audit_pending s"
  by (induction n) (simp_all add: audit_flow.recv_flow)

lemma tick_empty [simp]: "batch (audit_tick post s) = []" "queue (audit_tick post s) = queue s"
  by (simp_all add: audit_tick_def)

definition audit_drain :: "'e http_post \<Rightarrow> 'e audit_logger \<Rightarrow> 'e audit_logger" where
  "audit_drain post s = audit_tick post ((audit_recv post ^^ length (queue s)) s)"

lemma drain_pending: "audit_pending (audit_drain post s) = []"
  by (simp add: audit_drain_def audit_pending_def recvs_queue)

lemma drain_posted: "audit_posted (audit_drain post s) = audit_posted s @ audit_pending s"
  using audit_flow.tick_flow [of post "(audit_recv post ^^ length (queue s)) s"]
    recvs_flow [of "length (queue s)" post s] drain_pending [of post s]
  by (simp add: audit_drain_def)

lemma accepted_none:
  assumes "\<And>url b. \<not> (\<exists>st. post url b = Inr st \<and> is_success st)"
  shows "accepted (audit_recv post s) = accepted s" "accepted (audit_tick post s) = accepted s"
proof -
  have send: "accepted (send_batch post s) = accepted s" for s
    using assms [of "endpoint s" "batch s"] by (auto simp: send_batch_def Let_def split: sum.splits)
  show "accepted (audit_tick post s) = accepted s" by (simp add: audit_tick_def send)
  show "accepted (audit_recv post s) = accepted s"
    by (cases "queue s"; cases "length (batch s) < 99") (simp_all add: audit_recv_cases not_less send)
qed

section \<open>gateway\<close>

record gw_actor =
  actor_ident :: string
  actor_type :: string
  actor_roles :: "string list"
  actor_tenant_id :: "string option"

record gw_action =
  action_name :: string
  action_type :: string

record gw_resource =
  resource_type :: string
  resource_name :: string
  resource_provider :: string
  resource_model :: string

record gw_result_details =
  result_status :: string
  result_reason :: string
  result_policy_id :: "string option"

record gw_audit_event =
  gw_event_type :: string
  gw_event_time :: string
  gw_severity :: u8
  event_actor :: gw_actor
  event_action :: gw_action
  event_resource :: gw_resource
  event_result :: gw_result_details
  gw_correlation_id :: string
  gw_metadata :: "string \<rightharpoonup> string"

text \<open>
  This crate's logger adds a switch, and its endpoint comes from an argument; its worker is
  translated from its own text and shown below to be that of rust-gateway.
\<close>

record 'e gw_audit_logger =
  worker :: "'e audit_logger"
  logger_enabled :: bool

definition gw_audit_new :: "string option \<Rightarrow> 'e gw_audit_logger" where
  "gw_audit_new url =
     \<lparr>worker =
        \<lparr>queue = [], batch = [], posts = [], accepted = [],
         endpoint =
           trim_end_matches CHR ''/'' (unwrap_or url ''http://appgate-control-plane:8080'')
             @ ''/v1/audit/batch''\<rparr>,
      logger_enabled = True\<rparr>"

definition gw_audit_new_disabled :: "'e gw_audit_logger" where
  "gw_audit_new_disabled =
     \<lparr>worker = \<lparr>queue = [], batch = [], posts = [], accepted = [], endpoint = []\<rparr>,
      logger_enabled = False\<rparr>"

definition gw_audit_record :: "'e \<Rightarrow> 'e gw_audit_logger \<Rightarrow> 'e gw_audit_logger" where
  "gw_audit_record ev s =
     (if \<not> logger_enabled s then s else s\<lparr>worker := audit_record ev (worker s)\<rparr>)"

definition gw_send_batch :: "'e http_post \<Rightarrow> 'e audit_logger \<Rightarrow> 'e audit_logger" where
  "gw_send_batch post w =
     (if batch w = [] then w
      else
        (let w' = w\<lparr>posts := posts w @ [(endpoint w, batch w)]\<rparr> in
         case post (endpoint w) (batch w) of
           Inl e \<Rightarrow> w'
         | Inr st \<Rightarrow> if is_success st then w'\<lparr>accepted := accepted w @ batch w\<rparr> else w'))"

definition gw_audit_recv :: "'e http_post \<Rightarrow> 'e gw_audit_logger \<Rightarrow> 'e gw_audit_logger" where
  "gw_audit_recv post s =
     (case queue (worker s) of
        [] \<Rightarrow> s
      | ev # q \<Rightarrow>
          (let w = (worker s)\<lparr>queue := q, batch := batch (worker s) @ [ev]\<rparr> in
           s\<lparr>worker :=
               (if length (batch w) \<ge> 100 then (gw_send_batch post w)\<lparr>batch := []\<rparr> else w)\<rparr>))"

definition gw_audit_tick :: "'e http_post \<Rightarrow> 'e gw_audit_logger \<Rightarrow> 'e gw_audit_logger" where
  "gw_audit_tick post s =
     (if batch (worker s) \<noteq> []
      then s\<lparr>worker := (gw_send_batch post (worker s))\<lparr>batch := []\<rparr>\<rparr> else s)"

lemma gw_send_batch_same: "gw_send_batch = send_batch"
  by (auto simp: fun_eq_iff gw_send_batch_def send_batch_def Let_def split: sum.split)

lemma gw_worker_same:
  "gw_audit_recv post s = s\<lparr>worker := audit_recv post (worker s)\<rparr>"
  "gw_audit_tick post s = s\<lparr>worker := audit_tick post (worker s)\<rparr>"
  by (simp_all add: gw_audit_recv_def gw_audit_tick_def audit_recv_def audit_tick_def
      gw_send_batch_same Let_def split: list.split)

fun gw_audit_exec :: "'e http_post \<Rightarrow> 'e + bool \<Rightarrow> 'e gw_audit_logger \<Rightarrow> 'e gw_audit_logger" where
  "gw_audit_exec post (Inl ev) s = gw_audit_record ev s"
| "gw_audit_exec post (Inr b) s = (if b then gw_audit_recv post s else gw_audit_tick post s)"

interpretation gw_audit_flow: batching_worker gw_audit_record "gw_audit_recv post"
  "gw_audit_tick post" logger_enabled "\<lambda>s. audit_pending (worker s)" "\<lambda>s. audit_posted (worker s)"
  for post
  by unfold_locales
    (simp_all add: gw_audit_record_def gw_worker_same audit_flow.rec_flow
      audit_flow.recv_flow audit_flow.tick_flow)

lemma gw_audit_exec_run1: "gw_audit_exec post = gw_audit_flow.run1 post"
proof (intro ext)
  show "gw_audit_exec post c s = gw_audit_flow.run1 post c s" for c s
    by (cases c) simp_all
qed

section \<open>Properties\<close>

text \<open>
  Claim C9. The rust-gateway logger loses, repeats and reorders nothing on its way to the control
  plane: after any interleaving of recorded events, channel branches and timer branches, the
  events posted so far followed by those in the batch and the channel are exactly the recorded
  events in order.
\<close>

theorem audit_conservation:
  "audit_posted (fold (audit_exec post) cs (audit_new cfg env)) @
   audit_pending (fold (audit_exec post) cs (audit_new cfg env)) = [ev. Inl ev \<leftarrow> cs]"
  using audit_flow.run_flow [of post cs "audit_new cfg env"]
  by (simp add: audit_exec_run1 audit_new_def audit_posted_def audit_pending_def Let_def)

text \<open>
  Claim C35. Every request the rust-gateway logger posts goes to its endpoint with between 1 and
  100 events, the batch it holds back stays below 100, and the events the control plane accepted
  are a subsequence of those recorded.
\<close>

theorem audit_batches_bounded:
  "let s = fold (audit_exec post) cs (audit_new cfg env)
   in length (batch s) < 100 \<and>
      list_all (\<lambda>(url, b). url = endpoint s \<and> 1 \<le> length b \<and> length b \<le> 100) (posts s) \<and>
      subseq (accepted s) [ev. Inl ev \<leftarrow> cs]"
proof -
  let ?s = "fold (audit_exec post) cs (audit_new cfg env)"
  have inv: "audit_inv ?s" by (rule audit_machine.fold_inv) (simp_all add: list_all_iff)
  have flow: "audit_posted ?s @ audit_pending ?s = [ev. Inl ev \<leftarrow> cs]"
    using audit_flow.run_flow [of post cs "audit_new cfg env"]
    by (simp add: audit_exec_run1 audit_new_def audit_posted_def audit_pending_def Let_def)
  have "subseq (accepted ?s) (audit_posted ?s @ audit_pending ?s)"
    using inv by (auto simp: audit_inv_def intro: list_emb_append2 subseq_rev_drop_many
        list_emb_append_mono [where ys = "[]", simplified])
  with inv flow show ?thesis
    by (auto simp: audit_inv_def Let_def list_all_iff Suc_le_eq)
qed

text \<open>
  Once the worker has received what is queued and the timer has fired, every recorded
  event has been posted and nothing is held back; but a batch that the control plane rejects (or
  that cannot be sent) is gone: if no post succeeds, no event is ever accepted although all were
  posted.
\<close>

theorem audit_drains_without_retry:
  "audit_pending (audit_drain post s) = [] \<and>
   audit_posted (audit_drain post s) = audit_posted s @ audit_pending s \<and>
   accepted (audit_drain (\<lambda>_ _. Inl err) s) = accepted s"
proof -
  have none: "\<not> (\<exists>st. (Inl err :: string + u16) = Inr st \<and> is_success st)" by simp
  have "accepted ((audit_recv (\<lambda>_ _. Inl err) ^^ n) s) = accepted s" for n
    using none by (induction n) (simp_all add: accepted_none)
  then show ?thesis
    using none by (simp add: drain_pending drain_posted) (simp add: audit_drain_def accepted_none)
qed

text \<open>
  The gateway crate's logger, when enabled, has the same flow; when disabled it posts
  nothing, whatever is recorded.
\<close>

theorem gw_audit_flow_switch:
  "(let s = fold (gw_audit_exec post) cs (gw_audit_new url)
    in audit_posted (worker s) @ audit_pending (worker s) = [ev. Inl ev \<leftarrow> cs]) \<and>
   (let s = fold (gw_audit_exec post) cs gw_audit_new_disabled
    in audit_posted (worker s) = [] \<and> audit_pending (worker s) = [])"
  using gw_audit_flow.run_flow [of post cs "gw_audit_new url"]
    gw_audit_flow.run_flow [of post cs gw_audit_new_disabled]
  by (simp add: gw_audit_exec_run1 gw_audit_new_def gw_audit_new_disabled_def audit_posted_def
      audit_pending_def Let_def)

text \<open>
  The audit endpoint is the same whether or not the control plane's URL ends in
  slashes, and in rust-gateway it does not depend on the audit configuration: the configured
  \<open>endpoint\<close> is never used.
\<close>

theorem audit_endpoint_normalised:
  "endpoint (audit_new cfg (env(''APPGATE_CONTROL_PLANE_URL'' \<mapsto> u @ ''/''))) =
     endpoint (audit_new cfg' (env'(''APPGATE_CONTROL_PLANE_URL'' \<mapsto> u))) \<and>
   endpoint (worker (gw_audit_new (Some (u @ ''/'')))) = endpoint (worker (gw_audit_new (Some u)))"
  by (simp add: audit_new_def gw_audit_new_def unwrap_or_def Let_def)

end
