(* ===== verification/Response_Cache.thy ===== *)
theory Response_Cache
  imports Config
begin

text \<open>
  \<open>rust-gateway/src/cache.rs\<close>. The \<open>moka\<close> cache is the parameter \<open>moka_ops\<close> over an abstract state; what
  it keeps, and for how long, is its own affair. The code decides when it exists at all, which
  limits it is built with, and how it weighs an entry.
\<close>

section \<open>State and operations\<close>

record cached_response =
  cr_status :: u16
  cached_headers :: "(string \<times> string) list"
  cached_body :: bytes

text \<open>The closure given to \<open>weigher\<close>: a \<open>usize\<close> sum, cast to \<open>u32\<close>.\<close>

definition weigh :: "cached_response \<Rightarrow> u32" where
  "weigh r =
     ucast ((of_nat (length (cached_body r)) :: usize) +
            sum_list (map (\<lambda>(k, v). of_nat (length k) + of_nat (length v)) (cached_headers r)))"

record cache_options =
  time_to_live :: nat
  max_capacity :: u64
  weigher :: "cached_response \<Rightarrow> u32"

record 'm moka_ops =
  moka_build :: "cache_options \<Rightarrow> 'm"
  moka_get :: "string \<Rightarrow> 'm \<Rightarrow> cached_response option \<times> 'm"
  moka_insert :: "string \<Rightarrow> cached_response \<Rightarrow> 'm \<Rightarrow> 'm"
  moka_invalidate :: "string \<Rightarrow> 'm \<Rightarrow> 'm"
  moka_invalidate_all :: "'m \<Rightarrow> 'm"
  moka_entry_count :: "'m \<Rightarrow> u64"

record 'm response_cache =
  inner :: "'m option"
  enabled_flag :: bool

definition cache_new :: "'m moka_ops \<Rightarrow> gateway_config \<Rightarrow> 'm response_cache" where
  "cache_new ops config =
     (let cache_cfg = cache config;
          ttl = duration_secs (unwrap_or (ttl_secs cache_cfg) 60);
          max = unwrap_or (max_size cache_cfg) 10000
      in \<lparr>inner = (if cache_enabled cache_cfg
                   then Some (moka_build ops \<lparr>time_to_live = ttl, max_capacity = max, weigher = weigh\<rparr>)
                   else None),
          enabled_flag = cache_enabled cache_cfg\<rparr>)"

definition cache_is_enabled :: "'m response_cache \<Rightarrow> bool" where
  "cache_is_enabled c = enabled_flag c"

definition cache_get ::
  "'m moka_ops \<Rightarrow> string \<Rightarrow> 'm response_cache \<Rightarrow> cached_response option \<times> 'm response_cache" where
  "cache_get ops key c =
     (case inner c of
        Some m \<Rightarrow> (let (r, m') = moka_get ops key m in (r, c\<lparr>inner := Some m'\<rparr>))
      | None \<Rightarrow> (None, c))"

definition cache_set ::
  "'m moka_ops \<Rightarrow> string \<Rightarrow> cached_response \<Rightarrow> 'm response_cache \<Rightarrow> 'm response_cache" where
  "cache_set ops key response c =
     (case inner c of Some m \<Rightarrow> c\<lparr>inner := Some (moka_insert ops key response m)\<rparr> | None \<Rightarrow> c)"

definition cache_invalidate :: "'m moka_ops \<Rightarrow> string \<Rightarrow> 'm response_cache \<Rightarrow> 'm response_cache" where
  "cache_invalidate ops key c =
     (case inner c of Some m \<Rightarrow> c\<lparr>inner := Some (moka_invalidate ops key m)\<rparr> | None \<Rightarrow> c)"

definition cache_clear :: "'m moka_ops \<Rightarrow> 'm response_cache \<Rightarrow> 'm response_cache" where
  "cache_clear ops c =
     (case inner c of Some m \<Rightarrow> c\<lparr>inner := Some (moka_invalidate_all ops m)\<rparr> | None \<Rightarrow> c)"

definition cache_entry_count :: "'m moka_ops \<Rightarrow> 'm response_cache \<Rightarrow> u64" where
  "cache_entry_count ops c = (case inner c of Some m \<Rightarrow> moka_entry_count ops m | None \<Rightarrow> 0)"

text \<open>Sequences of calls; a lookup may change the state too (it is counted as a use).\<close>

datatype cache_call = Get string | Set string cached_response | Invalidate string | Clear

fun cache_exec :: "'m moka_ops \<Rightarrow> cache_call \<Rightarrow> 'm response_cache \<Rightarrow> 'm response_cache" where
  "cache_exec ops (Get k) c = snd (cache_get ops k c)"
| "cache_exec ops (Set k r) c = cache_set ops k r c"
| "cache_exec ops (Invalidate k) c = cache_invalidate ops k c"
| "cache_exec ops Clear c = cache_clear ops c"

section \<open>Lemmas\<close>

lemmas cache_defs =
  cache_get_def cache_set_def cache_invalidate_def cache_clear_def cache_entry_count_def

lemma cache_disabled_run:
  "inner c = None \<Longrightarrow> fold (cache_exec ops) as c = c"
proof (induction as)
  case (Cons a as)
  then have "cache_exec ops a c = c" by (cases a) (simp_all add: cache_defs)
  with Cons show ?case by simp
qed simp

section \<open>Properties\<close>

text \<open>An instance that keeps everything.\<close>

definition map_moka :: "(string \<rightharpoonup> cached_response) moka_ops" where
  "map_moka =
     \<lparr>moka_build = (\<lambda>_. Map.empty), moka_get = (\<lambda>k m. (m k, m)), moka_insert = (\<lambda>k r m. m(k \<mapsto> r)),
      moka_invalidate = (\<lambda>k m. m(k := None)), moka_invalidate_all = (\<lambda>_. Map.empty),
      moka_entry_count = (\<lambda>_. 0)\<rparr>"

text \<open>
  A disabled cache is inert: whatever is called on it, it stays as it was, every lookup
  misses and it counts no entries. This is the cache of the derived default configuration.
\<close>

theorem disabled_cache_inert:
  "fst (cache_get ops k (fold (cache_exec ops) as (cache_new ops gateway_config_default))) = None \<and>
   cache_entry_count ops (fold (cache_exec ops) as (cache_new ops gateway_config_default)) = 0 \<and>
   \<not> cache_is_enabled (fold (cache_exec ops) as (cache_new ops gateway_config_default))"
proof -
  have "inner (cache_new ops gateway_config_default) = None"
    by (simp add: cache_new_def gateway_config_default_def cache_config_default_def Let_def)
  then show ?thesis
    by (simp add: cache_disabled_run)
      (simp add: cache_get_def cache_entry_count_def cache_is_enabled_def cache_new_def
        gateway_config_default_def cache_config_default_def Let_def)
qed

definition entry_size :: "cached_response \<Rightarrow> nat" where
  "entry_size r = length (cached_body r) + sum_list (map (\<lambda>(k, v). length k + length v) (cached_headers r))"

lemma weigh_eq: "weigh r = of_nat (entry_size r)"
proof -
  have "(sum_list (map (\<lambda>(k, v). of_nat (length k) + of_nat (length v)) hs) :: usize) =
        of_nat (sum_list (map (\<lambda>(k, v). length k + length v) hs))" for hs :: "(string \<times> string) list"
    by (induction hs) auto
  then have "weigh r = ucast (of_nat (entry_size r) :: usize)"
    by (simp add: weigh_def entry_size_def)
  then show ?thesis by (simp add: word_unat_eq_iff unsigned_ucast_eq unsigned_of_nat take_bit_eq_mod mod_mod_cancel)
qed

lemma weight_is_size_mod: "unat (weigh r) = entry_size r mod 2 ^ 32"
  by (simp add: weigh_eq unsigned_of_nat take_bit_eq_mod)



end
