(* ===== verification/Circuit_Breaker.thy ===== *)
theory Circuit_Breaker
  imports Config
begin

text \<open>
  \<open>rust-gateway/src/circuit_breaker.rs\<close>, \<open>CircuitBreaker\<close>. The counters are \<open>u32\<close> and wrap
  as in the release profile; \<open>Instant::now()\<close> is an argument. The machine is proved to be a
  refinement of a three-state specification that keeps a failure count only while closed.
\<close>

section \<open>The breaker\<close>

datatype circuit_state = Closed | Open | HalfOpen

record circuit_breaker =
  state :: circuit_state
  failures :: u32
  last_failure :: "instant option"
  success_count :: u32
  config :: circuit_breaker_config

definition cb_new :: "circuit_breaker_config \<Rightarrow> circuit_breaker" where
  "cb_new cfg =
     \<lparr>state = Closed, failures = 0, last_failure = None, success_count = 0, config = cfg\<rparr>"

definition cb_allow :: "instant \<Rightarrow> circuit_breaker \<Rightarrow> bool \<times> circuit_breaker" where
  "cb_allow now cb =
     (case state cb of
        Closed \<Rightarrow> (True, cb)
      | Open \<Rightarrow>
          (case last_failure cb of
             Some since \<Rightarrow>
               if elapsed now since > duration_ms (recovery_timeout_ms (config cb))
               then (True, cb\<lparr>state := HalfOpen, success_count := 0\<rparr>)
               else (False, cb)
           | None \<Rightarrow> (False, cb))
      | HalfOpen \<Rightarrow> (success_count cb < half_open_max_calls (config cb), cb))"

definition cb_record_success :: "circuit_breaker \<Rightarrow> circuit_breaker" where
  "cb_record_success cb =
     (case state cb of
        HalfOpen \<Rightarrow>
          (let cb = cb\<lparr>success_count := success_count cb + 1\<rparr> in
           if success_count cb \<ge> half_open_max_calls (config cb)
           then cb\<lparr>state := Closed, failures := 0, success_count := 0\<rparr>
           else cb)
      | Closed \<Rightarrow> cb\<lparr>failures := saturating_sub (failures cb) 1\<rparr>
      | _ \<Rightarrow> cb)"

definition cb_record_failure :: "instant \<Rightarrow> circuit_breaker \<Rightarrow> circuit_breaker" where
  "cb_record_failure now cb =
     (let cb = cb\<lparr>failures := failures cb + 1, last_failure := Some now\<rparr> in
      if failures cb \<ge> failure_threshold (config cb) then cb\<lparr>state := Open\<rparr> else cb)"

section \<open>Calls and runs\<close>

datatype cb_call = Allow instant | RecordSuccess | RecordFailure instant

fun cb_exec :: "cb_call \<Rightarrow> circuit_breaker \<Rightarrow> bool option \<times> circuit_breaker" where
  "cb_exec (Allow now) cb = (let (b, cb') = cb_allow now cb in (Some b, cb'))"
| "cb_exec RecordSuccess cb = (None, cb_record_success cb)"
| "cb_exec (RecordFailure now) cb = (None, cb_record_failure now cb)"

fun cb_run :: "cb_call list \<Rightarrow> circuit_breaker \<Rightarrow> bool list \<times> circuit_breaker" where
  "cb_run [] cb = ([], cb)"
| "cb_run (c # cs) cb =
     (let (r, cb1) = cb_exec c cb; (rs, cb2) = cb_run cs cb1
      in ((case r of None \<Rightarrow> rs | Some b \<Rightarrow> b # rs), cb2))"

fun is_failure :: "cb_call \<Rightarrow> bool" where
  "is_failure (RecordFailure _) = True"
| "is_failure _ = False"

abbreviation n_failures :: "cb_call list \<Rightarrow> nat" where
  "n_failures cs \<equiv> length (filter is_failure cs)"

section \<open>Specification: a three-state machine\<close>

text \<open>
  The specification counts failures only while closed, remembers the time of the last failure
  only while open, and counts successes only while half-open.
\<close>

datatype cb_spec = SClosed nat | SOpen instant | SHalfOpen nat

fun spec_allow :: "circuit_breaker_config \<Rightarrow> instant \<Rightarrow> cb_spec \<Rightarrow> bool \<times> cb_spec" where
  "spec_allow cfg now (SClosed n) = (True, SClosed n)"
| "spec_allow cfg now (SOpen t) =
     (if now - t > duration_ms (recovery_timeout_ms cfg) then (True, SHalfOpen 0)
      else (False, SOpen t))"
| "spec_allow cfg now (SHalfOpen k) = (k < unat (half_open_max_calls cfg), SHalfOpen k)"

fun spec_success :: "circuit_breaker_config \<Rightarrow> cb_spec \<Rightarrow> cb_spec" where
  "spec_success cfg (SClosed n) = SClosed (n - 1)"
| "spec_success cfg (SOpen t) = SOpen t"
| "spec_success cfg (SHalfOpen k) =
     (if k + 1 \<ge> unat (half_open_max_calls cfg) then SClosed 0 else SHalfOpen (k + 1))"

fun spec_failure :: "circuit_breaker_config \<Rightarrow> instant \<Rightarrow> cb_spec \<Rightarrow> cb_spec" where
  "spec_failure cfg now (SClosed n) =
     (if n + 1 \<ge> unat (failure_threshold cfg) then SOpen now else SClosed (n + 1))"
| "spec_failure cfg now (SOpen t) = SOpen now"
| "spec_failure cfg now (SHalfOpen k) = SOpen now"

fun spec_run :: "circuit_breaker_config \<Rightarrow> cb_call list \<Rightarrow> cb_spec \<Rightarrow> bool list \<times> cb_spec" where
  "spec_run cfg [] s = ([], s)"
| "spec_run cfg (Allow now # cs) s =
     (let (b, s1) = spec_allow cfg now s; (rs, s2) = spec_run cfg cs s1 in (b # rs, s2))"
| "spec_run cfg (RecordSuccess # cs) s = spec_run cfg cs (spec_success cfg s)"
| "spec_run cfg (RecordFailure now # cs) s = spec_run cfg cs (spec_failure cfg now s)"

definition cb_abs :: "circuit_breaker \<Rightarrow> cb_spec" where
  "cb_abs cb =
     (case state cb of
        Closed \<Rightarrow> SClosed (unat (failures cb))
      | Open \<Rightarrow> SOpen (case last_failure cb of None \<Rightarrow> 0 | Some t \<Rightarrow> t)
      | HalfOpen \<Rightarrow> SHalfOpen (unat (success_count cb)))"

section \<open>The invariant\<close>

text \<open>
  An open breaker has a failure time (so it can always recover); a breaker that is not closed
  has at least \<open>failure_threshold\<close> failures on its counter (so one more failure while half-open
  reopens it); a closed one has fewer; a half-open one has fewer successes than it needs.
\<close>

definition cb_inv :: "circuit_breaker \<Rightarrow> bool" where
  "cb_inv cb \<longleftrightarrow>
     (state cb = Open \<longrightarrow> last_failure cb \<noteq> None) \<and>
     (state cb \<noteq> Closed \<longrightarrow> failure_threshold (config cb) \<le> failures cb) \<and>
     (state cb = Closed \<longrightarrow> failures cb = 0 \<or> failures cb < failure_threshold (config cb)) \<and>
     (state cb = HalfOpen \<longrightarrow>
        success_count cb = 0 \<or> success_count cb < half_open_max_calls (config cb))"

lemmas cb_defs = cb_allow_def cb_record_success_def cb_record_failure_def Let_def

lemma cb_new_simps [simp]:
  "state (cb_new cfg) = Closed" "failures (cb_new cfg) = 0" "config (cb_new cfg) = cfg"
  by (simp_all add: cb_new_def)

lemma cb_inv_new [simp]: "cb_inv (cb_new cfg)"
  by (simp add: cb_inv_def)

lemma saturating_sub_zero_or_less:
  fixes a b :: "'a::len word"
  assumes "a = 0 \<or> a < b"
  shows "saturating_sub a c = 0 \<or> saturating_sub a c < b"
  using assms by (auto simp: word_less_nat_alt)

lemma cb_inv_allow [step_inv_intros]: "cb_inv cb \<Longrightarrow> cb_inv (snd (cb_allow now cb))"
  by (auto simp: cb_inv_def cb_allow_def split: circuit_state.splits option.splits)

lemma cb_inv_success [step_inv_intros]: "cb_inv cb \<Longrightarrow> cb_inv (cb_record_success cb)"
  using saturating_sub_zero_or_less [of "failures cb" "failure_threshold (config cb)" 1]
  by (auto simp: cb_inv_def cb_record_success_def Let_def not_le split: circuit_state.splits)

lemma Suc_word_le:
  fixes a b :: "'a::len word"
  assumes "b \<le> a" and "unat a + 1 < 2 ^ LENGTH('a)"
  shows "b \<le> a + 1"
  using assms by (simp add: word_le_nat_alt unat_Suc_word)

lemma cb_inv_failure [step_inv_intros]:
  assumes "cb_inv cb" and "unat (failures cb) + 1 < 2 ^ 32"
  shows "cb_inv (cb_record_failure now cb)"
proof -
  have "failure_threshold (config cb) \<le> failures cb \<Longrightarrow> failure_threshold (config cb) \<le> failures cb + 1"
    using Suc_word_le [of "failure_threshold (config cb)" "failures cb"] assms(2) by simp
  with assms(1) show ?thesis
    by (cases "state cb") (auto simp: cb_inv_def cb_record_failure_def Let_def not_le)
qed

lemma config_kept [simp]:
  "config (snd (cb_allow now cb)) = config cb"
  "config (cb_record_success cb) = config cb"
  "config (cb_record_failure now cb) = config cb"
  by (auto simp: cb_defs split: circuit_state.splits option.splits)

section \<open>Refinement, call by call\<close>

lemma abs_new [simp]: "cb_abs (cb_new cfg) = SClosed 0"
  by (simp add: cb_abs_def cb_new_def)

lemma abs_allow:
  assumes "cb_inv cb"
  shows "spec_allow (config cb) now (cb_abs cb) =
           (fst (cb_allow now cb), cb_abs (snd (cb_allow now cb)))"
  using assms
  by (auto simp: cb_inv_def cb_allow_def cb_abs_def elapsed_def word_less_nat_alt
      split: circuit_state.splits option.splits)

lemma unat_success_count:
  assumes "cb_inv cb" and "state cb = HalfOpen"
  shows "unat (success_count cb + 1) = unat (success_count cb) + 1"
  using assms by (auto simp: cb_inv_def dest: unat_Suc_bounded)

lemma abs_success:
  assumes "cb_inv cb"
  shows "spec_success (config cb) (cb_abs cb) = cb_abs (cb_record_success cb)"
  using assms unat_success_count [OF assms]
  by (auto simp: cb_record_success_def cb_abs_def Let_def word_le_nat_alt split: circuit_state.splits)

lemma abs_failure:
  assumes "cb_inv cb" and "unat (failures cb) + 1 < 2 ^ 32"
  shows "spec_failure (config cb) now (cb_abs cb) = cb_abs (cb_record_failure now cb)"
proof -
  have Suc: "unat (failures cb + 1) = unat (failures cb) + 1"
    using assms(2) by (simp add: unat_Suc_word)
  have "state cb \<noteq> Closed \<Longrightarrow> failure_threshold (config cb) \<le> failures cb + 1"
    using assms Suc by (simp add: cb_inv_def word_le_nat_alt)
  with Suc show ?thesis
    by (cases "state cb") (auto simp: cb_record_failure_def cb_abs_def Let_def word_le_nat_alt)
qed

lemma failures_grow:
  "unat (failures (snd (cb_allow now cb))) = unat (failures cb)"
  "unat (failures (cb_record_success cb)) \<le> unat (failures cb)"
  "unat (failures (cb_record_failure now cb)) \<le> unat (failures cb) + 1"
  by (auto simp: cb_defs unat_word_ariths split: circuit_state.splits option.splits)

lemma run_refines:
  assumes "cb_inv cb" and "unat (failures cb) + n_failures cs < 2 ^ 32"
  shows "cb_inv (snd (cb_run cs cb)) \<and> config (snd (cb_run cs cb)) = config cb \<and>
         spec_run (config cb) cs (cb_abs cb) = (fst (cb_run cs cb), cb_abs (snd (cb_run cs cb)))"
  using assms
proof (induction cs arbitrary: cb)
  case Nil
  then show ?case by simp
next
  case (Cons c cs)
  show ?case
  proof (cases c)
    case (Allow now)
    let ?cb = "snd (cb_allow now cb)"
    have "cb_inv ?cb" and "unat (failures ?cb) + n_failures cs < 2 ^ 32"
      using Cons.prems Allow by (auto intro: step_inv_intros simp: failures_grow)
    from Cons.IH [OF this] show ?thesis
      using abs_allow [OF Cons.prems(1), of now] Allow by (auto simp: case_prod_unfold Let_def)
  next
    case RecordSuccess
    let ?cb = "cb_record_success cb"
    have "cb_inv ?cb" and "unat (failures ?cb) + n_failures cs < 2 ^ 32"
      using Cons.prems RecordSuccess failures_grow(2) [of cb] by (auto intro: step_inv_intros)
    from Cons.IH [OF this] show ?thesis
      using abs_success [OF Cons.prems(1)] RecordSuccess by (auto simp: case_prod_unfold Let_def)
  next
    case (RecordFailure now)
    let ?cb = "cb_record_failure now cb"
    have b: "unat (failures cb) + 1 < 2 ^ 32"
      and "cb_inv ?cb" and "unat (failures ?cb) + n_failures cs < 2 ^ 32"
      using Cons.prems RecordFailure failures_grow(3) [of now cb]
      by (auto intro!: step_inv_intros)
    from Cons.IH [OF this(2,3)] show ?thesis
      using abs_failure [OF Cons.prems(1) b] RecordFailure by (auto simp: case_prod_unfold Let_def)
  qed
qed


section \<open>Runs of a single kind of call\<close>

lemma run_failures:
  "cb_run (map RecordFailure ts) cb = ([], fold cb_record_failure ts cb)"
  by (induction ts arbitrary: cb) auto

lemma run_successes:
  "cb_run (replicate k RecordSuccess) cb = ([], (cb_record_success ^^ k) cb)"
  by (induction k arbitrary: cb) (auto simp: funpow_swap1)

lemma record_failure_open [simp]:
  assumes "cb_inv cb" "state cb \<noteq> Closed" "unat (failures cb) + 1 < 2 ^ 32"
  shows "state (cb_record_failure now cb) = Open"
  using Suc_word_le [of "failure_threshold (config cb)" "failures cb"] assms
  by (auto simp: cb_record_failure_def cb_inv_def Let_def)

lemma record_failure_closed:
  assumes "state cb = Closed" "unat (failures cb) + 1 < 2 ^ 32"
  shows "state (cb_record_failure now cb) =
           (if unat (failures cb) + 1 \<ge> unat (failure_threshold (config cb)) then Open else Closed)"
  using assms by (auto simp: cb_record_failure_def Let_def word_le_nat_alt unat_Suc_word)

lemma failures_after_failure:
  assumes "unat (failures cb) + 1 < 2 ^ 32"
  shows "unat (failures (cb_record_failure now cb)) = unat (failures cb) + 1"
  using assms by (auto simp: cb_record_failure_def Let_def unat_Suc_word)

lemma fold_failures:
  assumes "cb_inv cb" "unat (failures cb) + length ts < 2 ^ 32"
  shows "cb_inv (fold cb_record_failure ts cb) \<and>
         config (fold cb_record_failure ts cb) = config cb \<and>
         unat (failures (fold cb_record_failure ts cb)) = unat (failures cb) + length ts"
  using assms
proof (induction ts arbitrary: cb)
  case Nil
  then show ?case by simp
next
  case (Cons t ts)
  have b: "unat (failures cb) + 1 < 2 ^ 32" using Cons.prems(2) by simp
  have "cb_inv (cb_record_failure t cb)" using Cons.prems(1) b by (rule cb_inv_failure)
  with Cons.IH [of "cb_record_failure t cb"] Cons.prems(2) show ?case
    by (simp add: failures_after_failure [OF b])
qed

lemma half_open_successes:
  assumes "state cb = HalfOpen" "success_count cb = 0" "k < unat (half_open_max_calls (config cb))"
  shows "(cb_record_success ^^ k) cb = cb\<lparr>success_count := of_nat k\<rparr>"
  using assms(3)
proof (induction k)
  case 0
  then show ?case using assms(2) by simp
next
  case (Suc k)
  then have "unat (of_nat (Suc k) :: u32) = Suc k"
    by (intro unat_of_nat_less order.strict_trans [OF Suc.prems] unsigned_less)
  then have "(1 + of_nat k :: u32) < half_open_max_calls (config cb)"
    using Suc.prems by (simp add: word_less_nat_alt)
  with Suc assms(1) show ?case
    by (simp add: cb_record_success_def Let_def not_le [symmetric] add.commute)
qed

lemma half_open_last_success:
  assumes "state cb = HalfOpen" "success_count cb = 0"
    and "k = max 1 (unat (half_open_max_calls (config cb)))"
  shows "(cb_record_success ^^ k) cb = cb\<lparr>state := Closed, failures := 0, success_count := 0\<rparr>"
proof (cases "half_open_max_calls (config cb) = 0")
  case True
  with assms show ?thesis by (simp add: cb_record_success_def Let_def)
next
  case False
  define j where "j = unat (half_open_max_calls (config cb)) - 1"
  have pos: "0 < unat (half_open_max_calls (config cb))" using False by (simp add: unat_gt_0)
  have "k = Suc j" using assms(3) pos by (simp add: j_def max_def)
  moreover have j: "j < unat (half_open_max_calls (config cb))" using pos by (simp add: j_def)
  moreover have "of_nat (Suc j) = half_open_max_calls (config cb)"
    using pos by (simp add: j_def del: of_nat_Suc)
  ultimately show ?thesis
    using half_open_successes [OF assms(1,2) j] assms(1)
    by (simp add: cb_record_success_def Let_def add.commute)
qed

section \<open>Properties\<close>

text \<open>
  Claim C1. From a new breaker, any sequence of calls with fewer than \<open>2^32\<close> recorded failures
  gives exactly the admissions of the three-state specification, and ends in a state that
  abstracts to the specification's: the \<open>u32\<close> counters, the option of the failure time and the
  counter that is never reset on reopening add no behaviour.
\<close>

theorem breaker_refines_spec:
  assumes "n_failures cs < 2 ^ 32"
  shows "spec_run cfg cs (SClosed 0) =
           (fst (cb_run cs (cb_new cfg)), cb_abs (snd (cb_run cs (cb_new cfg))))"
  using run_refines [of "cb_new cfg" cs] assms by simp

theorem breaker_refines_spec_witness:
  "spec_run circuit_breaker_config_serde [RecordFailure 7, Allow 9] (SClosed 0) =
     (fst (cb_run [RecordFailure 7, Allow 9] (cb_new circuit_breaker_config_serde)),
      cb_abs (snd (cb_run [RecordFailure 7, Allow 9] (cb_new circuit_breaker_config_serde))))"
  by (rule breaker_refines_spec) simp

text \<open>
  The breaker's invariant holds after every sequence of calls on a new breaker with
  fewer than \<open>2^32\<close> recorded failures: an open breaker has a failure time, a breaker that is not
  closed has its failure counter at the threshold or above, a closed one below it, and a
  half-open one has not yet collected its successes.
\<close>

theorem breaker_run_invariant:
  assumes "n_failures cs < 2 ^ 32"
  shows "cb_inv (snd (cb_run cs (cb_new cfg)))"
  using run_refines [of "cb_new cfg" cs] assms by simp

theorem breaker_run_invariant_witness:
  "cb_inv (snd (cb_run [RecordFailure 1, RecordFailure 2, Allow 3, RecordSuccess]
                 (cb_new circuit_breaker_config_serde)))"
  by (rule breaker_run_invariant) simp

text \<open>
  Fail fast: while a breaker opened at time \<open>t\<close> is within its recovery timeout, every
  admission is refused and no call other than a failure changes it, however many calls and
  late successes arrive.
\<close>

theorem open_rejects_until_timeout:
  assumes "state cb = Open" "last_failure cb = Some t"
    and "list_all (\<lambda>c. c = RecordSuccess \<or>
           (\<exists>now. c = Allow now \<and> now - t \<le> duration_ms (recovery_timeout_ms (config cb)))) cs"
  shows "cb_run cs cb = (replicate (length (filter (\<lambda>c. c \<noteq> RecordSuccess) cs)) False, cb)"
  using assms(3)
proof (induction cs)
  case Nil
  then show ?case by simp
next
  case (Cons c cs)
  have "cb_exec c cb = ((if c = RecordSuccess then None else Some False), cb)"
    using Cons.prems assms(1,2)
    by (auto simp: cb_allow_def cb_record_success_def elapsed_def Let_def)
  with Cons show ?case by auto
qed

theorem open_rejects_until_timeout_witness:
  "cb_run [Allow 5, RecordSuccess, Allow 6]
     \<lparr>state = Open, failures = 5, last_failure = Some 4, success_count = 0,
      config = circuit_breaker_config_serde\<rparr> =
   (replicate (length (filter (\<lambda>c. c \<noteq> RecordSuccess) [Allow 5, RecordSuccess, Allow 6])) False,
    \<lparr>state = Open, failures = 5, last_failure = Some 4, success_count = 0,
     config = circuit_breaker_config_serde\<rparr>)"
  by (rule open_rejects_until_timeout [where t = 4])
    (simp_all add: duration_ms_def circuit_breaker_config_serde_def serde_defaults)

text \<open>
  A new breaker that sees only failures trips exactly at its threshold: after \<open>n\<close>
  failures it is open if and only if \<open>n \<ge> 1\<close> and \<open>n\<close> has reached \<open>failure_threshold\<close>.
\<close>

theorem trips_exactly_at_threshold:
  assumes "length ts < 2 ^ 32"
  shows "state (snd (cb_run (map RecordFailure ts) (cb_new cfg))) =
           (if ts \<noteq> [] \<and> unat (failure_threshold cfg) \<le> length ts then Open else Closed)"
  using assms
proof (induction ts rule: rev_induct)
  case Nil
  then show ?case by (simp add: cb_new_def)
next
  case (snoc t ts)
  define cb where "cb = fold cb_record_failure ts (cb_new cfg)"
  have f: "cb_inv cb" "config cb = cfg" "unat (failures cb) = length ts"
    using fold_failures [of "cb_new cfg" ts] snoc.prems by (auto simp: cb_def)
  have b: "unat (failures cb) + 1 < 2 ^ 32" using f(3) snoc.prems by simp
  have st: "state cb = (if ts \<noteq> [] \<and> unat (failure_threshold cfg) \<le> length ts then Open else Closed)"
    using snoc by (simp add: run_failures cb_def)
  have run: "snd (cb_run (map RecordFailure (ts @ [t])) (cb_new cfg)) = cb_record_failure t cb"
    by (simp add: run_failures cb_def del: map_append)
  show ?case
  proof (cases "state cb = Closed")
    case True
    then show ?thesis
      using st f b unfolding run by (auto simp: record_failure_closed split: if_splits)
  next
    case False
    then show ?thesis
      using st f(1) b unfolding run by (auto split: if_splits)
  qed
qed

theorem trips_exactly_at_threshold_witness:
  "state (snd (cb_run (map RecordFailure [1, 2, 3, 4]) (cb_new circuit_breaker_config_serde))) = Closed \<and>
   state (snd (cb_run (map RecordFailure [1, 2, 3, 4, 5]) (cb_new circuit_breaker_config_serde))) = Open"
  using trips_exactly_at_threshold [of "[1, 2, 3, 4]" circuit_breaker_config_serde]
    trips_exactly_at_threshold [of "[1, 2, 3, 4, 5]" circuit_breaker_config_serde]
  by (simp add: circuit_breaker_config_serde_def default_failure_threshold_def)

text \<open>
  Recovery: once the timeout has passed, the next admission is granted, and the breaker
  closes with cleared counters after exactly \<open>max 1 half_open_max_calls\<close> successes, not before.
\<close>

theorem recovers_after_successes:
  assumes "state cb = Open" "last_failure cb = Some t"
    and "now - t > duration_ms (recovery_timeout_ms (config cb))"
    and "k \<le> max 1 (unat (half_open_max_calls (config cb)))"
  shows "cb_run (Allow now # replicate k RecordSuccess) cb =
           ([True],
            if k = max 1 (unat (half_open_max_calls (config cb)))
            then cb\<lparr>state := Closed, failures := 0, success_count := 0\<rparr>
            else cb\<lparr>state := HalfOpen, success_count := of_nat k\<rparr>)"
proof -
  define h where "h = cb\<lparr>state := HalfOpen, success_count := 0\<rparr>"
  have h: "state h = HalfOpen" "success_count h = 0" "config h = config cb"
    by (simp_all add: h_def)
  have run: "cb_run (Allow now # replicate k RecordSuccess) cb = ([True], (cb_record_success ^^ k) h)"
    using assms(1-3) by (simp add: cb_allow_def elapsed_def h_def run_successes)
  show ?thesis
  proof (cases "k = max 1 (unat (half_open_max_calls (config cb)))")
    case True
    with half_open_last_success [OF h(1,2), of k] run h(3) show ?thesis
      by (simp add: h_def)
  next
    case False
    with assms(4) have "k = 0 \<or> k < unat (half_open_max_calls (config h))"
      using h(3) by auto
    then have "(cb_record_success ^^ k) h = h\<lparr>success_count := of_nat k\<rparr>"
      using half_open_successes [OF h(1,2), of k] h(2) by auto
    with False run show ?thesis by (simp add: h_def)
  qed
qed

theorem recovers_after_successes_witness:
  "cb_run (Allow 30000000002 # replicate 3 RecordSuccess)
     \<lparr>state = Open, failures = 5, last_failure = Some 1, success_count = 0,
      config = circuit_breaker_config_serde\<rparr> =
   ([True], \<lparr>state = Closed, failures = 0, last_failure = Some 1, success_count = 0,
      config = circuit_breaker_config_serde\<rparr>)"
  using recovers_after_successes
    [of "\<lparr>state = Open, failures = 5, last_failure = Some 1, success_count = 0,
          config = circuit_breaker_config_serde\<rparr>" 1 30000000002 3]
  by (simp add: duration_ms_def circuit_breaker_config_serde_def serde_defaults)

text \<open>
  A failure while half-open reopens the breaker at once, whatever the number of
  successes already collected, and the recovery timeout starts again: no admission is granted
  until it has passed.
\<close>

theorem half_open_failure_reopens:
  assumes "cb_inv cb" "state cb = HalfOpen" "unat (failures cb) + 1 < 2 ^ 32"
    and "later - now \<le> duration_ms (recovery_timeout_ms (config cb))"
  shows "cb_allow later (cb_record_failure now cb) = (False, cb_record_failure now cb) \<and>
         state (cb_record_failure now cb) = Open"
proof -
  have "state (cb_record_failure now cb) = Open" using assms(1-3) by simp
  moreover have "last_failure (cb_record_failure now cb) = Some now"
    by (simp add: cb_record_failure_def Let_def)
  ultimately show ?thesis using assms(4) by (simp add: cb_allow_def elapsed_def)
qed

theorem half_open_failure_reopens_witness:
  "let cb = \<lparr>state = HalfOpen, failures = 5, last_failure = Some 1, success_count = 2,
             config = circuit_breaker_config_serde\<rparr>
   in cb_allow 60 (cb_record_failure 50 cb) = (False, cb_record_failure 50 cb) \<and>
      state (cb_record_failure 50 cb) = Open"
  unfolding Let_def
  by (rule half_open_failure_reopens)
    (simp_all add: cb_inv_def duration_ms_def circuit_breaker_config_serde_def serde_defaults)

text \<open>
  The half-open state does not bound the calls in flight: as long as no outcome has been
  recorded, every one of any number of admissions is granted (for a positive
  \<open>half_open_max_calls\<close>), since \<open>allow\<close> counts successes and not admissions.
\<close>

theorem half_open_admits_unboundedly:
  assumes "state cb = HalfOpen" "success_count cb < half_open_max_calls (config cb)"
  shows "cb_run (map Allow ts) cb = (replicate (length ts) True, cb)"
  using assms by (induction ts) (simp_all add: cb_allow_def)

theorem half_open_admits_unboundedly_witness:
  "cb_run (map Allow [10, 10, 10, 10, 10])
     \<lparr>state = HalfOpen, failures = 5, last_failure = Some 1, success_count = 0,
      config = circuit_breaker_config_serde\<rparr> =
   (replicate (length [10, 10, 10, 10, 10 :: nat]) True,
    \<lparr>state = HalfOpen, failures = 5, last_failure = Some 1, success_count = 0,
     config = circuit_breaker_config_serde\<rparr>)"
  by (rule half_open_admits_unboundedly)
    (simp_all add: circuit_breaker_config_serde_def serde_defaults)

text \<open>
  With the derived default configuration, which \<open>from_env\<close> falls back to, the breaker
  opens on its first failure and a single success after the first admission closes it again;
  the attribute functions say five failures and three successes.
\<close>

theorem derived_default_breaker:
  "let cfg = circuit_breaker_cfg (from_env (\<lambda>_. Inl e) env);
       opened = cb_record_failure t (cb_new cfg)
   in state opened = Open \<and>
      snd (cb_run [Allow (t + 1), RecordSuccess] opened) =
        cb_new cfg \<lparr>last_failure := Some t\<rparr> \<and>
      default_failure_threshold = 5 \<and> default_half_open_max_calls = 3"
  by (simp add: Let_def from_env_def derived_defaults serde_defaults cb_record_failure_def
      cb_record_success_def cb_allow_def cb_new_def duration_ms_def elapsed_def)

end
