(* ===== verification/Breaker_Registry.thy ===== *)
theory Breaker_Registry
  imports Circuit_Breaker
begin

text \<open>
  \<open>rust-gateway/src/circuit_breaker.rs\<close>, \<open>CircuitBreakerRegistry\<close>: a map from upstream names to
  shared breakers, behind a read-write lock. An \<open>Arc<RwLock<CircuitBreaker>>\<close> is an address into
  a store of cells. \<open>get\<close> is one section under the read lock, and \<open>get_or_create\<close> is that section
  followed, on a miss, by one section under the write lock; between the two any other task may
  run, which the step relation below allows.
\<close>

section \<open>The registry and its lock sections\<close>

type_synonym addr = nat

record registry =
  breakers :: "string \<rightharpoonup> addr"
  cells :: "addr \<rightharpoonup> circuit_breaker"
  next_cell :: addr
  reg_config :: circuit_breaker_config

definition registry_new :: "circuit_breaker_config \<Rightarrow> registry" where
  "registry_new cfg =
     \<lparr>breakers = Map.empty, cells = Map.empty, next_cell = 0, reg_config = cfg\<rparr>"

definition registry_get :: "string \<Rightarrow> registry \<Rightarrow> addr option" where
  "registry_get key r = breakers r key"

definition entry_or_insert :: "string \<Rightarrow> registry \<Rightarrow> addr \<times> registry" where
  "entry_or_insert key r =
     (case breakers r key of
        Some a \<Rightarrow> (a, r)
      | None \<Rightarrow>
          (next_cell r,
           r\<lparr>breakers := (breakers r)(key \<mapsto> next_cell r),
             cells := (cells r)(next_cell r \<mapsto> cb_new (reg_config r)),
             next_cell := next_cell r + 1\<rparr>))"

definition get_or_create :: "string \<Rightarrow> registry \<Rightarrow> addr \<times> registry" where
  "get_or_create key r =
     (case registry_get key r of
        Some a \<Rightarrow> (a, r)
      | None \<Rightarrow> entry_or_insert key r)"

definition breaker_of :: "string \<Rightarrow> registry \<Rightarrow> circuit_breaker option" where
  "breaker_of key r = Option.bind (registry_get key r) (cells r)"

definition with_breaker :: "addr \<Rightarrow> cb_call \<Rightarrow> registry \<Rightarrow> registry" where
  "with_breaker a c r =
     (case cells r a of
        None \<Rightarrow> r
      | Some cb \<Rightarrow> r\<lparr>cells := (cells r)(a \<mapsto> snd (cb_exec c cb))\<rparr>)"

section \<open>Well-formedness\<close>

text \<open>
  Every name has a cell of its own, made from the registry's configuration, and the next
  address is unused.
\<close>

definition registry_wf :: "registry \<Rightarrow> bool" where
  "registry_wf r \<longleftrightarrow>
     (\<forall>k a. breakers r k = Some a \<longrightarrow>
        a < next_cell r \<and> (\<exists>cb. cells r a = Some cb \<and> config cb = reg_config r)) \<and>
     (\<forall>k k' a. breakers r k = Some a \<longrightarrow> breakers r k' = Some a \<longrightarrow> k = k')"

lemmas registry_defs = registry_get_def entry_or_insert_def get_or_create_def

lemma get_or_create_entry: "get_or_create key r = entry_or_insert key r"
  by (auto simp: registry_defs split: option.splits)

lemma wf_new [simp]: "registry_wf (registry_new cfg)"
  by (simp add: registry_wf_def registry_new_def)

lemma wf_entry [step_inv_intros]:
  assumes "registry_wf r"
  shows "registry_wf (snd (entry_or_insert key r))"
proof (cases "breakers r key")
  case None
  have "a \<noteq> next_cell r" if "breakers r k = Some a" for k a
    using assms that by (auto simp: registry_wf_def)
  with assms None show ?thesis
    by (fastforce simp: registry_wf_def entry_or_insert_def)
next
  case Some
  with assms show ?thesis by (simp add: entry_or_insert_def)
qed

lemma config_exec [simp]: "config (snd (cb_exec c cb)) = config cb"
  by (cases c) (auto simp: case_prod_unfold Let_def)

lemma wf_with [step_inv_intros]: "registry_wf r \<Longrightarrow> registry_wf (with_breaker a c r)"
  by (fastforce simp: registry_wf_def with_breaker_def split: option.splits)

section \<open>Interface: a registry of handles\<close>

locale handle_registry =
  fixes get :: "'k \<Rightarrow> 'r \<Rightarrow> 'h option"
    and create :: "'k \<Rightarrow> 'r \<Rightarrow> 'h \<times> 'r"
    and wf :: "'r \<Rightarrow> bool"
  assumes create_hit: "get k r = Some h \<Longrightarrow> create k r = (h, r)"
    and get_create: "wf r \<Longrightarrow> get k (snd (create k r)) = Some (fst (create k r))"
    and get_create_other: "wf r \<Longrightarrow> k' \<noteq> k \<Longrightarrow> get k' (snd (create k r)) = get k' r"
    and wf_create: "wf r \<Longrightarrow> wf (snd (create k r))"
    and get_inj: "wf r \<Longrightarrow> get k r = Some h \<Longrightarrow> get k' r = Some h \<Longrightarrow> k = k'"
begin

lemma create_again: "wf r \<Longrightarrow> create k (snd (create k r)) = (fst (create k r), snd (create k r))"
  by (simp add: create_hit get_create)

lemma get_stays:
  assumes "wf r" "get k r = Some h"
  shows "get k (snd (create k' r)) = Some h"
proof (cases "k' = k")
  case True
  with assms show ?thesis by (simp add: create_hit)
next
  case False
  with assms show ?thesis by (simp add: get_create_other)
qed

lemma get_stays_run:
  assumes "wf r" "get k r = Some h"
  shows "get k (fold (\<lambda>k' r. snd (create k' r)) ks r) = Some h"
  using assms by (induction ks arbitrary: r) (auto simp: get_stays wf_create)

lemma distinct_handles:
  assumes "wf r" "k \<noteq> k'"
  shows "fst (create k r) \<noteq> fst (create k' (snd (create k r)))"
proof
  let ?r1 = "snd (create k r)" let ?r2 = "snd (create k' ?r1)"
  assume "fst (create k r) = fst (create k' ?r1)"
  moreover have "wf ?r1" "wf ?r2" using assms(1) by (simp_all add: wf_create)
  moreover have "get k ?r2 = Some (fst (create k r))"
    using assms(1) by (simp add: get_stays get_create wf_create)
  ultimately have "k = k'" using get_create [of ?r1 k'] get_inj [of ?r2] by simp
  with assms(2) show False by simp
qed

end

interpretation breaker_handles: handle_registry registry_get get_or_create registry_wf
proof
  show "registry_get k r = Some h \<Longrightarrow> get_or_create k r = (h, r)" for k r h
    by (simp add: get_or_create_def)
  show "registry_wf r \<Longrightarrow> registry_get k (snd (get_or_create k r)) = Some (fst (get_or_create k r))"
    for r k
    by (auto simp: registry_defs split: option.splits)
  show "registry_wf r \<Longrightarrow> k' \<noteq> k \<Longrightarrow> registry_get k' (snd (get_or_create k r)) = registry_get k' r"
    for r k k'
    by (auto simp: registry_defs split: option.splits)
  show "registry_wf r \<Longrightarrow> registry_wf (snd (get_or_create k r))" for r k
    by (simp add: get_or_create_entry wf_entry)
  show "registry_wf r \<Longrightarrow> registry_get k r = Some h \<Longrightarrow> registry_get k' r = Some h \<Longrightarrow> k = k'"
    for r k k' h
    by (auto simp: registry_wf_def registry_get_def)
qed

section \<open>Concurrent tasks\<close>

text \<open>
  Each task is idle, about to take the read lock for a key, or (after a miss) about to take the
  write lock. \<open>handed\<close> lists the handles returned so far, with their keys.
\<close>

datatype reg_pc = Idle | AtRead string | AtWrite string

record reg_sys =
  reg :: registry
  pc :: "nat \<Rightarrow> reg_pc"
  handed :: "(string \<times> addr) list"

definition reg_init :: "circuit_breaker_config \<Rightarrow> reg_sys" where
  "reg_init cfg = \<lparr>reg = registry_new cfg, pc = (\<lambda>_. Idle), handed = []\<rparr>"

inductive reg_step :: "reg_sys \<Rightarrow> reg_sys \<Rightarrow> bool" where
  call: "pc s i = Idle \<Longrightarrow> reg_step s (s\<lparr>pc := (pc s)(i := AtRead k)\<rparr>)"
| read_hit: "pc s i = AtRead k \<Longrightarrow> registry_get k (reg s) = Some a \<Longrightarrow>
     reg_step s (s\<lparr>pc := (pc s)(i := Idle), handed := (k, a) # handed s\<rparr>)"
| read_miss: "pc s i = AtRead k \<Longrightarrow> registry_get k (reg s) = None \<Longrightarrow>
     reg_step s (s\<lparr>pc := (pc s)(i := AtWrite k)\<rparr>)"
| write_entry: "pc s i = AtWrite k \<Longrightarrow> entry_or_insert k (reg s) = (a, r) \<Longrightarrow>
     reg_step s (s\<lparr>reg := r, pc := (pc s)(i := Idle), handed := (k, a) # handed s\<rparr>)"
| use_breaker: "(k, a) \<in> set (handed s) \<Longrightarrow>
     reg_step s (s\<lparr>reg := with_breaker a c (reg s)\<rparr>)"

inductive_cases reg_stepE: "reg_step s t"

definition reg_sys_inv :: "reg_sys \<Rightarrow> bool" where
  "reg_sys_inv s \<longleftrightarrow> registry_wf (reg s) \<and>
     (\<forall>k a. (k, a) \<in> set (handed s) \<longrightarrow> registry_get k (reg s) = Some a)"

lemma registry_get_with [simp]: "registry_get k (with_breaker a c r) = registry_get k r"
  by (auto simp: with_breaker_def registry_get_def split: option.splits)

lemma reg_step_inv: "reg_step s t \<Longrightarrow> reg_sys_inv s \<Longrightarrow> reg_sys_inv t"
proof (induction rule: reg_step.induct)
  case (write_entry s i k a r)
  then have wf: "registry_wf (reg s)" and r: "get_or_create k (reg s) = (a, r)"
    by (simp_all add: reg_sys_inv_def get_or_create_entry)
  then show ?case
    using write_entry.prems breaker_handles.get_create [OF wf, of k]
      breaker_handles.get_stays [OF wf, of _ _ k] breaker_handles.wf_create [OF wf, of k]
    by (auto simp: reg_sys_inv_def)
next
  case (use_breaker k a s c)
  then show ?case by (auto simp: reg_sys_inv_def intro: step_inv_intros)
qed (auto simp: reg_sys_inv_def)

interpretation reg_system: invariant_system "\<lambda>s. s = reg_init cfg" reg_step reg_sys_inv for cfg
proof
  show "reg_sys_inv s" if "s = reg_init cfg" for s
    using that by (simp add: reg_init_def reg_sys_inv_def)
qed (rule reg_step_inv)

section \<open>Properties\<close>

text \<open>
  Claim C23. However the tasks interleave between the read section and the write section of
  \<open>get_or_create\<close>, two handles ever handed out are the same breaker if and only if they were
  asked for under the same key: no key ever has two breakers and no breaker serves two keys.
\<close>

theorem one_breaker_per_key:
  assumes "reg_step\<^sup>*\<^sup>* (reg_init cfg) s"
    and "(k, a) \<in> set (handed s)" "(k', a') \<in> set (handed s)"
  shows "a = a' \<longleftrightarrow> k = k'"
proof -
  have "reg_sys_inv s" using reg_system.reach_inv assms(1) by blast
  then have "registry_wf (reg s)" "registry_get k (reg s) = Some a" "registry_get k' (reg s) = Some a'"
    using assms(2,3) by (auto simp: reg_sys_inv_def)
  then show ?thesis by (auto dest: breaker_handles.get_inj)
qed

text \<open>Two tasks miss the same key before either inserts; both get the breaker of the first.\<close>

lemma race_reachable:
  "reg_step\<^sup>*\<^sup>* (reg_init cfg)
     \<lparr>reg = snd (entry_or_insert k (registry_new cfg)),
      pc = (\<lambda>_. Idle)(0 := AtRead k, 1 := AtRead k, 0 := AtWrite k, 1 := AtWrite k,
                      0 := Idle, 1 := Idle),
      handed = [(k, 0), (k, 0)]\<rparr>"
proof -
  let ?s1 = "reg_init cfg\<lparr>pc := (pc (reg_init cfg))(0 := AtRead k)\<rparr>"
  let ?s2 = "?s1\<lparr>pc := (pc ?s1)(1 := AtRead k)\<rparr>"
  let ?s3 = "?s2\<lparr>pc := (pc ?s2)(0 := AtWrite k)\<rparr>"
  let ?s4 = "?s3\<lparr>pc := (pc ?s3)(1 := AtWrite k)\<rparr>"
  let ?r = "snd (entry_or_insert k (registry_new cfg))"
  let ?s5 = "?s4\<lparr>reg := ?r, pc := (pc ?s4)(0 := Idle), handed := (k, 0) # handed ?s4\<rparr>"
  let ?s6 = "?s5\<lparr>reg := ?r, pc := (pc ?s5)(1 := Idle), handed := (k, 0) # handed ?s5\<rparr>"
  note d = reg_init_def registry_new_def registry_get_def entry_or_insert_def
  have "reg_step (reg_init cfg) ?s1" by (rule call) (simp add: d)
  moreover have "reg_step ?s1 ?s2" by (rule call) (simp add: d)
  moreover have "reg_step ?s2 ?s3" by (rule read_miss) (simp_all add: d)
  moreover have "reg_step ?s3 ?s4" by (rule read_miss) (simp_all add: d)
  moreover have "reg_step ?s4 ?s5" by (rule write_entry) (simp_all add: d)
  moreover have "reg_step ?s5 ?s6" by (rule write_entry) (simp_all add: d)
  ultimately have "reg_step\<^sup>*\<^sup>* (reg_init cfg) ?s6"
    by (meson converse_rtranclp_into_rtranclp rtranclp.rtrancl_refl)
  then show ?thesis by (simp add: reg_init_def)
qed

theorem one_breaker_per_key_witness:
  "\<exists>s. reg_step\<^sup>*\<^sup>* (reg_init circuit_breaker_config_default) s \<and>
       handed s = [(''openai'', 0), (''openai'', 0)] \<and> (0 = (0::addr) \<longleftrightarrow> ''openai'' = ''openai'')"
  by (rule exI, rule conjI [OF race_reachable], rule conjI, simp,
      rule one_breaker_per_key [OF race_reachable [of circuit_breaker_config_default "''openai''"]])
    simp_all

text \<open>
  Breakers of different upstreams are isolated: whatever call is made through the
  handle of one key, the breaker of every other key is unchanged, and the breaker of the key
  itself makes exactly that call's transition.
\<close>

theorem breakers_isolated:
  assumes "registry_wf r" "registry_get k r = Some a"
  shows "breaker_of k' (with_breaker a c r) =
           (if k' = k then map_option (\<lambda>cb. snd (cb_exec c cb)) (breaker_of k r)
            else breaker_of k' r)"
proof (cases "k' = k")
  case True
  with assms(2) show ?thesis
    by (simp add: breaker_of_def with_breaker_def registry_get_def split: option.splits)
next
  case False
  then have "registry_get k' r \<noteq> Some a"
    using assms by (auto dest: breaker_handles.get_inj)
  with False show ?thesis
    by (cases "registry_get k' r")
      (auto simp: breaker_of_def with_breaker_def registry_get_def split: option.splits)
qed

theorem breakers_isolated_witness:
  "breaker_of ''b'' (with_breaker 0 (RecordFailure 9)
      (snd (get_or_create ''b'' (snd (get_or_create ''a'' (registry_new circuit_breaker_config_serde))))))
   = (if ''b'' = ''a'' then map_option (\<lambda>cb. snd (cb_exec (RecordFailure 9) cb))
        (breaker_of ''a'' (snd (get_or_create ''b''
           (snd (get_or_create ''a'' (registry_new circuit_breaker_config_serde))))))
      else breaker_of ''b'' (snd (get_or_create ''b''
           (snd (get_or_create ''a'' (registry_new circuit_breaker_config_serde))))))"
proof (rule breakers_isolated)
  let ?r = "snd (get_or_create ''b'' (snd (get_or_create ''a'' (registry_new circuit_breaker_config_serde))))"
  show "registry_wf ?r" by (simp add: breaker_handles.wf_create)
  show "registry_get ''a'' ?r = Some 0" by (simp add: registry_defs registry_new_def)
qed

end
