(* ===== verification/Health.thy ===== *)
theory Health
  imports Config Http "HOL-Library.AList"
begin

text \<open>
  \<open>rust-gateway/src/health.rs\<close>: the health checker's table of upstreams and its background
  probe loop. The table is an association list in the order the \<open>HashMap\<close> iterates; the
  outcome and duration of each HTTP probe are inputs.
\<close>

section \<open>State and operations\<close>

record health_status =
  healthy :: bool
  last_check :: instant
  latency_ms :: u64
  consecutive_failures :: u32

type_synonym health_table = "(string \<times> health_status) list"

definition fresh_status :: "instant \<Rightarrow> health_status" where
  "fresh_status now =
     \<lparr>healthy = True, last_check = now, latency_ms = 0, consecutive_failures = 0\<rparr>"

text \<open>The table after the task spawned by \<open>HealthChecker::new\<close> has run.\<close>

definition health_new :: "gateway_config \<Rightarrow> instant \<Rightarrow> health_table" where
  "health_new cfg now =
     (let url = default_url (upstream cfg) in
      if url \<noteq> '''' then AList.update url (fresh_status now) [] else [])"

definition health_register :: "string \<Rightarrow> instant \<Rightarrow> health_table \<Rightarrow> health_table" where
  "health_register name now m = AList.update name (fresh_status now) m"

definition is_healthy :: "string \<Rightarrow> health_table \<Rightarrow> bool" where
  "is_healthy name m = unwrap_or (map_option healthy (map_of m name)) True"

definition all_healthy :: "health_table \<Rightarrow> string list" where
  "all_healthy m = map fst (filter (\<lambda>(_, v). healthy v) m)"

text \<open>
  The answer to one probe: a response with its status code, or a transport error.
\<close>

datatype probe = ProbeResponse u16 | ProbeError

fun probe_ok :: "probe \<Rightarrow> bool" where
  "probe_ok (ProbeResponse st) = is_success st"
| "probe_ok ProbeError = False"

definition health_url :: "string \<Rightarrow> string" where
  "health_url name = trim_end_matches CHR ''/'' name @ ''/healthz''"

definition mark_success :: "nat \<Rightarrow> health_status \<Rightarrow> health_status" where
  "mark_success dur st =
     st\<lparr>healthy := True, latency_ms := of_nat (dur div 1000000), consecutive_failures := 0\<rparr>"

definition mark_failure :: "health_status \<Rightarrow> health_status" where
  "mark_failure st =
     (let st = st\<lparr>consecutive_failures := consecutive_failures st + 1\<rparr> in
      if consecutive_failures st \<ge> 3 then st\<lparr>healthy := False\<rparr> else st)"

definition get_mut :: "string \<Rightarrow> (health_status \<Rightarrow> health_status) \<Rightarrow> health_table \<Rightarrow> health_table" where
  "get_mut name f m =
     (case map_of m name of None \<Rightarrow> m | Some st \<Rightarrow> AList.update name (f st) m)"

text \<open>One probe of one upstream, and one round over the names read at its start.\<close>

definition check_one :: "(string \<Rightarrow> probe \<times> nat) \<Rightarrow> string \<Rightarrow> health_table \<Rightarrow> health_table" where
  "check_one send name m =
     (let (p, dur) = send (health_url name) in
      if probe_ok p then get_mut name (mark_success dur) m else get_mut name mark_failure m)"

definition check_round :: "(string \<Rightarrow> probe \<times> nat) \<Rightarrow> health_table \<Rightarrow> health_table" where
  "check_round send m = fold (check_one send) (map fst m) m"

fun check_rounds :: "(string \<Rightarrow> probe \<times> nat) list \<Rightarrow> health_table \<Rightarrow> health_table" where
  "check_rounds [] m = m"
| "check_rounds (send # sends) m = check_rounds sends (check_round send m)"

section \<open>One upstream's history\<close>

text \<open>
  What the table says of an upstream is a function of its probe outcomes since it was
  registered: the number of failures since the last success.
\<close>

definition observe :: "probe \<times> nat \<Rightarrow> health_status \<Rightarrow> health_status" where
  "observe pd st = (if probe_ok (fst pd) then mark_success (snd pd) st else mark_failure st)"

definition trailing_failures :: "probe list \<Rightarrow> nat" where
  "trailing_failures ps = length (takeWhile (\<lambda>p. \<not> probe_ok p) (rev ps))"

definition health_inv :: "health_status \<Rightarrow> bool" where
  "health_inv st \<longleftrightarrow> (healthy st \<longleftrightarrow> consecutive_failures st < 3)"

lemma trailing_failures_snoc:
  "trailing_failures (ps @ [p]) = (if probe_ok p then 0 else trailing_failures ps + 1)"
  by (simp add: trailing_failures_def)

lemma trailing_failures_le: "trailing_failures ps \<le> length ps"
  by (metis trailing_failures_def length_rev length_takeWhile_le)

lemma fold_observe:
  assumes "length pds < 2 ^ 32" "healthy st" "consecutive_failures st = 0"
  shows "let st' = fold observe pds st; n = trailing_failures (map fst pds)
         in unat (consecutive_failures st') = n \<and> healthy st' = (n < 3)"
  using assms(1)
proof (induction pds rule: rev_induct)
  case Nil
  then show ?case using assms by (simp add: trailing_failures_def)
next
  case (snoc pd pds)
  let ?st = "fold observe pds st" and ?n = "trailing_failures (map fst pds)"
  have n: "unat (consecutive_failures ?st) = ?n" and h: "healthy ?st = (?n < 3)"
    using snoc by (simp_all add: Let_def)
  have "?n + 1 < 2 ^ 32" using trailing_failures_le [of "map fst pds"] snoc.prems by simp
  then have "unat (consecutive_failures ?st + 1) = ?n + 1" using n by (simp add: unat_Suc_word)
  with h show ?case
    by (auto simp: Let_def observe_def [of pd] mark_success_def mark_failure_def
        trailing_failures_snoc word_le_nat_alt)
qed

section \<open>Table lemmas\<close>

lemma map_of_get_mut [simp]:
  "map_of (get_mut name f m) k = (if k = name then map_option f (map_of m name) else map_of m k)"
  by (auto simp: get_mut_def update_conv' split: option.splits)

lemma keys_update: "k \<in> fst ` set m \<Longrightarrow> map fst (AList.update k v m) = map fst m"
  by (induction m) auto

lemma keys_get_mut [simp]: "map fst (get_mut name f m) = map fst m"
  by (auto simp: get_mut_def split: option.splits intro!: keys_update
      dest!: map_of_SomeD simp: rev_image_eqI)

lemma map_of_check_one:
  "map_of (check_one send name m) k =
     (if k = name then map_option (observe (send (health_url name))) (map_of m name) else map_of m k)"
  by (cases "map_of m name") (auto simp: check_one_def observe_def case_prod_unfold Let_def)

lemma keys_check_one [simp]: "map fst (check_one send name m) = map fst m"
  by (simp add: check_one_def case_prod_unfold Let_def)

lemma map_of_fold_check:
  "distinct ns \<Longrightarrow> map_of (fold (check_one send) ns m) k =
     (if k \<in> set ns then map_option (observe (send (health_url k))) (map_of m k) else map_of m k)"
  by (induction ns arbitrary: m) (auto simp: map_of_check_one)

lemma keys_fold_check [simp]: "map fst (fold (check_one send) ns m) = map fst m"
  by (induction ns arbitrary: m) auto

lemma keys_check_round [simp]: "map fst (check_round send m) = map fst m"
  by (simp add: check_round_def)

lemma map_of_check_round:
  assumes "distinct (map fst m)"
  shows "map_of (check_round send m) k = map_option (observe (send (health_url k))) (map_of m k)"
proof (cases "k \<in> set (map fst m)")
  case True
  with assms show ?thesis by (simp add: check_round_def map_of_fold_check)
next
  case False
  then have "map_of m k = None" by (simp add: map_of_eq_None_iff)
  with assms False show ?thesis by (simp add: check_round_def map_of_fold_check)
qed

lemma map_of_check_rounds:
  assumes "distinct (map fst m)"
  shows "map_of (check_rounds sends m) k =
           map_option (fold observe (map (\<lambda>send. send (health_url k)) sends)) (map_of m k)"
  using assms
  by (induction sends arbitrary: m)
    (auto simp: map_of_check_round option.map_comp comp_def id_def option.map_ident)

lemma distinct_check_rounds:
  "distinct (map fst m) \<Longrightarrow> distinct (map fst (check_rounds sends m))"
  by (induction sends arbitrary: m) auto

section \<open>Properties\<close>

text \<open>
  After any number of probe rounds below \<open>2^32\<close>, an upstream that was registered (and
  not registered again) is reported unhealthy if and only if its last three or more probes all
  failed; its failure counter is exactly the length of that losing streak.
\<close>

theorem unhealthy_iff_three_failures:
  assumes "distinct (map fst m)" "length sends < 2 ^ 32"
  shows "let n = trailing_failures (map (\<lambda>send. fst (send (health_url name))) sends);
             m' = check_rounds sends (health_register name now m)
         in is_healthy name m' = (n < 3) \<and>
            map_option (\<lambda>st. unat (consecutive_failures st)) (map_of m' name) = Some n"
proof -
  have "distinct (map fst (health_register name now m))"
    using assms(1) by (simp add: health_register_def distinct_update)
  moreover have "map_of (health_register name now m) name = Some (fresh_status now)"
    by (simp add: health_register_def update_conv')
  ultimately show ?thesis
    using fold_observe [of "map (\<lambda>send. send (health_url name)) sends" "fresh_status now"] assms(2)
    by (simp add: map_of_check_rounds is_healthy_def unwrap_or_def fresh_status_def Let_def comp_def)
qed

theorem unhealthy_iff_three_failures_witness:
  "let sends = [\<lambda>_. (ProbeResponse 503, 0), \<lambda>_. (ProbeError, 0), \<lambda>_. (ProbeResponse 500, 0)];
       n = trailing_failures (map (\<lambda>send. fst (send (health_url ''http://up''))) sends);
       m' = check_rounds sends (health_register ''http://up'' 0 [])
   in is_healthy ''http://up'' m' = (n < 3) \<and>
      map_option (\<lambda>st. unat (consecutive_failures st)) (map_of m' ''http://up'') = Some n"
  unfolding Let_def
  using unhealthy_iff_three_failures
    [of "[]" "[\<lambda>_. (ProbeResponse 503, 0), \<lambda>_. (ProbeError, 0), \<lambda>_. (ProbeResponse 500, 0)]"
      "''http://up''" 0]
  by (simp add: Let_def)

text \<open>
  A probe round touches the registered upstreams only and each by its own probe: it
  keeps the set of names, leaves \<open>last_check\<close> as it was at registration, and sets every entry to
  what its own probe answer says.
\<close>

theorem check_round_pointwise:
  assumes "distinct (map fst m)"
  shows "map fst (check_round send m) = map fst m \<and>
         map_of (check_round send m) k =
           map_option (\<lambda>st. observe (send (health_url k)) st) (map_of m k) \<and>
         map_option last_check (map_of (check_round send m) k) = map_option last_check (map_of m k)"
proof -
  have "last_check (observe pd st) = last_check st" for pd st
    by (simp add: observe_def mark_success_def mark_failure_def Let_def)
  then show ?thesis
    using map_of_check_round [OF assms] by (simp add: option.map_comp comp_def)
qed

theorem check_round_pointwise_witness:
  "let m = health_register ''b'' 5 (health_register ''a'' 3 []); send = (\<lambda>_. (ProbeError, 0))
   in map fst (check_round send m) = map fst m \<and>
      map_of (check_round send m) ''a'' =
        map_option (\<lambda>st. observe (send (health_url ''a'')) st) (map_of m ''a'') \<and>
      map_option last_check (map_of (check_round send m) ''a'') =
        map_option last_check (map_of m ''a'')"
  unfolding Let_def
  by (rule check_round_pointwise) (simp add: health_register_def)

text \<open>
  \<open>all_healthy\<close> lists exactly the registered upstreams that \<open>is_healthy\<close> accepts, each
  once, while \<open>is_healthy\<close> also accepts every upstream that was never registered.
\<close>

theorem all_healthy_exact:
  assumes "distinct (map fst m)"
  shows "distinct (all_healthy m) \<and>
         set (all_healthy m) = {k \<in> set (map fst m). is_healthy k m} \<and>
         {k. is_healthy k m} = set (all_healthy m) \<union> - set (map fst m)"
proof -
  have s: "set (all_healthy m) = {k. \<exists>v. map_of m k = Some v \<and> healthy v}"
    using assms by (force simp: all_healthy_def)
  have "distinct (all_healthy m)"
    using assms by (induction m) (auto simp: all_healthy_def)
  with s show ?thesis
    by (auto simp: is_healthy_def unwrap_or_def map_of_eq_None_iff rev_image_eqI
        split: option.splits dest: map_of_SomeD)
qed

theorem all_healthy_exact_witness:
  "let m = health_register ''a'' 3 []
   in distinct (all_healthy m) \<and>
      set (all_healthy m) = {k \<in> set (map fst m). is_healthy k m} \<and>
      {k. is_healthy k m} = set (all_healthy m) \<union> - set (map fst m)"
  unfolding Let_def
  by (rule all_healthy_exact) (simp add: health_register_def)


section \<open>Interleaved writers\<close>

text \<open>
  The table is written under its lock by the task that \<open>new\<close> spawns, by \<open>register\<close>, and by the probe
  loop after each answer, so any interleaving of them is a list of these writes. A probe may have
  been sent before another task registered the same name.
\<close>

datatype health_write = Registered string instant | Probed string probe nat

fun health_exec :: "health_write \<Rightarrow> health_table \<Rightarrow> health_table" where
  "health_exec (Registered name now) m = health_register name now m"
| "health_exec (Probed name p dur) m = check_one (\<lambda>_. (p, dur)) name m"

text \<open>The probe answers of an upstream since its last registration; \<open>None\<close> before the first.\<close>

fun history_step :: "string \<Rightarrow> health_write \<Rightarrow> probe list option \<Rightarrow> probe list option" where
  "history_step k (Registered name now) h = (if name = k then Some [] else h)"
| "history_step k (Probed name p dur) h = (if name = k then map_option (\<lambda>ps. ps @ [p]) h else h)"

definition history :: "string \<Rightarrow> health_write list \<Rightarrow> probe list option" where
  "history k ws = fold (history_step k) ws None"

lemma history_snoc: "history k (ws @ [w]) = history_step k w (history k ws)"
  by (simp add: history_def)

lemma history_length: "history k ws = Some ps \<Longrightarrow> length ps \<le> length ws"
proof (induction ws arbitrary: ps rule: rev_induct)
  case Nil
  then show ?case by (simp add: history_def)
next
  case (snoc w ws)
  then show ?case by (cases w) (fastforce simp: history_snoc split: if_splits)+
qed

interpretation health_machine: call_machine health_exec "\<lambda>_. True" "\<lambda>m. distinct (map fst m)"
proof unfold_locales
  fix w m
  show "distinct (map fst m) \<Longrightarrow> distinct (map fst (health_exec w m))"
    by (cases w) (simp_all add: health_register_def distinct_update)
qed

text \<open>What the table holds of an upstream with a given history.\<close>

definition status_matches :: "probe list option \<Rightarrow> health_status option \<Rightarrow> bool" where
  "status_matches h st =
     (case h of
        None \<Rightarrow> st = None
      | Some ps \<Rightarrow>
          (case st of
             None \<Rightarrow> False
           | Some v \<Rightarrow> unat (consecutive_failures v) = trailing_failures ps \<and>
                       healthy v = (trailing_failures ps < 3)))"

lemma observe_matches:
  assumes "status_matches (Some ps) (Some v)" "length ps + 1 < 2 ^ 32"
  shows "status_matches (Some (ps @ [p])) (Some (observe (p, dur) v))"
proof -
  have n: "unat (consecutive_failures v) = trailing_failures ps" and h: "healthy v = (trailing_failures ps < 3)"
    using assms(1) by (simp_all add: status_matches_def)
  have "trailing_failures ps + 1 < 2 ^ 32" using trailing_failures_le [of ps] assms(2) by linarith
  then have "unat (consecutive_failures v + 1) = trailing_failures ps + 1" using n by (simp add: unat_Suc_word)
  with h show ?thesis
    by (auto simp: status_matches_def observe_def mark_success_def mark_failure_def
        trailing_failures_snoc word_le_nat_alt Let_def)
qed

lemma health_exec_matches:
  assumes "length ws < 2 ^ 32"
  shows "status_matches (history k ws) (map_of (fold health_exec ws []) k)"
  using assms
proof (induction ws rule: rev_induct)
  case Nil
  show ?case by (simp add: history_def status_matches_def)
next
  case (snoc w ws)
  then have IH: "status_matches (history k ws) (map_of (fold health_exec ws []) k)" by simp
  show ?case
  proof (cases w)
    case (Registered name now)
    with IH show ?thesis
      by (simp add: history_snoc health_register_def update_conv' status_matches_def fresh_status_def
          trailing_failures_def)
  next
    case (Probed name p dur)
    show ?thesis
    proof (cases "name = k \<and> history k ws \<noteq> None")
      case True
      then obtain ps where ps: "history k ws = Some ps" by blast
      with IH obtain v where v: "map_of (fold health_exec ws []) k = Some v"
        by (auto simp: status_matches_def split: option.splits)
      have "length ps + 1 < 2 ^ 32" using history_length [OF ps] snoc.prems by simp
      with IH ps v show ?thesis
        using observe_matches [of ps v p dur] True by (simp add: Probed history_snoc map_of_check_one)
    next
      case False
      with IH show ?thesis
        by (auto simp: Probed history_snoc map_of_check_one status_matches_def split: option.splits)
    qed
  qed
qed

text \<open>
  Claim C24. However registrations and probe answers interleave, the table is decided by each upstream's
  own history: an upstream never registered is reported healthy and is not in the table; one that
  was is unhealthy exactly when the last three or more answers since its last registration are
  failures, and its counter is the length of that streak. Names never occur twice.
\<close>

theorem health_decided_by_history:
  assumes "length ws < 2 ^ 32"
  shows "let m = fold health_exec ws [] in
     distinct (map fst m) \<and>
     (case history k ws of
        None \<Rightarrow> map_of m k = None \<and> is_healthy k m
      | Some ps \<Rightarrow>
          is_healthy k m = (trailing_failures ps < 3) \<and>
          map_option (\<lambda>st. unat (consecutive_failures st)) (map_of m k) = Some (trailing_failures ps))"
proof -
  let ?m = "fold health_exec ws []"
  have "distinct (map fst ?m)" using health_machine.fold_inv [of ws "[]"] by (simp add: list_all_iff)
  moreover have "case history k ws of
        None \<Rightarrow> map_of ?m k = None \<and> is_healthy k ?m
      | Some ps \<Rightarrow>
          is_healthy k ?m = (trailing_failures ps < 3) \<and>
          map_option (\<lambda>st. unat (consecutive_failures st)) (map_of ?m k) = Some (trailing_failures ps)"
    using health_exec_matches [OF assms, of k]
    by (cases "history k ws"; cases "map_of ?m k") (simp_all add: status_matches_def is_healthy_def unwrap_or_def)
  ultimately show ?thesis unfolding Let_def by (rule conjI)
qed

theorem health_decided_by_history_witness:
  "\<not> is_healthy ''http://up'' (fold health_exec
     [Registered ''http://up'' 0, Probed ''http://up'' (ProbeResponse 503) 0, Registered ''http://b'' 1,
      Probed ''http://up'' ProbeError 0, Probed ''http://up'' (ProbeResponse 500) 0] [])"
proof -
  let ?ws = "[Registered ''http://up'' 0, Probed ''http://up'' (ProbeResponse 503) 0, Registered ''http://b'' 1,
      Probed ''http://up'' ProbeError 0, Probed ''http://up'' (ProbeResponse 500) 0]"
  have h: "history ''http://up'' ?ws = Some [ProbeResponse 503, ProbeError, ProbeResponse 500]"
    by (simp add: history_def)
  have t: "trailing_failures [ProbeResponse 503, ProbeError, ProbeResponse 500] = 3"
    by (simp add: trailing_failures_def is_success_def)
  show ?thesis using health_decided_by_history [of ?ws "''http://up''"] unfolding h Let_def by (simp add: t)
qed

end
