(* ===== verification/Jwt.thy ===== *)
theory Jwt
  imports Config
begin

text \<open>
  The token validators \<open>rust-gateway/src/jwt.rs\<close> and \<open>gateway/src/jwt.rs\<close>. The \<open>jsonwebtoken\<close> crate is
  the parameter \<open>jwt_lib\<close> (key parsers, \<open>Validation::new\<close>, \<open>decode_header\<close>, \<open>decode\<close>), and
  \<open>jwt_contract\<close> its documented checks: the claims a token carries and whether its signature verifies
  under a key are relations on tokens that the contract refers to. The file system is a function
  from paths.
\<close>

section \<open>The library\<close>

datatype algorithm =
    HS256 | HS384 | HS512 | ES256 | ES384 | RS256 | RS384 | RS512 | PS256 | PS384 | PS512 | EdDSA

datatype key_family = Hmac | Rsa | Ec | Ed

fun algorithm_family :: "algorithm \<Rightarrow> key_family" where
  "algorithm_family HS256 = Hmac"
| "algorithm_family HS384 = Hmac"
| "algorithm_family HS512 = Hmac"
| "algorithm_family ES256 = Ec"
| "algorithm_family ES384 = Ec"
| "algorithm_family EdDSA = Ed"
| "algorithm_family _ = Rsa"

record validation =
  algorithms :: "algorithm list"
  v_issuer :: "string list option"
  v_audience :: "string list option"
  leeway :: u64
  validate_exp :: bool
  validate_nbf :: bool
  validate_aud :: bool
  validate_signature :: bool

text \<open>The value of the \<open>aud\<close> claim as it stands in a token's payload.\<close>

datatype json =
    JNull | JBool bool | JInt int | JFloat string | JString string
  | JArray "json list" | JObject "(string \<times> json) list"

text \<open>
  \<open>'k\<close> is a decoding key and \<open>'c\<close> the claims struct. \<open>decode\<close> takes the function that
  deserialises the \<open>aud\<close> claim, the one part of the deserialiser that is written by hand.
\<close>

record ('k, 'c, 'a) jwt_lib =
  from_ed_pem :: "bytes \<Rightarrow> string + 'k"
  from_rsa_pem :: "bytes \<Rightarrow> string + 'k"
  from_ec_pem :: "bytes \<Rightarrow> string + 'k"
  validation_new :: "algorithm \<Rightarrow> validation"
  decode_header :: "string \<Rightarrow> string + algorithm"
  decode :: "(json \<Rightarrow> string + 'a) \<Rightarrow> string \<Rightarrow> 'k \<Rightarrow> validation \<Rightarrow> string + 'c"

section \<open>The validator of rust-gateway\<close>

record claims =
  sub :: string
  iss :: string
  aud :: string
  exp_at :: usize
  iat :: usize

record 'k jwt_validator =
  decoding_key :: 'k
  jwt_validation :: validation

text \<open>\<open>String\<close> as the type of \<open>aud\<close>: the derived deserialiser takes a string and nothing else.\<close>

fun deserialize_string :: "json \<Rightarrow> string + string" where
  "deserialize_string (JString s) = Inr s"
| "deserialize_string _ = Inl ''invalid type, expected a string''"

definition or_else :: "'e + 'a \<Rightarrow> ('e \<Rightarrow> 'f + 'a) \<Rightarrow> 'f + 'a" where
  "or_else r f = (case r of Inl e \<Rightarrow> f e | Inr x \<Rightarrow> Inr x)"

definition from_pem ::
  "('k, 'c, 'a) jwt_lib \<Rightarrow> bytes \<Rightarrow> string \<Rightarrow> string \<Rightarrow> string + 'k jwt_validator" where
  "from_pem lib pem issuer_name audience_name =
     (case map_err (\<lambda>e. ''Unsupported PEM format: '' @ e)
             (or_else (or_else (from_ed_pem lib pem) (\<lambda>_. from_rsa_pem lib pem))
               (\<lambda>_. from_ec_pem lib pem)) of
        Inl e \<Rightarrow> Inl e
      | Inr key \<Rightarrow>
          (let v = validation_new lib EdDSA;
               v = v\<lparr>v_issuer := Some [issuer_name]\<rparr>;
               v = v\<lparr>v_audience := Some [audience_name]\<rparr>;
               v = v\<lparr>validate_exp := True\<rparr>;
               v = v\<lparr>validate_nbf := False\<rparr>
           in Inr \<lparr>decoding_key = key, jwt_validation = v\<rparr>))"

definition jwt_new ::
  "('k, 'c, 'a) jwt_lib \<Rightarrow> (string \<Rightarrow> string + bytes) \<Rightarrow> jwt_config \<Rightarrow> string + 'k jwt_validator" where
  "jwt_new lib read_file cfg =
     (let issuer_name = unwrap_or (issuer cfg) ''appgate'';
          audience_name = unwrap_or (audience cfg) ''appgate-gateway'' in
      case jwt_key_path cfg of
        Some path \<Rightarrow>
          (case map_err (\<lambda>e. ''Failed to read JWT public key '' @ path @ '': '' @ e)
                  (read_file path) of
             Inl e \<Rightarrow> Inl e
           | Inr pem \<Rightarrow> from_pem lib pem issuer_name audience_name)
      | None \<Rightarrow>
          (case jwks_url cfg of
             Some url \<Rightarrow>
               Inl (''JWKS loading from '' @ url @ '' is not supported in this build (auto-start disabled); configure APPGATE_JWT_KEY_PATH with the PEM public key'')
           | None \<Rightarrow>
               Inl ''no JWT key source configured (set APPGATE_JWT_KEY_PATH or APPGATE_JWT_JWKS_URL)''))"

definition jwt_validate ::
  "('k, claims, string) jwt_lib \<Rightarrow> 'k jwt_validator \<Rightarrow> string \<Rightarrow> string + claims" where
  "jwt_validate lib v token =
     map_err (\<lambda>e. ''JWT validation failed: '' @ e)
       (decode lib deserialize_string token (decoding_key v) (jwt_validation v))"

section \<open>The validator of the gateway crate\<close>

record gw_claims =
  gw_sub :: string
  gw_iss :: string
  gw_aud :: "string list"
  gw_exp :: usize
  gw_iat :: usize
  gw_nbf :: "usize option"
  gw_jti :: "string option"
  gw_roles :: "string list option"
  gw_scope :: "string option"
  gw_tenant_id :: "string option"

record validated_token =
  identity_id :: string
  token_roles :: "string list"
  token_scope :: string
  token_id :: string
  tenant_id :: "string option"
  expiry :: usize

text \<open>The visitor: a string is a one-element list, an array must hold strings only.\<close>

fun deserialize_strings :: "json list \<Rightarrow> string + string list" where
  "deserialize_strings [] = Inr []"
| "deserialize_strings (j # js) =
     and_then (deserialize_string j) (\<lambda>s. and_then (deserialize_strings js) (\<lambda>ss. Inr (s # ss)))"

fun deserialize_audience :: "json \<Rightarrow> string + string list" where
  "deserialize_audience (JString value) = Inr [value]"
| "deserialize_audience (JArray seq) = deserialize_strings seq"
| "deserialize_audience _ = Inl ''invalid type, expected string or array of strings''"

record 'k gw_jwt_validator =
  static_key :: "'k option"
  gw_validation :: validation

text \<open>\<open>exists\<close> and \<open>read_file\<close> are the file system's answers.\<close>

definition gw_jwt_new ::
  "('k, 'c, 'a) jwt_lib \<Rightarrow> (string \<Rightarrow> bool) \<Rightarrow> (string \<Rightarrow> string + bytes) \<Rightarrow> string \<Rightarrow> string \<Rightarrow> string \<Rightarrow>
     string option \<Rightarrow> string + 'k gw_jwt_validator" where
  "gw_jwt_new lib exists read_file key_path_arg issuer_name audience_name jwks =
     and_then
       (if key_path_arg \<noteq> '''' \<and> exists key_path_arg then
          and_then (map_err (\<lambda>e. ''Failed to read JWT key: '' @ key_path_arg) (read_file key_path_arg))
            (\<lambda>pem. and_then (from_rsa_pem lib pem) (\<lambda>k. Inr (Some k)))
        else Inr None)
       (\<lambda>key.
          let v = validation_new lib RS256;
              v = v\<lparr>v_issuer := Some [issuer_name]\<rparr>;
              v = v\<lparr>v_audience := Some [audience_name]\<rparr>;
              v = v\<lparr>leeway := 0\<rparr>
          in Inr \<lparr>static_key = key, gw_validation = v\<rparr>)"

definition gw_jwt_validate ::
  "('k, gw_claims, string list) jwt_lib \<Rightarrow> 'k gw_jwt_validator \<Rightarrow> string \<Rightarrow> string + validated_token" where
  "gw_jwt_validate lib v token =
     and_then (decode_header lib token)
       (\<lambda>alg.
          case static_key v of
            None \<Rightarrow> Inl ''No key available''
          | Some k \<Rightarrow>
              (let val = (gw_validation v)\<lparr>algorithms := [alg]\<rparr> in
               and_then (decode lib deserialize_audience token k val)
                 (\<lambda>c. Inr \<lparr>identity_id = gw_sub c,
                           token_roles = unwrap_or (gw_roles c) [],
                           token_scope = unwrap_or (gw_scope c) '''',
                           token_id = unwrap_or (gw_jti c) '''',
                           tenant_id = gw_tenant_id c,
                           expiry = gw_exp c\<rparr>)))"

section \<open>What the validators rely on\<close>

text \<open>
  Documented behaviour of \<open>jsonwebtoken\<close> 9 at the time \<open>now\<close> (seconds). \<open>claims_of dz tok\<close> are the claims
  in the token's payload, with \<open>dz\<close> for the audience; \<open>verifies tok k a\<close>: the signature of \<open>tok\<close>
  verifies under key \<open>k\<close> with algorithm \<open>a\<close>. A fresh validation names one algorithm, allows a leeway of
  60 seconds and checks signature, expiry and audience; each PEM parser yields a key of its family;
  \<open>decode\<close> returns the claims of the token, and accepts it only if its header names one of the
  listed algorithms, every listed algorithm is of the key's family, and each check that is switched
  on passes.
\<close>

definition default_validation :: "algorithm \<Rightarrow> validation" where
  "default_validation a =
     \<lparr>algorithms = [a], v_issuer = None, v_audience = None, leeway = 60, validate_exp = True,
      validate_nbf = False, validate_aud = True, validate_signature = True\<rparr>"

definition jwt_contract ::
  "('k, 'c, 'a) jwt_lib \<Rightarrow> ('k \<Rightarrow> key_family) \<Rightarrow> ((json \<Rightarrow> string + 'a) \<Rightarrow> string \<Rightarrow> string + 'c) \<Rightarrow>
     (string \<Rightarrow> 'k \<Rightarrow> algorithm \<Rightarrow> bool) \<Rightarrow> nat \<Rightarrow> ('c \<Rightarrow> string) \<Rightarrow> ('c \<Rightarrow> string list) \<Rightarrow> ('c \<Rightarrow> usize) \<Rightarrow> bool" where
  "jwt_contract lib family claims_of verifies now issuer_of audience_of expiry_of \<longleftrightarrow>
     (\<forall>a. validation_new lib a = default_validation a) \<and>
     (\<forall>pem k. from_ed_pem lib pem = Inr k \<longrightarrow> family k = Ed) \<and>
     (\<forall>pem k. from_rsa_pem lib pem = Inr k \<longrightarrow> family k = Rsa) \<and>
     (\<forall>pem k. from_ec_pem lib pem = Inr k \<longrightarrow> family k = Ec) \<and>
     (\<forall>dz tok k v c. decode lib dz tok k v = Inr c \<longrightarrow>
        claims_of dz tok = Inr c \<and>
        (\<exists>a. decode_header lib tok = Inr a \<and> a \<in> set (algorithms v) \<and>
           (validate_signature v \<longrightarrow> verifies tok k a)) \<and>
        (\<forall>a\<in>set (algorithms v). algorithm_family a = family k) \<and>
        (validate_exp v \<longrightarrow> now \<le> unat (expiry_of c) + unat (leeway v)) \<and>
        (\<forall>is. v_issuer v = Some is \<longrightarrow> issuer_of c \<in> set is) \<and>
        (\<forall>as. validate_aud v \<longrightarrow> v_audience v = Some as \<longrightarrow> set (audience_of c) \<inter> set as \<noteq> {}))"

lemma jwt_contractD:
  assumes "jwt_contract lib family claims_of verifies now issuer_of audience_of expiry_of"
  shows "validation_new lib a = default_validation a"
    and "from_ed_pem lib pem = Inr k \<Longrightarrow> family k = Ed"
    and "from_rsa_pem lib pem = Inr k \<Longrightarrow> family k = Rsa"
    and "from_ec_pem lib pem = Inr k \<Longrightarrow> family k = Ec"
    and "decode lib dz tok k v = Inr c \<Longrightarrow> claims_of dz tok = Inr c"
    and "decode lib dz tok k v = Inr c \<Longrightarrow>
           \<exists>a. decode_header lib tok = Inr a \<and> a \<in> set (algorithms v) \<and> (validate_signature v \<longrightarrow> verifies tok k a)"
    and "decode lib dz tok k v = Inr c \<Longrightarrow> a \<in> set (algorithms v) \<Longrightarrow> algorithm_family a = family k"
    and "decode lib dz tok k v = Inr c \<Longrightarrow> validate_exp v \<Longrightarrow> now \<le> unat (expiry_of c) + unat (leeway v)"
    and "decode lib dz tok k v = Inr c \<Longrightarrow> v_issuer v = Some is \<Longrightarrow> issuer_of c \<in> set is"
    and "decode lib dz tok k v = Inr c \<Longrightarrow> validate_aud v \<Longrightarrow> v_audience v = Some as \<Longrightarrow>
           set (audience_of c) \<inter> set as \<noteq> {}"
  using assms unfolding jwt_contract_def by blast+

text \<open>
  An instance for the examples: three PEM strings; tokens named after their algorithm, one of them
  forged; all with the same claims; and every check of the contract made.
\<close>

definition checks_pass ::
  "nat \<Rightarrow> string \<Rightarrow> string list \<Rightarrow> usize \<Rightarrow> bool \<Rightarrow> algorithm \<Rightarrow> key_family \<Rightarrow> validation \<Rightarrow> bool" where
  "checks_pass now i auds e genuine a k v \<longleftrightarrow>
     list_ex (\<lambda>b. b = a) (algorithms v) \<and> list_all (\<lambda>b. algorithm_family b = k) (algorithms v) \<and>
     (validate_signature v \<longrightarrow> genuine) \<and>
     (validate_exp v \<longrightarrow> now \<le> unat e + unat (leeway v)) \<and>
     (case v_issuer v of None \<Rightarrow> True | Some is \<Rightarrow> list_ex (\<lambda>j. j = i) is) \<and>
     (case v_audience v of None \<Rightarrow> True | Some as \<Rightarrow> list_ex (\<lambda>x. list_ex (\<lambda>y. y = x) auds) as)"

definition sample_alg :: "string \<Rightarrow> string + algorithm" where
  "sample_alg tok =
     (if tok = ''ed'' \<or> tok = ''forged'' then Inr EdDSA
      else if tok = ''rs512'' then Inr RS512 else Inl ''InvalidToken'')"

definition sample_verifies :: "string \<Rightarrow> key_family \<Rightarrow> algorithm \<Rightarrow> bool" where
  "sample_verifies tok k a \<longleftrightarrow> tok \<noteq> ''forged'' \<and> algorithm_family a = k"

definition sample_jwt ::
  "nat \<Rightarrow> 'c \<Rightarrow> ('c \<Rightarrow> string) \<Rightarrow> ('c \<Rightarrow> string list) \<Rightarrow> ('c \<Rightarrow> usize) \<Rightarrow> (key_family, 'c, 'a) jwt_lib" where
  "sample_jwt now c issuer_of audience_of expiry_of =
     \<lparr>from_ed_pem = (\<lambda>pem. if pem = ''ed-pem'' then Inr Ed else Inl ''InvalidKeyFormat''),
      from_rsa_pem = (\<lambda>pem. if pem = ''rsa-pem'' then Inr Rsa else Inl ''InvalidKeyFormat''),
      from_ec_pem = (\<lambda>pem. if pem = ''ec-pem'' then Inr Ec else Inl ''InvalidKeyFormat''),
      validation_new = default_validation,
      decode_header = sample_alg,
      decode = (\<lambda>dz tok k v.
         case sample_alg tok of
           Inl e \<Rightarrow> Inl e
         | Inr a \<Rightarrow>
             if checks_pass now (issuer_of c) (audience_of c) (expiry_of c) (sample_verifies tok k a) a k v
             then Inr c else Inl ''InvalidToken'')\<rparr>"

lemma sample_jwt_contract:
  "jwt_contract (sample_jwt now c issuer_of audience_of expiry_of) (\<lambda>k. k) (\<lambda>_ _. Inr c) sample_verifies
     now issuer_of audience_of expiry_of"
  unfolding jwt_contract_def sample_jwt_def
  by (auto simp: checks_pass_def list_ex_iff list_all_iff split: if_splits sum.splits option.splits)

section \<open>Lemmas\<close>

lemma from_pem_Inr:
  assumes "from_pem lib pem i a = Inr v"
  shows "jwt_validation v = (validation_new lib EdDSA)
           \<lparr>v_issuer := Some [i], v_audience := Some [a], validate_exp := True, validate_nbf := False\<rparr>"
    and "from_ed_pem lib pem = Inr (decoding_key v) \<or> from_rsa_pem lib pem = Inr (decoding_key v) \<or>
         from_ec_pem lib pem = Inr (decoding_key v)"
    and "from_ed_pem lib pem = Inl e \<Longrightarrow>
         from_rsa_pem lib pem = Inr (decoding_key v) \<or> from_ec_pem lib pem = Inr (decoding_key v)"
  using assms by (auto simp: from_pem_def map_err_def or_else_def Let_def split: sum.splits)

lemma jwt_new_Inr:
  assumes "jwt_new lib read_file cfg = Inr v"
  obtains path pem where "jwt_key_path cfg = Some path" "read_file path = Inr pem"
    "from_pem lib pem (unwrap_or (issuer cfg) ''appgate'') (unwrap_or (audience cfg) ''appgate-gateway'') = Inr v"
  using assms by (auto simp: jwt_new_def map_err_def Let_def split: option.splits sum.splits)

lemma jwt_validate_Inr:
  "jwt_validate lib v tok = Inr c \<longleftrightarrow>
     decode lib deserialize_string tok (decoding_key v) (jwt_validation v) = Inr c"
  by (simp add: jwt_validate_def map_err_def split: sum.splits)

lemma deserialize_strings_map: "deserialize_strings (map JString ss) = Inr ss"
  by (induction ss) (auto simp: and_then_def)

lemma deserialize_strings_Inr: "deserialize_strings js = Inr ss \<Longrightarrow> js = map JString ss"
proof (induction js arbitrary: ss)
  case (Cons j js)
  then show ?case by (cases j) (auto simp: and_then_def split: sum.splits)
qed simp

lemma deserialize_strings_iff: "deserialize_strings js = Inr ss \<longleftrightarrow> js = map JString ss"
  using deserialize_strings_map deserialize_strings_Inr by blast

section \<open>Properties\<close>

text \<open>
  Claim C8. Soundness of rust-gateway's validator: the claims it returns are those of the token; the
  token's signature verifies, with EdDSA, under the Ed25519 key in the configured file; issuer and
  audience are the configured ones (\<open>appgate\<close> and \<open>appgate-gateway\<close> when none is set); and the token
  expired at most 60 seconds ago, the library's default leeway, which the code does not change.
\<close>

theorem jwt_accepts_only:
  assumes "jwt_contract lib family claims_of verifies now iss (\<lambda>c. [aud c]) exp_at"
    and "jwt_new lib read_file cfg = Inr v" "jwt_validate lib v tok = Inr c"
  shows "claims_of deserialize_string tok = Inr c \<and>
         (\<exists>path pem key. jwt_key_path cfg = Some path \<and> read_file path = Inr pem \<and>
            from_ed_pem lib pem = Inr key \<and> family key = Ed \<and>
            decode_header lib tok = Inr EdDSA \<and> verifies tok key EdDSA) \<and>
         iss c = unwrap_or (issuer cfg) ''appgate'' \<and>
         aud c = unwrap_or (audience cfg) ''appgate-gateway'' \<and>
         now \<le> unat (exp_at c) + 60"
proof -
  note C = jwt_contractD [OF assms(1)]
  obtain path pem where p: "jwt_key_path cfg = Some path" "read_file path = Inr pem"
    "from_pem lib pem (unwrap_or (issuer cfg) ''appgate'') (unwrap_or (audience cfg) ''appgate-gateway'') = Inr v"
    using jwt_new_Inr [OF assms(2)] by blast
  note val = from_pem_Inr(1) [OF p(3)] C(1) default_validation_def
  have d: "decode lib deserialize_string tok (decoding_key v) (jwt_validation v) = Inr c"
    using assms(3) by (simp add: jwt_validate_Inr)
  have fam: "family (decoding_key v) = Ed" using C(7) [OF d, of EdDSA] by (simp add: val)
  have ed: "from_ed_pem lib pem = Inr (decoding_key v)"
    using from_pem_Inr(2) [OF p(3)] C(3,4) [of pem "decoding_key v"] fam by auto
  have "decode_header lib tok = Inr EdDSA \<and> verifies tok (decoding_key v) EdDSA"
    using C(6) [OF d] by (auto simp: val)
  moreover have "now \<le> unat (exp_at c) + 60" using C(8) [OF d] by (simp add: val)
  moreover have "claims_of deserialize_string tok = Inr c" by (rule C(5) [OF d])
  ultimately show ?thesis
    using p(1,2) ed fam C(9) [OF d] C(10) [OF d] by (auto simp: val)
qed

definition sample_claims :: claims where
  "sample_claims =
     \<lparr>sub = ''alice'', iss = ''appgate'', aud = ''appgate-gateway'', exp_at = 2000, iat = 1000\<rparr>"

definition sample_lib :: "(key_family, claims, string) jwt_lib" where
  "sample_lib = sample_jwt 1500 sample_claims iss (\<lambda>c. [aud c]) exp_at"

lemma sample_lib_contract:
  "jwt_contract sample_lib (\<lambda>k. k) (\<lambda>_ _. Inr sample_claims) sample_verifies 1500 iss (\<lambda>c. [aud c]) exp_at"
  unfolding sample_lib_def by (rule sample_jwt_contract)

theorem jwt_accepts_only_witness:
  "\<exists>v c. jwt_new sample_lib (\<lambda>_. Inr ''ed-pem'') (jwt_config_default\<lparr>jwt_key_path := Some ''key''\<rparr>) = Inr v \<and>
     jwt_validate sample_lib v ''ed'' = Inr c \<and> sample_verifies ''ed'' Ed EdDSA \<and>
     iss c = ''appgate'' \<and> aud c = ''appgate-gateway'' \<and> 1500 \<le> unat (exp_at c) + 60"
proof -
  let ?cfg = "jwt_config_default\<lparr>jwt_key_path := Some ''key''\<rparr>"
  let ?v = "\<lparr>decoding_key = Ed, jwt_validation = (default_validation EdDSA)\<lparr>v_issuer := Some [''appgate''],
      v_audience := Some [''appgate-gateway''], validate_exp := True, validate_nbf := False\<rparr>\<rparr>"
  have new: "jwt_new sample_lib (\<lambda>_. Inr ''ed-pem'') ?cfg = Inr ?v"
    by (simp add: jwt_new_def jwt_config_default_def unwrap_or_def map_err_def from_pem_def or_else_def
        sample_lib_def sample_jwt_def)
  have val: "jwt_validate sample_lib ?v ''ed'' = Inr sample_claims"
    by (simp add: jwt_validate_Inr sample_lib_def sample_jwt_def sample_alg_def checks_pass_def
        sample_claims_def sample_verifies_def default_validation_def)
  have "from_ed_pem sample_lib ''ed-pem'' = Inr Ed" by (simp add: sample_lib_def sample_jwt_def)
  with jwt_accepts_only [OF sample_lib_contract new val] new val show ?thesis
    by (intro exI [of _ ?v] exI [of _ sample_claims]) (auto simp: jwt_config_default_def unwrap_or_def)
qed

text \<open>
  Claim C40. A key file that holds an RSA or EC key is accepted at startup but useless: the
  validation admits EdDSA only, so every token is rejected.
\<close>

theorem non_ed_key_rejects_all:
  assumes "jwt_contract lib family claims_of verifies now iss (\<lambda>c. [aud c]) exp_at"
    and "from_ed_pem lib pem = Inl e" "from_pem lib pem i a = Inr v"
  shows "\<exists>e. jwt_validate lib v tok = Inl e"
proof (cases "jwt_validate lib v tok")
  case (Inr c)
  note C = jwt_contractD [OF assms(1)]
  have d: "decode lib deserialize_string tok (decoding_key v) (jwt_validation v) = Inr c"
    using Inr by (simp add: jwt_validate_Inr)
  have "family (decoding_key v) = Ed"
    using C(7) [OF d, of EdDSA] by (simp add: from_pem_Inr(1) [OF assms(3)] C(1) default_validation_def)
  moreover have "family (decoding_key v) = Rsa \<or> family (decoding_key v) = Ec"
    using from_pem_Inr(3) [OF assms(3,2)] C(3,4) by blast
  ultimately show ?thesis by auto
qed simp

theorem non_ed_key_rejects_all_witness:
  "\<exists>v. from_pem sample_lib ''rsa-pem'' ''appgate'' ''x'' = Inr v \<and> (\<exists>e. jwt_validate sample_lib v ''ed'' = Inl e)"
proof -
  have ed: "from_ed_pem sample_lib ''rsa-pem'' = Inl ''InvalidKeyFormat''"
    by (simp add: sample_lib_def sample_jwt_def)
  obtain v where v: "from_pem sample_lib ''rsa-pem'' ''appgate'' ''x'' = Inr v"
    by (simp add: from_pem_def or_else_def map_err_def Let_def sample_lib_def sample_jwt_def)
  from non_ed_key_rejects_all [OF sample_lib_contract ed v] v show ?thesis by blast
qed

text \<open>
  Claim C29. Soundness of the gateway crate's validator: the claims in the accepted token itself name
  the configured issuer and the configured audience and have not expired, without leeway; its
  signature verifies under the RSA key in the configured file with the algorithm its own header
  names, which is of the RSA family (any of RS256 to PS512; a shared-secret algorithm is never
  accepted against the public key); the validated identity is the token's subject, and absent
  roles, scope and token id become empty.
\<close>

theorem gw_jwt_accepts_only:
  assumes "jwt_contract lib family claims_of verifies now gw_iss gw_aud gw_exp"
    and "gw_jwt_new lib exists read_file path i a jwks = Inr v" "gw_jwt_validate lib v tok = Inr t"
  shows "\<exists>c alg pem key. claims_of deserialize_audience tok = Inr c \<and>
           gw_iss c = i \<and> a \<in> set (gw_aud c) \<and> now \<le> unat (gw_exp c) \<and>
           read_file path = Inr pem \<and> from_rsa_pem lib pem = Inr key \<and>
           decode_header lib tok = Inr alg \<and> algorithm_family alg = Rsa \<and> verifies tok key alg \<and>
           t = \<lparr>identity_id = gw_sub c, token_roles = unwrap_or (gw_roles c) [],
                token_scope = unwrap_or (gw_scope c) '''', token_id = unwrap_or (gw_jti c) '''',
                tenant_id = gw_tenant_id c, expiry = gw_exp c\<rparr>"
proof -
  note C = jwt_contractD [OF assms(1)]
  obtain alg k c where
    h: "decode_header lib tok = Inr alg" "static_key v = Some k" and
    d: "decode lib deserialize_audience tok k ((gw_validation v)\<lparr>algorithms := [alg]\<rparr>) = Inr c" and
    t: "t = \<lparr>identity_id = gw_sub c, token_roles = unwrap_or (gw_roles c) [],
             token_scope = unwrap_or (gw_scope c) '''', token_id = unwrap_or (gw_jti c) '''',
             tenant_id = gw_tenant_id c, expiry = gw_exp c\<rparr>"
    using assms(3) by (auto simp: gw_jwt_validate_def and_then_def Let_def split: sum.splits option.splits)
  have v: "gw_validation v = (validation_new lib RS256)\<lparr>v_issuer := Some [i], v_audience := Some [a], leeway := 0\<rparr>"
    and key: "\<exists>pem. read_file path = Inr pem \<and> from_rsa_pem lib pem = Inr k"
    using assms(2) h(2)
    by (auto simp: gw_jwt_new_def and_then_def map_err_def Let_def split: sum.splits if_splits)
  note val = v C(1) default_validation_def
  have "algorithm_family alg = Rsa" using C(7) [OF d, of alg] key C(3) by auto
  moreover have "verifies tok k alg" using C(6) [OF d] h(1) by (auto simp: val)
  moreover have "now \<le> unat (gw_exp c)" using C(8) [OF d] by (simp add: val)
  moreover have "gw_iss c = i" "a \<in> set (gw_aud c)" using C(9) [OF d] C(10) [OF d] by (auto simp: val)
  ultimately show ?thesis using h(1) t key C(5) [OF d] by blast
qed

definition sample_gw_claims :: gw_claims where
  "sample_gw_claims =
     \<lparr>gw_sub = ''alice'', gw_iss = ''idp'', gw_aud = [''a'', ''b''], gw_exp = 2000, gw_iat = 1000,
      gw_nbf = None, gw_jti = None, gw_roles = None, gw_scope = None, gw_tenant_id = None\<rparr>"

definition sample_gw_lib :: "(key_family, gw_claims, string list) jwt_lib" where
  "sample_gw_lib = sample_jwt 1500 sample_gw_claims gw_iss gw_aud gw_exp"

theorem gw_jwt_accepts_only_witness:
  "\<exists>v t. gw_jwt_new sample_gw_lib (\<lambda>_. True) (\<lambda>_. Inr ''rsa-pem'') ''k'' ''idp'' ''b'' None = Inr v \<and>
     gw_jwt_validate sample_gw_lib v ''rs512'' = Inr t \<and> identity_id t = ''alice'' \<and>
     gw_iss sample_gw_claims = ''idp'' \<and> ''b'' \<in> set (gw_aud sample_gw_claims) \<and>
     1500 \<le> unat (gw_exp sample_gw_claims)"
proof -
  let ?v = "\<lparr>static_key = Some Rsa, gw_validation = (default_validation RS256)\<lparr>v_issuer := Some [''idp''],
      v_audience := Some [''b''], leeway := 0\<rparr>\<rparr>"
  have C: "jwt_contract sample_gw_lib (\<lambda>k. k) (\<lambda>_ _. Inr sample_gw_claims) sample_verifies 1500 gw_iss gw_aud gw_exp"
    unfolding sample_gw_lib_def by (rule sample_jwt_contract)
  have new: "gw_jwt_new sample_gw_lib (\<lambda>_. True) (\<lambda>_. Inr ''rsa-pem'') ''k'' ''idp'' ''b'' None = Inr ?v"
    by (simp add: gw_jwt_new_def and_then_def map_err_def sample_gw_lib_def sample_jwt_def)
  obtain t where val: "gw_jwt_validate sample_gw_lib ?v ''rs512'' = Inr t"
    by (simp add: gw_jwt_validate_def and_then_def unwrap_or_def sample_gw_lib_def sample_jwt_def
        sample_alg_def checks_pass_def sample_gw_claims_def sample_verifies_def default_validation_def)
  have "gw_sub sample_gw_claims = ''alice''" by (simp add: sample_gw_claims_def)
  with gw_jwt_accepts_only [OF C new val] new val show ?thesis by auto
qed

text \<open>
  Without a readable key the gateway crate's validator fails closed: when the path is
  empty or no such file exists, construction succeeds and every token is rejected.
\<close>

theorem gw_no_key_rejects_all:
  assumes "path = '''' \<or> \<not> exists path"
  shows "\<exists>v. gw_jwt_new lib exists read_file path i a jwks = Inr v \<and>
           (\<forall>tok. \<exists>e. gw_jwt_validate lib v tok = Inl e)"
  using assms
  by (auto simp: gw_jwt_new_def gw_jwt_validate_def and_then_def Let_def split: sum.split)

theorem gw_no_key_rejects_all_witness:
  "\<exists>v. gw_jwt_new sample_gw_lib (\<lambda>_. False) (\<lambda>_. Inr ''rsa-pem'') ''/etc/appgate/jwt/verify.pem'' ''idp'' ''b'' None = Inr v \<and>
       (\<forall>tok. \<exists>e. gw_jwt_validate sample_gw_lib v tok = Inl e)"
  by (rule gw_no_key_rejects_all) simp

text \<open>
  The audience claim: the visitor accepts exactly a string or an array of strings, and
  returns the strings in their order.
\<close>

theorem audience_exact:
  "(deserialize_audience j = Inr ss) =
     ((\<exists>s. j = JString s \<and> ss = [s]) \<or> j = JArray (map JString ss))"
  by (cases j) (auto simp: deserialize_strings_iff)

end
