(* ===== verification/Metrics.thy ===== *)
theory Metrics
  imports Http
begin

text \<open>
  The metrics modules \<open>rust-gateway/src/metrics.rs\<close> and \<open>gateway/src/metrics.rs\<close>. Prometheus is only
  called: a recording operation is the list of calls it makes on the registered collectors, in
  order. The collectors are their name, kind and label names. The text encoder is a parameter.
\<close>

section \<open>Collectors and calls\<close>

datatype metric_kind = Counter | Gauge | Histogram

record collector =
  metric_name :: string
  metric_kind :: metric_kind
  label_names :: "string list"

text \<open>A double is its 64-bit pattern: the modules only pass it on.\<close>

type_synonym f64_bits = "64 word"

datatype metric_call =
    Inc collector "string list"
  | Observe collector "string list" nat
  | SetGauge collector f64_bits

text \<open>
  A call is well formed when the collector has the kind the method belongs to and one value is
  given per label; Prometheus panics otherwise.
\<close>

fun call_ok :: "metric_call \<Rightarrow> bool" where
  "call_ok (Inc c vs) \<longleftrightarrow> metric_kind c = Counter \<and> length vs = length (label_names c)"
| "call_ok (Observe c vs d) \<longleftrightarrow> metric_kind c = Histogram \<and> length vs = length (label_names c)"
| "call_ok (SetGauge c x) \<longleftrightarrow> metric_kind c = Gauge \<and> label_names c = []"

text \<open>The value a call gives to a label, by the label's name.\<close>

fun call_label :: "metric_call \<Rightarrow> string \<rightharpoonup> string" where
  "call_label (Inc c vs) = map_of (zip (label_names c) vs)"
| "call_label (Observe c vs d) = map_of (zip (label_names c) vs)"
| "call_label (SetGauge c x) = Map.empty"

fun call_collector :: "metric_call \<Rightarrow> collector" where
  "call_collector (Inc c vs) = c"
| "call_collector (Observe c vs d) = c"
| "call_collector (SetGauge c x) = c"

section \<open>rust-gateway\<close>

definition requests_total :: collector where
  "requests_total =
     \<lparr>metric_name = ''gateway_requests_total'', metric_kind = Counter,
      label_names = [''endpoint'', ''status'']\<rparr>"

definition request_duration :: collector where
  "request_duration =
     \<lparr>metric_name = ''gateway_request_duration_seconds'', metric_kind = Histogram,
      label_names = [''endpoint'']\<rparr>"

definition record_request :: "string \<Rightarrow> u16 \<Rightarrow> nat \<Rightarrow> metric_call list" where
  "record_request ep status dur =
     (let status_str = show_nat (unat status) in
      [Inc requests_total [ep, status_str], Observe request_duration [ep] dur])"

text \<open>
  UTF-8 as \<open>String::from_utf8\<close> checks it, over the byte values.
\<close>

definition cont :: "nat \<Rightarrow> bool" where
  "cont b \<longleftrightarrow> 128 \<le> b \<and> b < 192"

fun utf8 :: "nat list \<Rightarrow> bool" where
  "utf8 [] = True"
| "utf8 (a # bs) =
     (if a < 128 then utf8 bs
      else
        (case bs of
           [] \<Rightarrow> False
         | b # cs \<Rightarrow>
             if 194 \<le> a \<and> a < 224 then cont b \<and> utf8 cs
             else
               (case cs of
                  [] \<Rightarrow> False
                | c # ds \<Rightarrow>
                    if 224 \<le> a \<and> a < 240 then
                      cont b \<and> (a = 224 \<longrightarrow> 160 \<le> b) \<and> (a = 237 \<longrightarrow> b < 160) \<and> cont c \<and> utf8 ds
                    else
                      (case ds of
                         [] \<Rightarrow> False
                       | d # es \<Rightarrow>
                           240 \<le> a \<and> a < 245 \<and> cont b \<and> (a = 240 \<longrightarrow> 144 \<le> b) \<and> (a = 244 \<longrightarrow> b < 144) \<and>
                           cont c \<and> cont d \<and> utf8 es))))"

definition from_utf8 :: "bytes \<Rightarrow> string option" where
  "from_utf8 bs = (if utf8 (map of_char bs) then Some bs else None)"

text \<open>\<open>encoded\<close> is the encoder's answer for the families gathered now.\<close>

definition gather_metrics :: "string + bytes \<Rightarrow> string" where
  "gather_metrics encoded =
     (case encoded of
        Inl e \<Rightarrow> ''# Error encoding metrics: '' @ e @ [CHR 0x0A]
      | Inr buffer \<Rightarrow> unwrap_or (from_utf8 buffer) '''')"

section \<open>The gateway crate\<close>

definition ACTIVE_CONNECTIONS :: collector where
  "ACTIVE_CONNECTIONS =
     \<lparr>metric_name = ''gateway_connections_active'', metric_kind = Gauge, label_names = []\<rparr>"

definition REQUESTS_TOTAL :: collector where
  "REQUESTS_TOTAL =
     \<lparr>metric_name = ''gateway_requests_total'', metric_kind = Counter,
      label_names = [''status'', ''endpoint'']\<rparr>"

definition REQUEST_DURATION :: collector where
  "REQUEST_DURATION =
     \<lparr>metric_name = ''gateway_request_duration_seconds'', metric_kind = Histogram,
      label_names = [''endpoint'']\<rparr>"

definition TLS_HANDSHAKE_DURATION :: collector where
  "TLS_HANDSHAKE_DURATION =
     \<lparr>metric_name = ''gateway_tls_handshake_seconds'', metric_kind = Histogram,
      label_names = [''tls_version'']\<rparr>"

definition UPSTREAM_DURATION :: collector where
  "UPSTREAM_DURATION =
     \<lparr>metric_name = ''gateway_upstream_duration_seconds'', metric_kind = Histogram,
      label_names = [''upstream'']\<rparr>"

definition AUTH_FAILURES :: collector where
  "AUTH_FAILURES =
     \<lparr>metric_name = ''gateway_auth_failures_total'', metric_kind = Counter,
      label_names = [''reason'']\<rparr>"

definition RATE_LIMIT_EXCEEDED :: collector where
  "RATE_LIMIT_EXCEEDED =
     \<lparr>metric_name = ''gateway_rate_limit_exceeded_total'', metric_kind = Counter,
      label_names = [''identity'']\<rparr>"

lemmas collector_defs =
  requests_total_def request_duration_def ACTIVE_CONNECTIONS_def REQUESTS_TOTAL_def
  REQUEST_DURATION_def TLS_HANDSHAKE_DURATION_def UPSTREAM_DURATION_def AUTH_FAILURES_def
  RATE_LIMIT_EXCEEDED_def

definition status_to_string :: "u16 \<Rightarrow> string" where
  "status_to_string status =
     (if status = 200 then ''200'' else if status = 201 then ''201''
      else if status = 204 then ''204'' else if status = 301 then ''301''
      else if status = 302 then ''302'' else if status = 400 then ''400''
      else if status = 401 then ''401'' else if status = 403 then ''403''
      else if status = 404 then ''404'' else if status = 429 then ''429''
      else if status = 500 then ''500'' else if status = 502 then ''502''
      else if status = 503 then ''503'' else ''other'')"

definition gw_record_request :: "string \<Rightarrow> u16 \<Rightarrow> nat \<Rightarrow> metric_call list" where
  "gw_record_request ep status dur =
     [Observe REQUEST_DURATION [ep] dur, Inc REQUESTS_TOTAL [status_to_string status, ep]]"

definition record_tls_handshake :: "string \<Rightarrow> nat \<Rightarrow> metric_call list" where
  "record_tls_handshake tls_version dur = [Observe TLS_HANDSHAKE_DURATION [tls_version] dur]"

definition record_upstream_duration :: "string \<Rightarrow> nat \<Rightarrow> metric_call list" where
  "record_upstream_duration ups dur = [Observe UPSTREAM_DURATION [ups] dur]"

definition record_auth_failure :: "string \<Rightarrow> metric_call list" where
  "record_auth_failure reason = [Inc AUTH_FAILURES [reason]]"

definition record_rate_limit_exceeded :: "string \<Rightarrow> metric_call list" where
  "record_rate_limit_exceeded ident = [Inc RATE_LIMIT_EXCEEDED [ident]]"

definition set_active_connections :: "f64_bits \<Rightarrow> metric_call list" where
  "set_active_connections count = [SetGauge ACTIVE_CONNECTIONS count]"

definition record_overload_rejection :: "string \<Rightarrow> metric_call list" where
  "record_overload_rejection reason = []"

definition record_upstream_failure :: "string \<Rightarrow> string \<Rightarrow> metric_call list" where
  "record_upstream_failure prov reason = []"

text \<open>\<open>encode_utf8(..).unwrap()\<close>.\<close>

definition gw_gather_metrics :: "string + string \<Rightarrow> string outcome" where
  "gw_gather_metrics encoded = unwrap_result encoded"

section \<open>Lemmas\<close>

definition known_statuses :: "u16 list" where
  "known_statuses = [200, 201, 204, 301, 302, 400, 401, 403, 404, 429, 500, 502, 503]"

lemma show_status [simp]:
  "show_nat 200 = ''200''" "show_nat 201 = ''201''" "show_nat 204 = ''204''" "show_nat 301 = ''301''"
  "show_nat 302 = ''302''" "show_nat 400 = ''400''" "show_nat 401 = ''401''" "show_nat 403 = ''403''"
  "show_nat 404 = ''404''" "show_nat 429 = ''429''" "show_nat 500 = ''500''" "show_nat 502 = ''502''"
  "show_nat 503 = ''503''"
  by (simp_all add: show_nat.simps digit_simps)

text \<open>The number of times a collector was counted or observed under given values.\<close>

definition counted :: "collector \<Rightarrow> string list \<Rightarrow> metric_call list \<Rightarrow> nat" where
  "counted c vs calls = length (filter (\<lambda>m. m = Inc c vs) calls)"

definition observed :: "collector \<Rightarrow> string list \<Rightarrow> metric_call list \<Rightarrow> nat" where
  "observed c vs calls = length (filter (\<lambda>m. \<exists>d. m = Observe c vs d) calls)"

lemma counted_append: "counted c vs (xs @ ys) = counted c vs xs + counted c vs ys"
  by (simp add: counted_def)

lemma observed_append: "observed c vs (xs @ ys) = observed c vs xs + observed c vs ys"
  by (simp add: observed_def)

text \<open>What a list of completed requests makes the two crates record.\<close>

type_synonym completed = "string \<times> u16 \<times> nat"

definition record_all :: "(string \<Rightarrow> u16 \<Rightarrow> nat \<Rightarrow> metric_call list) \<Rightarrow> completed list \<Rightarrow> metric_call list" where
  "record_all rec rs = concat (map (\<lambda>(ep, st, d). rec ep st d) rs)"

lemma record_all_simps [simp]:
  "record_all rec [] = []" "record_all rec ((ep, st, d) # rs) = rec ep st d @ record_all rec rs"
  by (simp_all add: record_all_def)

lemma record_all_counts:
  "counted requests_total [ep, s] (record_all record_request rs) =
     length (filter (\<lambda>(e, st, d). e = ep \<and> show_nat (unat st) = s) rs) \<and>
   observed request_duration [ep] (record_all record_request rs) =
     length (filter (\<lambda>(e, st, d). e = ep) rs) \<and>
   counted REQUESTS_TOTAL [s, ep] (record_all gw_record_request rs) =
     length (filter (\<lambda>(e, st, d). e = ep \<and> status_to_string st = s) rs) \<and>
   observed REQUEST_DURATION [ep] (record_all gw_record_request rs) =
     length (filter (\<lambda>(e, st, d). e = ep) rs)"
proof (induction rs)
  case (Cons r rs)
  obtain e st d where "r = (e, st, d)" by (cases r)
  with Cons show ?case
    by (auto simp: counted_append observed_append)
      (auto simp: counted_def observed_def record_request_def gw_record_request_def Let_def)
qed (simp add: counted_def observed_def)

text \<open>
  What a reader of the registry sees after a list of calls: the value of a counter, the observations of a
  histogram and the last value of a gauge, all by metric name and by the values under the label names.
\<close>

definition counter_value :: "string \<Rightarrow> (string \<rightharpoonup> string) \<Rightarrow> metric_call list \<Rightarrow> nat" where
  "counter_value n labels calls =
     length (filter (\<lambda>m. case m of Inc c vs \<Rightarrow> metric_name c = n \<and> call_label m = labels | _ \<Rightarrow> False) calls)"

definition observations :: "string \<Rightarrow> (string \<rightharpoonup> string) \<Rightarrow> metric_call list \<Rightarrow> nat list" where
  "observations n labels calls =
     concat (map (\<lambda>m. case m of Observe c vs d \<Rightarrow> if metric_name c = n \<and> call_label m = labels then [d] else []
                      | _ \<Rightarrow> []) calls)"

definition gauge_values :: "string \<Rightarrow> metric_call list \<Rightarrow> f64_bits list" where
  "gauge_values n calls =
     concat (map (\<lambda>m. case m of SetGauge c x \<Rightarrow> if metric_name c = n then [x] else [] | _ \<Rightarrow> []) calls)"

lemma registry_append [simp]:
  "counter_value n l (xs @ ys) = counter_value n l xs + counter_value n l ys"
  "observations n l (xs @ ys) = observations n l xs @ observations n l ys"
  "gauge_values n (xs @ ys) = gauge_values n xs @ gauge_values n ys"
  by (simp_all add: counter_value_def observations_def gauge_values_def)

lemma registry_Nil [simp]:
  "counter_value n l [] = 0" "observations n l [] = []" "gauge_values n [] = []"
  by (simp_all add: counter_value_def observations_def gauge_values_def)

lemma registry_Cons [simp]:
  "counter_value n l (Inc c vs # ms) =
     (if metric_name c = n \<and> map_of (zip (label_names c) vs) = l then 1 else 0) + counter_value n l ms"
  "counter_value n l (Observe c vs d # ms) = counter_value n l ms"
  "counter_value n l (SetGauge c x # ms) = counter_value n l ms"
  "observations n l (Observe c vs d # ms) =
     (if metric_name c = n \<and> map_of (zip (label_names c) vs) = l then [d] else []) @ observations n l ms"
  "observations n l (Inc c vs # ms) = observations n l ms"
  "observations n l (SetGauge c x # ms) = observations n l ms"
  "gauge_values n (SetGauge c x # ms) = (if metric_name c = n then [x] else []) @ gauge_values n ms"
  "gauge_values n (Inc c vs # ms) = gauge_values n ms"
  "gauge_values n (Observe c vs d # ms) = gauge_values n ms"
  by (auto simp: counter_value_def observations_def gauge_values_def)

lemma one_label_eq [simp]: "[k \<mapsto> (a :: 'v)] = [k \<mapsto> b] \<longleftrightarrow> a = b"
  by (metis fun_upd_same option.inject)

lemma two_labels_eq [simp]:
  "k \<noteq> l \<Longrightarrow> [k \<mapsto> (a :: 'v), l \<mapsto> b] = [k \<mapsto> a', l \<mapsto> b'] \<longleftrightarrow> a = a' \<and> b = b'"
  by (metis fun_upd_other fun_upd_same option.inject)

text \<open>The events the gateway crate reports to its metrics module, and the operation each one calls.\<close>

datatype metric_event =
    Completed string u16 nat
  | Tls_handshake string nat
  | Upstream_call string nat
  | Auth_failure string
  | Rate_limited string
  | Active f64_bits
  | Overloaded string
  | Upstream_failed string string

fun record_event :: "metric_event \<Rightarrow> metric_call list" where
  "record_event (Completed ep st d) = gw_record_request ep st d"
| "record_event (Tls_handshake ver d) = record_tls_handshake ver d"
| "record_event (Upstream_call ups d) = record_upstream_duration ups d"
| "record_event (Auth_failure why) = record_auth_failure why"
| "record_event (Rate_limited ident) = record_rate_limit_exceeded ident"
| "record_event (Active x) = set_active_connections x"
| "record_event (Overloaded why) = record_overload_rejection why"
| "record_event (Upstream_failed prov why) = record_upstream_failure prov why"

definition record_events :: "metric_event list \<Rightarrow> metric_call list" where
  "record_events es = concat (map record_event es)"

lemmas recorder_defs =
  record_request_def gw_record_request_def record_tls_handshake_def record_upstream_duration_def
  record_auth_failure_def record_rate_limit_exceeded_def set_active_connections_def
  record_overload_rejection_def record_upstream_failure_def

lemma status_label:
  "status_to_string st =
     (if st \<in> set [200, 201, 204, 301, 302, 400, 401, 403, 404, 429, 500, 502, 503]
      then show_nat (unat st) else ''other'')"
  by (auto simp: status_to_string_def)

lemma auth_and_limits:
  "counter_value ''gateway_auth_failures_total'' [''reason'' \<mapsto> why] (concat (map record_event es)) =
     count_list es (Auth_failure why)"
  "counter_value ''gateway_rate_limit_exceeded_total'' [''identity'' \<mapsto> ident] (concat (map record_event es)) =
     count_list es (Rate_limited ident)"
proof (induction es)
  case (Cons e es)
  case 1 from Cons show ?case by (cases e) (simp_all add: recorder_defs collector_defs del: fun_upd_apply)
  case 2 from Cons show ?case by (cases e) (simp_all add: recorder_defs collector_defs del: fun_upd_apply)
qed simp_all

lemma requests_counted:
  "counter_value ''gateway_requests_total'' [''endpoint'' \<mapsto> ep, ''status'' \<mapsto> s] (concat (map record_event es)) =
     length (filter (\<lambda>e. \<exists>st d. e = Completed ep st d \<and> status_to_string st = s) es)"
proof (induction es)
  case (Cons e es)
  then show ?case by (cases e) (simp_all add: recorder_defs collector_defs del: fun_upd_apply)
qed simp

lemma durations_kept:
  "observations ''gateway_request_duration_seconds'' [''endpoint'' \<mapsto> ep] (concat (map record_event es)) =
     concat (map (\<lambda>e. case e of Completed ep' st d \<Rightarrow> if ep' = ep then [d] else [] | _ \<Rightarrow> []) es)"
  "observations ''gateway_tls_handshake_seconds'' [''tls_version'' \<mapsto> ver] (concat (map record_event es)) =
     concat (map (\<lambda>e. case e of Tls_handshake v d \<Rightarrow> if v = ver then [d] else [] | _ \<Rightarrow> []) es)"
  "observations ''gateway_upstream_duration_seconds'' [''upstream'' \<mapsto> ups] (concat (map record_event es)) =
     concat (map (\<lambda>e. case e of Upstream_call u d \<Rightarrow> if u = ups then [d] else [] | _ \<Rightarrow> []) es)"
  "gauge_values ''gateway_connections_active'' (concat (map record_event es)) =
     concat (map (\<lambda>e. case e of Active x \<Rightarrow> [x] | _ \<Rightarrow> []) es)"
proof (induction es)
  case (Cons e es)
  case 1 from Cons show ?case by (cases e) (simp_all add: recorder_defs collector_defs del: fun_upd_apply)
  case 2 from Cons show ?case by (cases e) (simp_all add: recorder_defs collector_defs del: fun_upd_apply)
  case 3 from Cons show ?case by (cases e) (simp_all add: recorder_defs collector_defs del: fun_upd_apply)
  case 4 from Cons show ?case by (cases e) (simp_all add: recorder_defs collector_defs del: fun_upd_apply)
qed simp_all

lemma calls_made:
  "list_all call_ok (concat (map record_event es)) \<and>
   length (concat (map record_event es)) =
     sum_list (map (\<lambda>e. case e of Completed _ _ _ \<Rightarrow> 2 | Overloaded _ \<Rightarrow> 0 | Upstream_failed _ _ \<Rightarrow> 0 | _ \<Rightarrow> 1) es)"
proof (induction es)
  case (Cons e es)
  then show ?case by (cases e) (simp_all add: recorder_defs collector_defs del: fun_upd_apply)
qed simp

section \<open>Properties\<close>

text \<open>
  Claim C34. The registry tells what happened. After any list of events of the gateway crate no call
  has panicked; the counter of every failure reason, limited identity and endpoint with status (its
  decimal code if it is one of thirteen, \<open>other\<close> for the rest) is the number of those events, the histograms
  hold the durations of the requests, handshakes and upstream calls under their label, in order, the
  gauge went through the reported values, and nothing else was recorded: overload rejections and
  upstream failures leave no trace in the metrics.
\<close>

theorem registry_tells_events:
  "list_all call_ok (record_events es) \<and>
   counter_value ''gateway_auth_failures_total'' [''reason'' \<mapsto> why] (record_events es) = count_list es (Auth_failure why) \<and>
   counter_value ''gateway_rate_limit_exceeded_total'' [''identity'' \<mapsto> ident] (record_events es) =
     count_list es (Rate_limited ident) \<and>
   counter_value ''gateway_requests_total'' [''endpoint'' \<mapsto> ep, ''status'' \<mapsto> s] (record_events es) =
     length (filter (\<lambda>e. \<exists>st d. e = Completed ep st d \<and>
       s = (if st \<in> set [200, 201, 204, 301, 302, 400, 401, 403, 404, 429, 500, 502, 503]
            then show_nat (unat st) else ''other'')) es) \<and>
   observations ''gateway_request_duration_seconds'' [''endpoint'' \<mapsto> ep] (record_events es) =
     concat (map (\<lambda>e. case e of Completed ep' st d \<Rightarrow> if ep' = ep then [d] else [] | _ \<Rightarrow> []) es) \<and>
   observations ''gateway_tls_handshake_seconds'' [''tls_version'' \<mapsto> ver] (record_events es) =
     concat (map (\<lambda>e. case e of Tls_handshake v d \<Rightarrow> if v = ver then [d] else [] | _ \<Rightarrow> []) es) \<and>
   observations ''gateway_upstream_duration_seconds'' [''upstream'' \<mapsto> ups] (record_events es) =
     concat (map (\<lambda>e. case e of Upstream_call u d \<Rightarrow> if u = ups then [d] else [] | _ \<Rightarrow> []) es) \<and>
   gauge_values ''gateway_connections_active'' (record_events es) =
     concat (map (\<lambda>e. case e of Active x \<Rightarrow> [x] | _ \<Rightarrow> []) es) \<and>
   length (record_events es) =
     sum_list (map (\<lambda>e. case e of Completed _ _ _ \<Rightarrow> 2 | Overloaded _ \<Rightarrow> 0 | Upstream_failed _ _ \<Rightarrow> 0 | _ \<Rightarrow> 1) es)"
  unfolding record_events_def
  by (simp only: calls_made auth_and_limits durations_kept requests_counted status_label eq_commute [of s] simp_thms)

text \<open>
  The request counters agree with the traffic: after a list of completed requests each
  crate has counted an endpoint and status label as often as they occur, and has one duration
  observation per request of the endpoint.
\<close>

theorem red_metrics_exact:
  "counted requests_total [ep, s] (record_all record_request rs) =
     length (filter (\<lambda>(e, st, d). e = ep \<and> show_nat (unat st) = s) rs) \<and>
   observed request_duration [ep] (record_all record_request rs) =
     length (filter (\<lambda>(e, st, d). e = ep) rs) \<and>
   counted REQUESTS_TOTAL [s, ep] (record_all gw_record_request rs) =
     length (filter (\<lambda>(e, st, d). e = ep \<and> status_to_string st = s) rs) \<and>
   observed REQUEST_DURATION [ep] (record_all gw_record_request rs) =
     length (filter (\<lambda>(e, st, d). e = ep) rs)"
  by (rule record_all_counts)

text \<open>
  The status label of the gateway crate: the decimal code for the thirteen known
  statuses and \<open>other\<close> for the rest, so it takes at most fourteen values, and two different
  known statuses never share one.
\<close>

theorem status_label_exact:
  "status_to_string st = (if st \<in> set known_statuses then show_nat (unat st) else ''other'') \<and>
   finite (range status_to_string) \<and> card (range status_to_string) \<le> 14 \<and>
   distinct (map status_to_string known_statuses)"
proof -
  have "range status_to_string \<subseteq> set (''other'' # map status_to_string known_statuses)"
    by (auto simp: status_to_string_def known_statuses_def)
  moreover have "card (set (''other'' # map status_to_string known_statuses)) \<le> 14"
    by (rule order_trans [OF card_length]) (simp add: known_statuses_def)
  ultimately have "finite (range status_to_string) \<and> card (range status_to_string) \<le> 14"
    by (meson card_mono finite_set finite_subset le_trans)
  then show ?thesis by (auto simp: status_to_string_def known_statuses_def)
qed

end
