(* ===== verification/Server.thy ===== *)
theory Server
  imports Proxy Routing Rate_Limit Policy Ssrf Audit_Log Response_Cache Breaker_Registry Health Jwt Metrics
begin

text \<open>
  The request path of \<open>rust-gateway/src/server.rs\<close> with the shared state of
  \<open>rust-gateway/src/main.rs\<close>: responses, routing by method and path, the proxy handler, and the
  wrapper that logs and counts. A handler returns its response and the requests it sent upstream.
\<close>

section \<open>The shared state\<close>

text \<open>
  One field per component. Unit structs (\<open>PolicyEngine\<close>, \<open>SsrfGuard\<close>, \<open>MetricsCollector\<close>) have type
  \<open>unit\<close>. The type variables are the decoding key, the Redis connection, the \<open>governor\<close> limiter, the
  router's and the proxy's HTTP clients and the \<open>moka\<close> cache.
\<close>

record ('k, 'conn, 'g, 'c, 'm, 'p) app_state =
  config :: gateway_config
  app_jwt_validator :: "'k jwt_validator"
  app_rate_limiter :: "('conn, 'g) rate_limiter"
  app_policy_engine :: unit
  app_ssrf_guard :: unit
  app_audit_logger :: "audit_event audit_logger"
  app_metrics :: unit
  app_router :: "'c router"
  app_cache :: "'m response_cache"
  app_circuit_breaker :: registry
  app_health_checker :: health_table
  proxy_client :: 'p

section \<open>Responses\<close>

definition with_security_headers :: "http_response \<Rightarrow> http_response" where
  "with_security_headers builder =
     add_header ''permissions-policy'' ''geolocation=(), microphone=(), camera=()''
      (add_header ''referrer-policy'' ''strict-origin-when-cross-origin''
       (add_header ''strict-transport-security'' ''max-age=31536000; includeSubDomains''
        (add_header ''x-xss-protection'' ''1; mode=block''
         (add_header ''x-frame-options'' ''DENY''
          (add_header ''x-content-type-options'' ''nosniff'' builder)))))"

definition health_response :: "http_lib \<Rightarrow> http_response outcome" where
  "health_response lib =
     unwrap_result (build_body lib ''{\"status\":\"healthy\"}''
       (add_header ''content-type'' ''application/json''
         (set_status 200 (with_security_headers response_builder))))"

definition ready_response :: "http_lib \<Rightarrow> http_response outcome" where
  "ready_response lib =
     unwrap_result (build_body lib ''{\"status\":\"ready\"}''
       (add_header ''content-type'' ''application/json''
         (set_status 200 (with_security_headers response_builder))))"

definition metrics_response :: "http_lib \<Rightarrow> string + bytes \<Rightarrow> http_response outcome" where
  "metrics_response lib encoded =
     (let metrics = gather_metrics encoded in
      unwrap_result (build_body lib metrics
        (add_header ''content-type'' ''text/plain; version=0.0.4''
          (set_status 200 (with_security_headers response_builder)))))"

definition not_found_response :: "http_lib \<Rightarrow> string \<Rightarrow> http_response outcome" where
  "not_found_response lib request_id =
     unwrap_result (build_body lib
       ''{\"error\":\"not_found\",\"message\":\"The requested resource was not found\"}''
       (add_header ''x-request-id'' request_id
         (add_header ''content-type'' ''application/json''
           (set_status 404 (with_security_headers response_builder)))))"

definition proxy_error_response ::
  "http_lib \<Rightarrow> u16 \<Rightarrow> string \<Rightarrow> string \<Rightarrow> string \<Rightarrow> http_response outcome" where
  "proxy_error_response lib status code message request_id =
     (let body = ''{\"error\":\"'' @ code @ ''\",\"message\":\"'' @ message @
                 ''\",\"request_id\":\"'' @ request_id @ ''\"}'' in
      unwrap_result (build_body lib body
        (add_header ''x-request-id'' request_id
          (add_header ''content-type'' ''application/json''
            (set_status status (with_security_headers response_builder))))))"

section \<open>The proxy handler\<close>

definition max_body_bytes :: nat where
  "max_body_bytes = 10 * 1024 * 1024"

text \<open>\<open>Request::builder()\<close> with the method and URI given and the handler's two headers.\<close>

definition build_proxy_request ::
  "http_lib \<Rightarrow> string \<Rightarrow> string \<Rightarrow> string \<Rightarrow> bytes \<Rightarrow> string + http_request" where
  "build_proxy_request lib method url request_id body =
     (let hs = [(''content-type'', ''application/json''), (''x-request-id'', request_id)] in
      if uri_ok lib url \<and> headers_ok lib hs
      then Inr \<lparr>req_method = method, req_path = url, req_query = None, req_headers = hs, req_body = Inr body\<rparr>
      else Inl ''http::Error'')"

definition handle_proxy ::
  "http_lib \<Rightarrow> ('p \<Rightarrow> upstream_send) \<Rightarrow> ('k, 'conn, 'g, 'c, 'm, 'p) app_state \<Rightarrow> http_request \<Rightarrow> string \<Rightarrow>
     http_response outcome \<times> client_request list" where
  "handle_proxy lib client_send st req request_id =
     (let method = req_method req; path = req_path req in
      case req_body req of
        Inl e \<Rightarrow>
          (proxy_error_response lib 400 ''bad_request'' ''Failed to read request body'' request_id, [])
      | Inr body \<Rightarrow>
          if length body > max_body_bytes then
            (proxy_error_response lib 413 ''payload_too_large''
               (''Body exceeds '' @ show_nat max_body_bytes @ '' bytes'') request_id, [])
          else
            (let upstream_url = unwrap_or (select (app_router st) path) ''http://localhost:8080'' in
             case build_proxy_request lib method upstream_url request_id body of
               Inl e \<Rightarrow>
                 (proxy_error_response lib 500 ''internal_error'' ''Failed to build upstream request''
                    request_id, [])
             | Inr proxy_req \<Rightarrow>
                 (case forward lib (client_send (proxy_client st)) proxy_req upstream_url of
                    (Panicked e, sent) \<Rightarrow> (Panicked e, sent)
                  | (Returned (Inr resp), sent) \<Rightarrow> (Returned resp, sent)
                  | (Returned (Inl e), sent) \<Rightarrow>
                      (proxy_error_response lib 502 ''upstream_error''
                         (''Upstream request failed: '' @ proxy_error_display e) request_id, sent))))"

section \<open>Routing and the request wrapper\<close>

definition route_request ::
  "http_lib \<Rightarrow> ('p \<Rightarrow> upstream_send) \<Rightarrow> string + bytes \<Rightarrow> ('k, 'conn, 'g, 'c, 'm, 'p) app_state \<Rightarrow>
     http_request \<Rightarrow> string \<Rightarrow> http_response outcome \<times> client_request list" where
  "route_request lib client_send encoded st req request_id =
     (let m = req_method req; p = req_path req in
      if (m = ''GET'' \<and> p = ''/healthz'') \<or> (m = ''GET'' \<and> p = ''/health'') then (health_response lib, [])
      else if (m = ''GET'' \<and> p = ''/readyz'') \<or> (m = ''GET'' \<and> p = ''/ready'') then (ready_response lib, [])
      else if m = ''GET'' \<and> p = ''/metrics'' then (metrics_response lib encoded, [])
      else if (m = ''POST'' \<and> p = ''/v1/proxy'') \<or> (m = ''POST'' \<and> p = ''/v1/chat/completions'')
        then handle_proxy lib client_send st req request_id
      else (not_found_response lib request_id, []))"

text \<open>The access log line of a request, with what the wrapper returns and records.\<close>

record access_log =
  log_method :: string
  log_path :: string
  log_status :: u16
  log_duration_ms :: nat
  log_request_id :: string

record handled =
  h_response :: http_response
  h_sent :: "client_request list"
  h_log :: access_log
  h_metrics :: "metric_call list"

text \<open>
  \<open>dur\<close> is the time from the start of the request to its completion, in nanoseconds. The result
  type of the source has an error branch (\<open>hyper::Error\<close>), but every branch of \<open>route_request\<close> and
  \<open>handle_proxy\<close> returns \<open>Ok\<close>, so the default status for an error is never used and a response is
  always there.
\<close>

definition handle_request ::
  "http_lib \<Rightarrow> ('p \<Rightarrow> upstream_send) \<Rightarrow> string + bytes \<Rightarrow> ('k, 'conn, 'g, 'c, 'm, 'p) app_state \<Rightarrow>
     http_request \<Rightarrow> string \<Rightarrow> nat \<Rightarrow> handled outcome" where
  "handle_request lib client_send encoded st req request_id dur =
     (case route_request lib client_send encoded st req request_id of
        (Panicked e, sent) \<Rightarrow> Panicked e
      | (Returned response, sent) \<Rightarrow>
          (let status = resp_status response in
           Returned
             \<lparr>h_response = response, h_sent = sent,
              h_log = \<lparr>log_method = req_method req, log_path = req_path req, log_status = status,
                       log_duration_ms = dur div 1000000, log_request_id = request_id\<rparr>,
              h_metrics = record_request (req_path req) status dur\<rparr>))"

section \<open>Responses under the contract\<close>

definition security_headers :: headers where
  "security_headers =
     [(''x-content-type-options'', ''nosniff''),
      (''x-frame-options'', ''DENY''),
      (''x-xss-protection'', ''1; mode=block''),
      (''strict-transport-security'', ''max-age=31536000; includeSubDomains''),
      (''referrer-policy'', ''strict-origin-when-cross-origin''),
      (''permissions-policy'', ''geolocation=(), microphone=(), camera=()'')]"

lemma with_security_headers_eq:
  "with_security_headers b = b\<lparr>resp_headers := resp_headers b @ security_headers\<rparr>"
  by (simp add: with_security_headers_def add_header_def security_headers_def)

text \<open>A response of the gateway itself: the security headers, then the ones given.\<close>

definition own_response :: "u16 \<Rightarrow> headers \<Rightarrow> bytes \<Rightarrow> http_response" where
  "own_response status hs body =
     \<lparr>resp_status = status, resp_headers = security_headers @ hs, resp_body = body\<rparr>"

definition json_type :: "string \<times> string" where
  "json_type = (''content-type'', ''application/json'')"

text \<open>The text of an error body, with the code, message and request id in place.\<close>

definition error_body :: "string \<Rightarrow> string \<Rightarrow> string \<Rightarrow> bytes" where
  "error_body code message request_id =
     ''{\"error\":\"'' @ code @ ''\",\"message\":\"'' @ message @
     ''\",\"request_id\":\"'' @ request_id @ ''\"}''"

lemma header_values_visible:
  "list_all (\<lambda>(n, v). token n \<and> visible v) (security_headers @ [json_type])"
  "token ''content-type''" "visible ''text/plain; version=0.0.4''" "token ''x-request-id''"
  "visible ''application/json''"
  by (simp_all add: security_headers_def json_type_def http_chars)

lemma own_headers_ok:
  assumes "http_contract lib" "visible request_id"
  shows "headers_ok lib (security_headers @ [json_type])"
    and "headers_ok lib (security_headers @ [(''content-type'', ''text/plain; version=0.0.4'')])"
    and "headers_ok lib (security_headers @ [json_type, (''x-request-id'', request_id)])"
    and "headers_ok lib [json_type, (''x-request-id'', request_id)]"
  using header_values_visible assms(2)
  by (auto intro!: headers_ok_visible [OF assms(1)] simp: json_type_def)

lemma own_responses:
  assumes "http_contract lib" "visible request_id"
  shows "health_response lib = Returned (own_response 200 [json_type] ''{\"status\":\"healthy\"}'')"
    and "ready_response lib = Returned (own_response 200 [json_type] ''{\"status\":\"ready\"}'')"
    and "metrics_response lib encoded =
           Returned (own_response 200 [(''content-type'', ''text/plain; version=0.0.4'')] (gather_metrics encoded))"
    and "not_found_response lib request_id =
           Returned (own_response 404 [json_type, (''x-request-id'', request_id)]
             ''{\"error\":\"not_found\",\"message\":\"The requested resource was not found\"}'')"
    and "proxy_error_response lib status code message request_id =
           Returned (own_response status [json_type, (''x-request-id'', request_id)]
             (error_body code message request_id))"
  using own_headers_ok [OF assms]
  by (simp_all add: health_response_def ready_response_def metrics_response_def not_found_response_def
      proxy_error_response_def own_response_def with_security_headers_eq add_header_def set_status_def
      response_builder_def build_body_ok json_type_def error_body_def Let_def)

text \<open>What the proxy handler sends, if anything.\<close>

definition proxy_client_request :: "string \<Rightarrow> string \<Rightarrow> string \<Rightarrow> client_request" where
  "proxy_client_request m url request_id =
     \<lparr>cr_method = m, cr_url = url,
      cr_headers = [(''content-type'', ''application/json''), (''x-request-id'', request_id)],
      cr_body = None\<rparr>"

definition proxy_paths :: "string list" where
  "proxy_paths = [''/v1/proxy'', ''/v1/chat/completions'']"

definition proxied_headers :: headers where
  "proxied_headers = [json_type, (''x-appgate-proxy'', ''1'')]"

lemma select_Some: "\<exists>u. select rt path = Some u"
  by (simp add: select_def split: option.split)

text \<open>The URL a path is forwarded to; \<open>select\<close> never returns \<open>None\<close>.\<close>

definition target :: "'c router \<Rightarrow> string \<Rightarrow> string" where
  "target rt path = the (select rt path)"

text \<open>The client's view of an upstream exchange.\<close>

definition upstream_verdict :: "string + upstream_response \<Rightarrow> proxy_error + http_response" where
  "upstream_verdict answer =
     (case answer of
        Inl e \<Rightarrow> Inl (Upstream e)
      | Inr resp \<Rightarrow>
          (case up_body resp of
             Inl e \<Rightarrow> Inl (Upstream e)
           | Inr b \<Rightarrow> Inr \<lparr>resp_status = proxied_status (up_status resp), resp_headers = proxied_headers,
                          resp_body = b\<rparr>))"

lemma forward_built:
  assumes "http_contract lib" "method_from_bytes lib m = Inr m" "build_proxy_request lib m url rid body = Inr preq"
  shows "forward lib send preq url' =
           (Returned (upstream_verdict (send (proxy_client_request m url' rid))), [proxy_client_request m url' rid])"
proof -
  have preq: "req_method preq = m" "req_headers preq = [(''content-type'', ''application/json''), (''x-request-id'', rid)]"
    using assms(3) by (auto simp: build_proxy_request_def Let_def split: if_splits)
  have view: "upstream_view forwarded_header m url' (req_headers preq) = proxy_client_request m url' rid"
    by (simp add: preq upstream_view_def proxy_client_request_def forwarded_header_def)
  have m: "method_from_bytes lib (req_method preq) = Inr m" using assms(2) preq(1) by simp
  have "fst (forward lib send preq url') = Returned (upstream_verdict (send (proxy_client_request m url' rid)))"
    unfolding forward_result [OF assms(1) m] view upstream_verdict_def proxied_headers_def json_type_def ..
  moreover have "snd (forward lib send preq url') = [proxy_client_request m url' rid]"
    unfolding forward_sent m by (simp add: view)
  ultimately show ?thesis by (simp add: prod_eq_iff)
qed

section \<open>The specification of the proxy route\<close>

datatype proxy_decision =
  BadBody | TooLarge | BadTarget | UpstreamFailed proxy_error | Proxied http_response

definition decide :: "http_lib \<Rightarrow> upstream_send \<Rightarrow> 'c router \<Rightarrow> http_request \<Rightarrow> string \<Rightarrow> proxy_decision" where
  "decide lib send rt req rid =
     (case req_body req of
        Inl e \<Rightarrow> BadBody
      | Inr body \<Rightarrow>
          if max_body_bytes < length body then TooLarge
          else if \<not> uri_ok lib (target rt (req_path req)) then BadTarget
          else
            (case upstream_verdict (send (proxy_client_request (req_method req) (target rt (req_path req)) rid)) of
               Inl e \<Rightarrow> UpstreamFailed e
             | Inr r \<Rightarrow> Proxied r))"

fun decision_status :: "proxy_decision \<Rightarrow> u16" where
  "decision_status BadBody = 400"
| "decision_status TooLarge = 413"
| "decision_status BadTarget = 500"
| "decision_status (UpstreamFailed e) = 502"
| "decision_status (Proxied r) = resp_status r"

fun contacts_upstream :: "proxy_decision \<Rightarrow> bool" where
  "contacts_upstream (UpstreamFailed e) = True"
| "contacts_upstream (Proxied r) = True"
| "contacts_upstream _ = False"

text \<open>Code and message of a refusal.\<close>

fun decision_error :: "proxy_decision \<Rightarrow> string \<times> string" where
  "decision_error BadBody = (''bad_request'', ''Failed to read request body'')"
| "decision_error TooLarge = (''payload_too_large'', ''Body exceeds '' @ show_nat 10485760 @ '' bytes'')"
| "decision_error BadTarget = (''internal_error'', ''Failed to build upstream request'')"
| "decision_error (UpstreamFailed e) =
     (''upstream_error'', ''Upstream request failed: '' @ proxy_error_display e)"
| "decision_error (Proxied r) = ('''', '''')"

text \<open>Whether a response implements a decision.\<close>

fun implements :: "string \<Rightarrow> proxy_decision \<Rightarrow> http_response \<Rightarrow> bool" where
  "implements rid (Proxied r) resp \<longleftrightarrow> resp = r"
| "implements rid d resp \<longleftrightarrow>
     (case decision_error d of (code, message) \<Rightarrow>
        resp = own_response (decision_status d) [json_type, (''x-request-id'', rid)] (error_body code message rid))"

lemma handle_proxy_decides:
  assumes "http_contract lib" "visible rid" "upper_word (req_method req)"
  shows "\<exists>resp. handle_proxy lib client_send st req rid =
     (Returned resp,
      if contacts_upstream (decide lib (client_send (proxy_client st)) (app_router st) req rid)
      then [proxy_client_request (req_method req) (target (app_router st) (req_path req)) rid] else []) \<and>
     implements rid (decide lib (client_send (proxy_client st)) (app_router st) req rid) resp"
proof (cases "req_body req")
  case (Inl e)
  then show ?thesis
    using own_responses(5) [OF assms(1,2)] by (simp add: handle_proxy_def decide_def)
next
  case (Inr body)
  let ?url = "target (app_router st) (req_path req)" and ?send = "client_send (proxy_client st)"
  have url: "unwrap_or (select (app_router st) (req_path req)) d = ?url" for d
    using select_Some [of "app_router st" "req_path req"] by (auto simp: target_def unwrap_or_def)
  note err = own_responses(5) [OF assms(1,2)]
  show ?thesis
  proof (cases "max_body_bytes < length body \<or> \<not> uri_ok lib ?url")
    case True
    then show ?thesis
      using Inr err by (auto simp: handle_proxy_def decide_def url build_proxy_request_def max_body_bytes_def)
  next
    case False
    then obtain preq where preq: "build_proxy_request lib (req_method req) ?url rid body = Inr preq"
      using own_headers_ok(4) [OF assms(1,2)] by (simp add: build_proxy_request_def json_type_def)
    note fwd = forward_built [OF assms(1) http_contractD(3) [OF assms(1,3)] preq, of ?send ?url]
    show ?thesis
      using False Inr err by (simp add: handle_proxy_def decide_def url preq fwd split: sum.split)
  qed
qed

text \<open>
  What a request is answered with and what is sent for it: the proxy paths implement the proxy
  decision, every other request is answered by the gateway itself.
\<close>

definition is_proxy_route :: "http_request \<Rightarrow> bool" where
  "is_proxy_route req \<longleftrightarrow> req_method req = ''POST'' \<and> req_path req \<in> set proxy_paths"

definition is_info_route :: "http_request \<Rightarrow> bool" where
  "is_info_route req \<longleftrightarrow>
     req_method req = ''GET'' \<and> req_path req \<in> {''/healthz'', ''/health'', ''/readyz'', ''/ready'', ''/metrics''}"

definition served ::
  "http_lib \<Rightarrow> upstream_send \<Rightarrow> 'c router \<Rightarrow> http_request \<Rightarrow> string \<Rightarrow> http_response \<Rightarrow> client_request list \<Rightarrow> bool" where
  "served lib send rt req rid resp sent \<longleftrightarrow>
     (if is_proxy_route req then
        implements rid (decide lib send rt req rid) resp \<and>
        sent = (if contacts_upstream (decide lib send rt req rid)
                then [proxy_client_request ''POST'' (target rt (req_path req)) rid] else [])
      else
        sent = [] \<and> (\<exists>hs body. resp = own_response (if is_info_route req then 200 else 404) hs body))"

lemma route_request_served:
  assumes "http_contract lib" "visible rid"
  shows "\<exists>resp sent. route_request lib client_send encoded st req rid = (Returned resp, sent) \<and>
           served lib (client_send (proxy_client st)) (app_router st) req rid resp sent"
proof (cases "is_proxy_route req")
  case True
  then have "route_request lib client_send encoded st req rid = handle_proxy lib client_send st req rid"
    by (auto simp: route_request_def proxy_paths_def is_proxy_route_def)
  moreover have "upper_word (req_method req)" using True by (simp add: upper_word_def is_proxy_route_def)
  ultimately show ?thesis
    using True handle_proxy_decides [OF assms, of req client_send st]
    by (auto simp: served_def is_proxy_route_def)
next
  case False
  then show ?thesis
    using own_responses(1-4) [OF assms]
    by (auto simp: served_def route_request_def is_proxy_route_def is_info_route_def proxy_paths_def Let_def)
qed

lemma handle_request_Returned:
  assumes "route_request lib client_send encoded st req rid = (Returned resp, sent)"
  shows "handle_request lib client_send encoded st req rid dur =
    Returned \<lparr>h_response = resp, h_sent = sent,
      h_log = \<lparr>log_method = req_method req, log_path = req_path req, log_status = resp_status resp,
               log_duration_ms = dur div 1000000, log_request_id = rid\<rparr>,
      h_metrics = record_request (req_path req) (resp_status resp) dur\<rparr>"
  using assms by (simp add: handle_request_def Let_def)

lemma handle_request_served:
  assumes "http_contract lib" "visible rid"
  shows "\<exists>h. handle_request lib client_send encoded st req rid dur = Returned h \<and>
           served lib (client_send (proxy_client st)) (app_router st) req rid (h_response h) (h_sent h) \<and>
           log_status (h_log h) = resp_status (h_response h) \<and> log_request_id (h_log h) = rid \<and>
           h_metrics h = record_request (req_path req) (resp_status (h_response h)) dur"
proof -
  obtain resp sent where r: "route_request lib client_send encoded st req rid = (Returned resp, sent)"
    and s: "served lib (client_send (proxy_client st)) (app_router st) req rid resp sent"
    using route_request_served [OF assms] by blast
  show ?thesis unfolding handle_request_Returned [OF r] using s by simp
qed

lemma implements_status: "implements rid d resp \<Longrightarrow> resp_status resp = decision_status d"
  by (cases d) (auto simp: own_response_def)

section \<open>Properties\<close>

text \<open>
  Claim C7. The server answers every request: whatever the method, path, headers and body, the
  handler does not panic, and returns a response whose status is the one it logs and counts under
  the request's path and id. At most one request goes upstream, and only for a \<open>POST\<close> to one of the
  two proxy paths; \<open>GET\<close> on the health, readiness and metrics paths gives 200, and every other
  request 404.
\<close>

theorem every_request_served:
  assumes "http_contract lib" "visible rid"
  shows "\<exists>h. handle_request lib client_send encoded st req rid dur = Returned h \<and>
     log_status (h_log h) = resp_status (h_response h) \<and> log_request_id (h_log h) = rid \<and>
     h_metrics h = record_request (req_path req) (resp_status (h_response h)) dur \<and>
     (if req_method req = ''POST'' \<and> (req_path req = ''/v1/proxy'' \<or> req_path req = ''/v1/chat/completions'')
      then length (h_sent h) \<le> 1
      else h_sent h = [] \<and>
        resp_status (h_response h) =
          (if req_method req = ''GET'' \<and>
              req_path req \<in> {''/healthz'', ''/health'', ''/readyz'', ''/ready'', ''/metrics''} then 200 else 404))"
  using handle_request_served [OF assms, of client_send encoded st req dur]
  by (fastforce simp: served_def own_response_def is_proxy_route_def is_info_route_def proxy_paths_def
      split: if_splits)

definition sample_state :: "(unit, unit, unit, unit, unit, unit) app_state" where
  "sample_state =
     \<lparr>config = gateway_config_default,
      app_jwt_validator = \<lparr>decoding_key = (), jwt_validation = default_validation EdDSA\<rparr>,
      app_rate_limiter = rl_new_local (\<lambda>_. ()), app_policy_engine = (), app_ssrf_guard = (),
      app_audit_logger = audit_new audit_config_default Map.empty, app_metrics = (),
      app_router = \<lparr>client = (), default_upstream = ''http://up'', routes = []\<rparr>,
      app_cache = \<lparr>inner = None, enabled_flag = False\<rparr>,
      app_circuit_breaker = registry_new circuit_breaker_config_default,
      app_health_checker = [], proxy_client = ()\<rparr>"

theorem every_request_served_witness:
  "\<exists>h. handle_request strict_http (\<lambda>_. sample_upstream) (Inr '''') sample_state
         (sample_request\<lparr>req_method := ''GET'', req_path := ''/nope''\<rparr>) ''id-1'' 5 = Returned h \<and>
       resp_status (h_response h) = 404 \<and> h_sent h = []"
proof -
  have "visible ''id-1''" by (simp add: http_chars)
  from every_request_served [OF strict_http_contract this, of "\<lambda>_. sample_upstream" "Inr ''''" sample_state
      "sample_request\<lparr>req_method := ''GET'', req_path := ''/nope''\<rparr>" 5]
  show ?thesis by auto
qed

text \<open>
  Claim C2. The proxy route refines its decision table: an unreadable body gives 400, a body of
  more than 10485760 bytes 413, a target that is no URI 500 (in these cases nothing is sent), a
  failed exchange 502, and otherwise the upstream's status and body are returned; the errors carry
  the request id and the security headers, and a body with the code and message of the case.
\<close>

theorem proxy_route_refines:
  assumes "http_contract lib" "visible rid"
    and "req_method req = ''POST''" "req_path req = ''/v1/proxy'' \<or> req_path req = ''/v1/chat/completions''"
  shows "\<exists>h. handle_request lib client_send encoded st req rid dur = Returned h \<and>
     (let d = decide lib (client_send (proxy_client st)) (app_router st) req rid in
      implements rid d (h_response h) \<and> resp_status (h_response h) = decision_status d \<and>
      (h_sent h = [] \<longleftrightarrow> d = BadBody \<or> d = TooLarge \<or> d = BadTarget) \<and> length (h_sent h) \<le> 1)"
proof -
  have route: "is_proxy_route req" using assms(3,4) by (auto simp: is_proxy_route_def proxy_paths_def)
  have none: "d = BadBody \<or> d = TooLarge \<or> d = BadTarget \<longleftrightarrow> \<not> contacts_upstream d" for d
    by (cases d) simp_all
  obtain h where h: "handle_request lib client_send encoded st req rid dur = Returned h"
    "served lib (client_send (proxy_client st)) (app_router st) req rid (h_response h) (h_sent h)"
    using handle_request_served [OF assms(1,2)] by blast
  have imp: "implements rid (decide lib (client_send (proxy_client st)) (app_router st) req rid) (h_response h)"
    using h(2) route by (simp add: served_def)
  show ?thesis
    using h route none imp implements_status [OF imp]
    by (intro exI [of _ h]) (simp add: served_def Let_def del: implements.simps)
qed

theorem proxy_route_refines_witness:
  "\<exists>h. handle_request strict_http (\<lambda>_. sample_upstream) (Inr '''') sample_state sample_request ''id-1'' 5 = Returned h \<and>
       resp_status (h_response h) = 201 \<and> resp_body (h_response h) = ''page''"
proof -
  have v: "visible ''id-1''" by (simp add: http_chars)
  have "decide strict_http sample_upstream (app_router sample_state) sample_request ''id-1'' =
      Proxied \<lparr>resp_status = 201, resp_headers = proxied_headers, resp_body = ''page''\<rparr>"
    by (simp add: decide_def sample_request_def sample_state_def target_def select_def strict_http_def
        http_chars max_body_bytes_def upstream_verdict_def sample_upstream_def proxied_status_def)
  then show ?thesis
    using proxy_route_refines [OF strict_http_contract v, of sample_request "\<lambda>_. sample_upstream" "Inr ''''" sample_state 5]
    by (auto simp: sample_request_def Let_def)
qed

text \<open>
  Claim C30. The security headers: a response starts with the six of them unless it is a proxied
  answer; a proxied answer carries none of them, only the content type and the proxy marker.
\<close>

theorem security_headers_exact:
  assumes "http_contract lib" "visible rid"
  shows "\<exists>h. handle_request lib client_send encoded st req rid dur = Returned h \<and>
     (if is_proxy_route req \<and>
         (\<exists>r. decide lib (client_send (proxy_client st)) (app_router st) req rid = Proxied r)
      then resp_headers (h_response h) = [(''content-type'', ''application/json''), (''x-appgate-proxy'', ''1'')]
      else \<exists>hs. resp_headers (h_response h) = security_headers @ hs)"
proof -
  let ?d = "decide lib (client_send (proxy_client st)) (app_router st) req rid"
  have verdict: "?d = Proxied r \<Longrightarrow> resp_headers r = proxied_headers" for r
    by (auto simp: decide_def upstream_verdict_def split: sum.splits if_splits)
  obtain h where h: "handle_request lib client_send encoded st req rid dur = Returned h"
    "served lib (client_send (proxy_client st)) (app_router st) req rid (h_response h) (h_sent h)"
    using handle_request_served [OF assms] by blast
  show ?thesis
  proof (intro exI [of _ h] conjI h(1))
    show "if is_proxy_route req \<and> (\<exists>r. ?d = Proxied r)
        then resp_headers (h_response h) = [(''content-type'', ''application/json''), (''x-appgate-proxy'', ''1'')]
        else \<exists>hs. resp_headers (h_response h) = security_headers @ hs"
      using h(2) verdict
      by (cases ?d) (auto simp: served_def own_response_def proxied_headers_def json_type_def split: if_splits)
  qed
qed

theorem security_headers_exact_witness:
  "\<exists>h. handle_request strict_http (\<lambda>_. sample_upstream) (Inr '''') sample_state
         (sample_request\<lparr>req_path := ''/nope''\<rparr>) ''id-1'' 5 = Returned h \<and>
       (\<exists>hs. resp_headers (h_response h) = security_headers @ hs)"
proof -
  have v: "visible ''id-1''" by (simp add: http_chars)
  have "\<not> is_proxy_route (sample_request\<lparr>req_path := ''/nope''\<rparr>)"
    by (simp add: is_proxy_route_def proxy_paths_def)
  then show ?thesis
    using security_headers_exact [OF strict_http_contract v, of "\<lambda>_. sample_upstream" "Inr ''''" sample_state
        "sample_request\<lparr>req_path := ''/nope''\<rparr>" 5] by auto
qed

text \<open>
  Claim C22. What the upstream sees of a request: the fixed method, the URL the router selects for
  the path, the two headers the handler sets itself, and no body. No header of the client, its
  credentials included, reaches the upstream, and neither does its body.
\<close>

theorem upstream_sees_only:
  assumes "http_contract lib" "visible rid"
  shows "\<exists>h. handle_request lib client_send encoded st req rid dur = Returned h \<and>
     set (h_sent h) \<subseteq>
       {\<lparr>cr_method = ''POST'', cr_url = target (app_router st) (req_path req),
         cr_headers = [(''content-type'', ''application/json''), (''x-request-id'', rid)], cr_body = None\<rparr>}"
  using handle_request_served [OF assms, of client_send encoded st req dur]
  by (auto simp: served_def proxy_client_request_def split: if_splits)

theorem upstream_sees_only_witness:
  "\<exists>h. handle_request strict_http (\<lambda>_. sample_upstream) (Inr '''') sample_state sample_request ''id-1'' 5 = Returned h \<and>
     set (h_sent h) \<subseteq>
       {\<lparr>cr_method = ''POST'', cr_url = target (app_router sample_state) (req_path sample_request),
         cr_headers = [(''content-type'', ''application/json''), (''x-request-id'', ''id-1'')], cr_body = None\<rparr>}"
  by (rule upstream_sees_only [OF strict_http_contract]) (simp add: http_chars)

text \<open>
  Claim C21. The request path consults none of the security components: the outcome of a request,
  what is sent, logged and counted is unchanged when the token validator, the rate limiter, the
  policy engine, the SSRF guard, the audit log, the cache, the circuit breakers, the health table
  and the configuration are replaced, and when the client's headers (its token among them) and
  query are.
\<close>

theorem request_path_ignores_guards:
  "handle_request lib client_send encoded st req rid dur =
   handle_request lib client_send encoded
     (st\<lparr>config := cfg, app_jwt_validator := v, app_rate_limiter := rl, app_policy_engine := pe,
         app_ssrf_guard := sg, app_audit_logger := al, app_metrics := mc, app_cache := ca,
         app_circuit_breaker := cb, app_health_checker := hc\<rparr>)
     (req\<lparr>req_headers := hs, req_query := q\<rparr>) rid dur"
  by (simp add: handle_request_def route_request_def handle_proxy_def Let_def
      cong: sum.case_cong prod.case_cong outcome.case_cong if_cong)

end
