(* ===== verification/Startup.thy ===== *)
theory Startup
  imports Server
begin

text \<open>
  Start-up of rust-gateway: \<open>main\<close> of \<open>rust-gateway/src/main.rs\<close> up to the running server, the head of
  \<open>AppGateServer::run\<close>, and the choice of log filter and exporter in the two \<open>telemetry.rs\<close>. What the
  libraries answer (environment loader, key parser, HTTP clients, cache, socket) are parameters.
\<close>

section \<open>Telemetry\<close>

text \<open>
  The result is the filter directive installed and the exporter's provider, if there is one.
  \<open>otel\<close>: the feature is compiled in; \<open>install\<close>: the OTLP pipeline's answer for an endpoint.
\<close>

definition init_tracer_provider ::
  "bool \<Rightarrow> (string \<Rightarrow> string + 'p) \<Rightarrow> string \<Rightarrow> bool \<Rightarrow> string \<times> 'p option" where
  "init_tracer_provider otel install otlp_endpoint debug =
     (let env_filter = (if debug then ''debug'' else ''info'') in
      if otel then
        (case install otlp_endpoint of
           Inr prov \<Rightarrow> (env_filter, Some prov)
         | Inl e \<Rightarrow> (env_filter, None))
      else (env_filter, None))"

definition gw_init_tracer_provider :: "string option \<Rightarrow> string \<Rightarrow> string" where
  "gw_init_tracer_provider default_env otlp_endpoint = unwrap_or default_env ''appgate=info,warn''"

definition main_telemetry :: "bool \<Rightarrow> (string \<Rightarrow> string + 'p) \<Rightarrow> env \<Rightarrow> string \<times> 'p option" where
  "main_telemetry otel install env =
     init_tracer_provider otel install
       (unwrap_or (env ''OTEL_EXPORTER_OTLP_ENDPOINT'') ''http://localhost:4317'')
       (unwrap_or (map_option (\<lambda>v. v = ''debug'') (env ''APPGATE_LOG_LEVEL'')) False)"

section \<open>Building the state\<close>

datatype 's start = Exit nat | Panic string | Running 's

text \<open>\<open>HealthChecker::new\<close>: its client has a timeout of five seconds; \<open>unwrap\<close> panics on failure.\<close>

definition health_checker_new ::
  "(nat \<Rightarrow> string + 'h) \<Rightarrow> gateway_config \<Rightarrow> instant \<Rightarrow> health_table outcome" where
  "health_checker_new build cfg now =
     (case unwrap_result (build (duration_secs 5)) of
        Panicked e \<Rightarrow> Panicked e
      | Returned http_client \<Rightarrow> Returned (health_new cfg now))"

text \<open>
  The fields of the state in the order \<open>main\<close> builds them. The rate limiter is asked for without a
  URL; its error branch falls back to the local limiter.
\<close>

definition main_start ::
  "('k, 'cl, 'au) jwt_lib \<Rightarrow> (string \<Rightarrow> string + bytes) \<Rightarrow> (env \<Rightarrow> string + gateway_config) \<Rightarrow> env \<Rightarrow> instant \<Rightarrow>
     (nat \<Rightarrow> string + 'h) \<Rightarrow> (string \<Rightarrow> string + 'conn) \<Rightarrow> (quota \<Rightarrow> 'g) \<Rightarrow>
     (client_options \<Rightarrow> string + 'c) \<Rightarrow> 'm moka_ops \<Rightarrow> (proxy_client_options \<Rightarrow> string + 'p) \<Rightarrow> ('k, 'conn, 'g, 'c, 'm, 'p) app_state start" where
  "main_start lib read_file envy env now build_health open_conn direct build_router moka build_proxy =
     (let cfg = from_env envy env in
      case jwt_new lib read_file (jwt cfg) of
        Inl e \<Rightarrow> Exit 1
      | Inr validator \<Rightarrow>
          (case health_checker_new build_health cfg now of
             Panicked e \<Rightarrow> Panic e
           | Returned checker \<Rightarrow>
               (let limiter = (case rl_new open_conn direct None of
                                 Inr s \<Rightarrow> s | Inl e \<Rightarrow> rl_new_local direct) in
                case router_new build_router cfg env of
                  Inl e \<Rightarrow> Panic e
                | Inr rt \<Rightarrow>
                    (case proxy_client_new build_proxy of
                       Panicked e \<Rightarrow> Panic e
                     | Returned http_client \<Rightarrow>
                         Running
                           \<lparr>config = cfg, app_jwt_validator = validator, app_rate_limiter = limiter,
                            app_policy_engine = (), app_ssrf_guard = (),
                            app_audit_logger = audit_new (audit cfg) env, app_metrics = (),
                            app_router = rt, app_cache = cache_new moka cfg,
                            app_circuit_breaker = registry_new (circuit_breaker_cfg cfg),
                            app_health_checker = checker, proxy_client = http_client\<rparr>))))"

text \<open>\<open>AppGateServer::run\<close> before its loop: the address is parsed and bound.\<close>

definition server_address :: "gateway_config \<Rightarrow> string" where
  "server_address cfg = bind_addr cfg @ '':'' @ show_nat (unat (port cfg))"

definition server_listen ::
  "(string \<Rightarrow> string + 'a) \<Rightarrow> ('a \<Rightarrow> string + 'l) \<Rightarrow> ('a \<Rightarrow> string) \<Rightarrow> ('k, 'conn, 'g, 'c, 'm, 'p) app_state \<Rightarrow>
     string + 'l" where
  "server_listen parse bind_to show_addr st =
     and_then (map_err (\<lambda>e. ''Invalid bind address: '' @ e) (parse (server_address (config st))))
       (\<lambda>addr. map_err (\<lambda>e. ''Failed to bind to '' @ show_addr addr @ '': '' @ e) (bind_to addr))"

section \<open>Properties\<close>

text \<open>
  A gateway that runs holds a validator read from the configured key file: without a
  readable and parseable PEM file at the configured path it exits, whether or not token validation
  is enabled in the configuration and also when a JWKS URL is configured.
\<close>

theorem runs_only_with_key:
  assumes "main_start lib read_file envy env now build_health open_conn direct build_router moka build_proxy = Running st"
  shows "\<exists>path pem. jwt_key_path (jwt (from_env envy env)) = Some path \<and> read_file path = Inr pem \<and>
     from_pem lib pem (unwrap_or (issuer (jwt (from_env envy env))) ''appgate'')
       (unwrap_or (audience (jwt (from_env envy env))) ''appgate-gateway'') = Inr (app_jwt_validator st)"
proof -
  have "jwt_new lib read_file (jwt (from_env envy env)) = Inr (app_jwt_validator st)"
    using assms by (auto simp: main_start_def Let_def split: sum.splits outcome.splits)
  then show ?thesis by (rule jwt_new_Inr) blast
qed

text \<open>A configuration with an Ed25519 key file and an upstream, and the libraries of the examples.\<close>

definition sample_config :: gateway_config where
  "sample_config = gateway_config_default
     \<lparr>jwt := jwt_config_default\<lparr>jwt_key_path := Some ''key''\<rparr>,
      upstream := upstream_config_default\<lparr>default_url := ''http://up''\<rparr>\<rparr>"

definition sample_start ::
  "(env \<Rightarrow> string + gateway_config) \<Rightarrow> (key_family, unit, quota, unit, string \<rightharpoonup> cached_response, unit) app_state start" where
  "sample_start envy =
     main_start sample_lib (\<lambda>_. Inr ''ed-pem'') envy Map.empty 0 (\<lambda>_. Inr ()) (\<lambda>_. Inl ''refused'') (\<lambda>q. q) (\<lambda>_. Inr ()) map_moka
       (\<lambda>_. Inr ())"

lemma sample_runs: "\<exists>st. sample_start (\<lambda>_. Inr sample_config) = Running st"
  by (simp add: sample_start_def main_start_def from_env_def sample_config_def jwt_new_def
      jwt_config_default_def unwrap_or_def map_err_def from_pem_def or_else_def sample_lib_def
      sample_jwt_def router_new_def proxy_client_new_def health_checker_new_def Let_def)

theorem runs_only_with_key_witness:
  "\<exists>path. jwt_key_path (jwt (from_env (\<lambda>_. Inr sample_config) Map.empty)) = Some path"
proof -
  obtain st where "sample_start (\<lambda>_. Inr sample_config) = Running st" using sample_runs by blast
  from runs_only_with_key [OF this [unfolded sample_start_def]] show ?thesis by blast
qed

text \<open>
  Claim C36. With a loader that fills only the top-level fields from the environment, as \<open>envy\<close>
  does, so that every section keeps its default or loading fails, the gateway never starts: no
  environment supplies the key path, and \<open>main\<close> exits with status 1.
\<close>

theorem flat_loader_never_starts:
  assumes "\<And>e c. envy e = Inr c \<Longrightarrow> jwt c = jwt_config_default"
  shows "main_start lib read_file envy env now build_health open_conn direct build_router moka build_proxy = Exit 1"
proof -
  have "jwt (from_env envy env) = jwt_config_default"
    using assms by (auto simp: from_env_def gateway_config_default_def split: sum.split)
  then show ?thesis by (simp add: main_start_def jwt_new_def jwt_config_default_def Let_def)
qed

theorem flat_loader_never_starts_witness:
  "sample_start (\<lambda>e. Inr (gateway_config_default\<lparr>bind_addr := unwrap_or (e ''BIND_ADDR'') default_bind\<rparr>)) = Exit 1"
  unfolding sample_start_def
  by (rule flat_loader_never_starts) (auto simp: gateway_config_default_def)

lemma router_new_routes: "router_new build cfg env = Inr rt \<Longrightarrow> routes rt \<noteq> []"
  by (cases rt) (auto simp: router_new_def Let_def split: sum.splits if_splits)

text \<open>
  What a running gateway is wired with: the local limiter of 1000 requests per second
  whatever the rate-limit section says, circuit breakers, cache, audit log and health table built
  from the configuration, all breakers fresh, and a router that always selects some upstream.
\<close>

theorem running_state_wired:
  assumes "main_start lib read_file envy env now build_health open_conn direct build_router moka build_proxy = Running st"
  shows "config st = from_env envy env \<and> app_rate_limiter st = rl_new_local direct \<and>
         app_circuit_breaker st = registry_new (circuit_breaker_cfg (from_env envy env)) \<and>
         registry_wf (app_circuit_breaker st) \<and>
         app_cache st = cache_new moka (from_env envy env) \<and>
         app_audit_logger st = audit_new (audit (from_env envy env)) env \<and>
         app_health_checker st = health_new (from_env envy env) now \<and>
         routes (app_router st) \<noteq> [] \<and> (\<exists>u. select (app_router st) path = Some u)"
proof -
  let ?cfg = "from_env envy env"
  have "router_new build_router ?cfg env = Inr (app_router st)"
    using assms by (auto simp: main_start_def Let_def split: sum.splits outcome.splits)
  then have "routes (app_router st) \<noteq> []" by (rule router_new_routes)
  then show ?thesis
    using assms select_Some [of "app_router st" path]
    by (auto simp: main_start_def rl_new_def health_checker_new_def Let_def split: sum.splits outcome.splits)
qed

theorem running_state_wired_witness:
  "\<exists>st. sample_start (\<lambda>_. Inr sample_config) = Running st \<and>
     app_rate_limiter st = rl_new_local (\<lambda>q. q) \<and> registry_wf (app_circuit_breaker st)"
proof -
  obtain st where st: "sample_start (\<lambda>_. Inr sample_config) = Running st" using sample_runs by blast
  from running_state_wired [OF st [unfolded sample_start_def]] st show ?thesis by blast
qed

end
