(* ===== verification/Connections.thy ===== *)
theory Connections
  imports Prelude
begin

text \<open>
  The accept loop, the connection tasks and the drain loop of \<open>AppGateServer::run\<close> in
  \<open>rust-gateway/src/server.rs\<close>. The loop, its tasks and the task that forwards the shutdown signal
  run concurrently: \<open>accept_step\<close> is one atomic action of any of them. The drain loop alone is
  \<open>drain_loop\<close>, over the values it loads and the clock it reads.
\<close>

section \<open>State\<close>

text \<open>
  Where the accept loop is: at its head, before the futures of \<open>select!\<close> exist; with the \<open>notified()\<close>
  future created and to be polled next (\<open>Waiting\<close>); having polled it as pending and about to poll
  \<open>accept()\<close> (\<open>Polling\<close>); past an \<open>accept()\<close> that was ready, which drops the \<open>notified()\<close> future (\<open>Accepted\<close>);
  holding a fresh permit, having counted the connection but not spawned its task, draining, or
  returned.
\<close>

datatype main_pc = LoopHead | Waiting | Polling | Accepted | GotPermit | Counted | Draining | Stopped

text \<open>
  \<open>avail\<close>: permits left in the semaphore. \<open>active\<close>: the atomic counter. \<open>serving\<close>: tasks inside
  \<open>handle_connection\<close>; \<open>closing\<close>: tasks past the decrement that still hold their permit.
  \<open>signalled\<close>: \<open>notify_waiters\<close> was called; \<open>woken\<close>: it reached a \<open>notified()\<close> future that still exists.
\<close>

record conns =
  pc :: main_pc
  avail :: nat
  active :: usize
  serving :: nat
  closing :: nat
  dropped :: nat
  signalled :: bool
  woken :: bool

definition max_connections_permits :: nat where
  "max_connections_permits = 10000"

definition conns_start :: conns where
  "conns_start =
     \<lparr>pc = LoopHead, avail = max_connections_permits, active = 0, serving = 0, closing = 0,
      dropped = 0, signalled = False, woken = False\<rparr>"

section \<open>Steps\<close>

text \<open>
  \<open>select!\<close> is biased: each time the loop is polled it polls \<open>notified()\<close> before \<open>accept()\<close>.
  \<open>notify_waiters\<close> stores no permit: it reaches a \<open>notified()\<close> future from its creation on, is lost when
  there is none, and is lost too when it reaches the future between the two polls and \<open>accept()\<close>
  is then ready.
\<close>

inductive accept_step :: "conns \<Rightarrow> conns \<Rightarrow> bool" where
  enter_select: "pc s = LoopHead \<Longrightarrow> accept_step s (s\<lparr>pc := Waiting\<rparr>)"
| poll_notified: "pc s = Waiting \<Longrightarrow> \<not> woken s \<Longrightarrow> accept_step s (s\<lparr>pc := Polling\<rparr>)"
| stop_accepting: "pc s = Waiting \<Longrightarrow> woken s \<Longrightarrow> accept_step s (s\<lparr>pc := Draining\<rparr>)"
| accept_pending: "pc s = Polling \<Longrightarrow> accept_step s (s\<lparr>pc := Waiting\<rparr>)"
| accept_ready: "pc s = Polling \<Longrightarrow> accept_step s (s\<lparr>pc := Accepted, woken := False\<rparr>)"
| accept_error: "pc s = Accepted \<Longrightarrow> accept_step s (s\<lparr>pc := LoopHead\<rparr>)"
| overload: "pc s = Accepted \<Longrightarrow> avail s = 0 \<Longrightarrow>
    accept_step s (s\<lparr>pc := LoopHead, dropped := dropped s + 1\<rparr>)"
| acquire: "pc s = Accepted \<Longrightarrow> 0 < avail s \<Longrightarrow>
    accept_step s (s\<lparr>pc := GotPermit, avail := avail s - 1\<rparr>)"
| fetch_add: "pc s = GotPermit \<Longrightarrow> accept_step s (s\<lparr>pc := Counted, active := active s + 1\<rparr>)"
| spawn: "pc s = Counted \<Longrightarrow> accept_step s (s\<lparr>pc := LoopHead, serving := serving s + 1\<rparr>)"
| fetch_sub: "0 < serving s \<Longrightarrow>
    accept_step s (s\<lparr>serving := serving s - 1, closing := closing s + 1, active := active s - 1\<rparr>)"
| release: "0 < closing s \<Longrightarrow> accept_step s (s\<lparr>closing := closing s - 1, avail := avail s + 1\<rparr>)"
| signal: "\<not> signalled s \<Longrightarrow> accept_step s (s\<lparr>signalled := True, woken := (pc s = Waiting \<or> pc s = Polling)\<rparr>)"
| drained: "pc s = Draining \<Longrightarrow> active s = 0 \<Longrightarrow> accept_step s (s\<lparr>pc := Stopped\<rparr>)"
| drain_timeout: "pc s = Draining \<Longrightarrow> active s \<noteq> 0 \<Longrightarrow> accept_step s (s\<lparr>pc := Stopped\<rparr>)"

inductive_cases accept_stepE: "accept_step s t"

section \<open>Invariant\<close>

definition held_by_loop :: "conns \<Rightarrow> nat" where
  "held_by_loop s = (if pc s = GotPermit \<or> pc s = Counted then 1 else 0)"

definition conns_inv :: "conns \<Rightarrow> bool" where
  "conns_inv s \<longleftrightarrow>
     avail s + serving s + closing s + held_by_loop s = max_connections_permits \<and>
     unat (active s) = serving s + (if pc s = Counted then 1 else 0) \<and>
     (woken s \<longrightarrow> signalled s \<and> pc s \<in> {Waiting, Polling, Draining, Stopped})"

lemma active_incr: "unat (w :: usize) \<le> 10000 \<Longrightarrow> unat (w + 1) = unat w + 1"
  by (rule unat_Suc_word) simp

lemma active_decr: "0 < unat (w :: usize) \<Longrightarrow> unat (w - 1) = unat w - 1"
  by (metis One_nat_def Suc_leI unat_1 unat_sub word_le_nat_alt)

lemma conns_inv_step [step_inv_intros]: "accept_step s t \<Longrightarrow> conns_inv s \<Longrightarrow> conns_inv t"
  by (induction rule: accept_step.induct)
    (auto simp: conns_inv_def held_by_loop_def active_incr active_decr max_connections_permits_def
      split: if_splits)

interpretation accept_system: invariant_system "\<lambda>s. s = conns_start" accept_step conns_inv
  by unfold_locales (simp add: conns_inv_def conns_start_def held_by_loop_def, rule conns_inv_step)

lemma reachable_inv: "accept_step\<^sup>*\<^sup>* conns_start t \<Longrightarrow> conns_inv t"
  by (rule accept_system.reach_inv [OF refl])

section \<open>The drain loop\<close>

definition SHUTDOWN_DRAIN_INTERVAL_MS :: u64 where
  "SHUTDOWN_DRAIN_INTERVAL_MS = 100"

definition SHUTDOWN_MAX_WAIT_SECS :: u64 where
  "SHUTDOWN_MAX_WAIT_SECS = 30"

datatype drain_end = Drained nat | TimedOut nat

text \<open>
  Iteration \<open>i\<close> loads the counter as \<open>load i\<close> and reads the clock as \<open>clock i\<close>; between two
  iterations the task sleeps. The result names the iteration in which the loop ended; a loop
  that does not end is \<open>None\<close>.
\<close>

partial_function (option) drain_loop ::
  "(nat \<Rightarrow> usize) \<Rightarrow> (nat \<Rightarrow> instant) \<Rightarrow> instant \<Rightarrow> nat \<Rightarrow> drain_end option" where
  "drain_loop load clock drain_start i =
     (if load i > 0 then
        (if elapsed (clock i) drain_start > duration_secs SHUTDOWN_MAX_WAIT_SECS
         then Some (TimedOut i)
         else drain_loop load clock drain_start (i + 1))
      else Some (Drained i))"

text \<open>\<open>sleep\<close> never returns early.\<close>

definition sleeps :: "(nat \<Rightarrow> instant) \<Rightarrow> instant \<Rightarrow> bool" where
  "sleeps clock drain_start \<longleftrightarrow>
     drain_start \<le> clock 0 \<and>
     (\<forall>i. clock i + duration_ms SHUTDOWN_DRAIN_INTERVAL_MS \<le> clock (Suc i))"

lemma sleeps_elapsed:
  assumes "sleeps clock drain_start"
  shows "drain_start + i * 100000000 \<le> clock i"
proof (induction i)
  case 0
  then show ?case using assms by (simp add: sleeps_def)
next
  case (Suc i)
  moreover have "clock i + 100000000 \<le> clock (Suc i)"
    using assms by (simp add: sleeps_def duration_ms_def SHUTDOWN_DRAIN_INTERVAL_MS_def)
  ultimately show ?case by simp
qed

lemma max_wait: "duration_secs SHUTDOWN_MAX_WAIT_SECS = 30000000000"
  by (simp add: duration_secs_def SHUTDOWN_MAX_WAIT_SECS_def)

definition drain_ends :: "(nat \<Rightarrow> usize) \<Rightarrow> (nat \<Rightarrow> instant) \<Rightarrow> instant \<Rightarrow> nat \<Rightarrow> nat \<Rightarrow> bool" where
  "drain_ends load clock drain_start i j \<longleftrightarrow>
     drain_loop load clock drain_start i = Some (Drained j) \<and> load j = 0 \<or>
     drain_loop load clock drain_start i = Some (TimedOut j) \<and> 0 < load j \<and>
       duration_secs SHUTDOWN_MAX_WAIT_SECS < elapsed (clock j) drain_start"

lemma drain_loop_now:
  assumes "load i = 0 \<or> duration_secs SHUTDOWN_MAX_WAIT_SECS < elapsed (clock i) drain_start"
  shows "drain_ends load clock drain_start i i"
  using assms by (auto simp: drain_ends_def drain_loop.simps [of load clock drain_start i] word_gt_0)

text \<open>From iteration \<open>i\<close> on, the loop ends within the iterations left before the timeout.\<close>

lemma drain_loop_ends:
  assumes "sleeps clock drain_start" "i + k = 301"
  shows "\<exists>j\<le>301. drain_ends load clock drain_start i j"
  using assms(2)
proof (induction k arbitrary: i)
  case 0
  have "duration_secs SHUTDOWN_MAX_WAIT_SECS < elapsed (clock i) drain_start"
    using sleeps_elapsed [OF assms(1), of i] 0 unfolding max_wait elapsed_def by linarith
  then have "drain_ends load clock drain_start i i" by (intro drain_loop_now disjI2)
  moreover have "i \<le> 301" using 0 by simp
  ultimately show ?case by blast
next
  case (Suc k)
  show ?case
  proof (cases "load i = 0 \<or> duration_secs SHUTDOWN_MAX_WAIT_SECS < elapsed (clock i) drain_start")
    case False
    then have "drain_loop load clock drain_start i = drain_loop load clock drain_start (i + 1)"
      by (simp add: drain_loop.simps [of load clock drain_start i] word_gt_0)
    then have "drain_ends load clock drain_start i = drain_ends load clock drain_start (i + 1)"
      by (simp add: drain_ends_def fun_eq_iff)
    then show ?thesis using Suc.IH [of "i + 1"] Suc.prems by simp
  next
    case True
    then have "drain_ends load clock drain_start i i" by (rule drain_loop_now)
    moreover have "i \<le> 301" using Suc.prems by simp
    ultimately show ?thesis by blast
  qed
qed

section \<open>Properties\<close>

text \<open>
  Claim C4. Backpressure: in every reachable state of the accept loop and its tasks at most 10000
  connections hold a permit, permits are neither lost nor duplicated, and the atomic counter is
  exactly the number of connections being served (plus one between its increment and the spawn),
  so it never wraps.
\<close>

theorem connections_bounded:
  assumes "accept_step\<^sup>*\<^sup>* conns_start t"
  shows "serving t + closing t \<le> 10000 \<and>
         avail t = 10000 - (serving t + closing t + (if pc t = GotPermit \<or> pc t = Counted then 1 else 0)) \<and>
         unat (active t) = serving t + (if pc t = Counted then 1 else 0) \<and> unat (active t) \<le> 10000"
  using reachable_inv [OF assms]
  by (auto simp: conns_inv_def held_by_loop_def max_connections_permits_def split: if_splits)

text \<open>The state after \<open>n\<close> connections were accepted and none has ended.\<close>

definition accepted_n :: "nat \<Rightarrow> conns" where
  "accepted_n n = conns_start\<lparr>avail := 10000 - n, active := of_nat n, serving := n\<rparr>"

lemma steps3: "accept_step a b \<Longrightarrow> accept_step b c \<Longrightarrow> accept_step c d \<Longrightarrow> accept_step\<^sup>*\<^sup>* a d"
  by (meson converse_rtranclp_into_rtranclp rtranclp.rtrancl_refl)

text \<open>From the head of the loop an unsignalled loop takes the next connection.\<close>

lemma take_connection:
  assumes "pc s = LoopHead" "\<not> woken s"
  shows "accept_step\<^sup>*\<^sup>* s (s\<lparr>pc := Accepted\<rparr>)"
proof -
  have "accept_step s (s\<lparr>pc := Waiting\<rparr>)" using assms by (intro enter_select)
  moreover have "accept_step (s\<lparr>pc := Waiting\<rparr>) (s\<lparr>pc := Polling\<rparr>)"
    using poll_notified [of "s\<lparr>pc := Waiting\<rparr>"] assms by simp
  moreover have "accept_step (s\<lparr>pc := Polling\<rparr>) (s\<lparr>pc := Accepted\<rparr>)"
    using accept_ready [of "s\<lparr>pc := Polling\<rparr>"] assms by (cases s) simp
  ultimately show ?thesis by (rule steps3)
qed

lemma accept_one:
  assumes "n < 10000"
  shows "accept_step\<^sup>*\<^sup>* (accepted_n n) (accepted_n (Suc n))"
proof -
  let ?s0 = "(accepted_n n)\<lparr>pc := Accepted\<rparr>"
  let ?s1 = "(accepted_n n)\<lparr>pc := GotPermit, avail := 9999 - n\<rparr>"
  let ?s2 = "?s1\<lparr>pc := Counted, active := of_nat (Suc n)\<rparr>"
  have "accept_step\<^sup>*\<^sup>* (accepted_n n) ?s0"
    by (rule take_connection) (simp_all add: accepted_n_def conns_start_def)
  moreover have "accept_step\<^sup>*\<^sup>* ?s0 (accepted_n (Suc n))"
  proof (rule steps3)
    show "accept_step ?s0 ?s1"
      using acquire [of ?s0] assms by (simp add: accepted_n_def conns_start_def)
    show "accept_step ?s1 ?s2"
      using fetch_add [of ?s1] by (simp add: accepted_n_def conns_start_def add.commute)
    show "accept_step ?s2 (accepted_n (Suc n))"
      using spawn [of ?s2] by (simp add: conns_start_def accepted_n_def)
  qed
  ultimately show ?thesis by (rule rtranclp_trans)
qed

lemma reach_accepted_n: "n \<le> 10000 \<Longrightarrow> accept_step\<^sup>*\<^sup>* conns_start (accepted_n n)"
proof (induction n)
  case 0
  have "accepted_n 0 = conns_start"
    by (simp add: accepted_n_def conns_start_def max_connections_permits_def)
  then show ?case by simp
next
  case (Suc n)
  then show ?case using accept_one [of n] by (meson Suc_le_lessD Suc_leD rtranclp_trans)
qed

theorem connections_bounded_witness:
  "serving (accepted_n 7) + closing (accepted_n 7) \<le> 10000 \<and> unat (active (accepted_n 7)) = 7"
  using connections_bounded [OF reach_accepted_n [of 7]] by (simp add: accepted_n_def conns_start_def)

text \<open>
  Claim C39. A connection is turned away only at capacity: a step of a reachable state that drops
  one happens right after the loop accepted it, while all 10000 permits are held by connections.
\<close>

theorem dropped_only_at_capacity:
  assumes "accept_step\<^sup>*\<^sup>* conns_start s" "accept_step s t" "dropped s < dropped t"
  shows "serving s + closing s = 10000 \<and> pc s = Accepted \<and> avail s = 0 \<and> dropped t = dropped s + 1"
  using assms(2,3) reachable_inv [OF assms(1)]
  by (auto elim!: accept_stepE simp: conns_inv_def held_by_loop_def max_connections_permits_def)

theorem dropped_only_at_capacity_witness:
  "serving (accepted_n 10000) + closing (accepted_n 10000) = 10000"
proof -
  let ?s = "(accepted_n 10000)\<lparr>pc := Accepted\<rparr>"
  have "accept_step\<^sup>*\<^sup>* (accepted_n 10000) ?s"
    by (rule take_connection) (simp_all add: accepted_n_def conns_start_def)
  with reach_accepted_n [OF order_refl] have "accept_step\<^sup>*\<^sup>* conns_start ?s" by (rule rtranclp_trans)
  moreover have "accept_step ?s (?s\<lparr>pc := LoopHead, dropped := dropped ?s + 1\<rparr>)"
    by (rule overload) (simp_all add: accepted_n_def conns_start_def)
  moreover have "dropped ?s < dropped (?s\<lparr>pc := LoopHead, dropped := dropped ?s + 1\<rparr>)" by simp
  ultimately have "serving ?s + closing ?s = 10000" using dropped_only_at_capacity by blast
  then show ?thesis by simp
qed

text \<open>
  Claim C26. The graceful drain ends: since each sleep lasts at least 100 ms, the loop returns
  after at most 301 sleeps whatever the connections do, either because the counter read zero, or
  because connections remain after more than 30 seconds.
\<close>

theorem drain_terminates:
  assumes "sleeps clock drain_start"
  shows "\<exists>j\<le>301. drain_loop load clock drain_start 0 = Some (Drained j) \<and> load j = 0 \<or>
           drain_loop load clock drain_start 0 = Some (TimedOut j) \<and> 0 < load j \<and>
           30000000000 < elapsed (clock j) drain_start"
  using drain_loop_ends [OF assms, of 0 301 load] unfolding drain_ends_def max_wait by auto

theorem drain_terminates_witness:
  "\<exists>j\<le>301. drain_loop (\<lambda>_. 1) (\<lambda>i. 5 + i * 100000000) 5 0 = Some (TimedOut j)"
proof -
  have "sleeps (\<lambda>i. 5 + i * 100000000) 5"
    by (simp add: sleeps_def duration_ms_def SHUTDOWN_DRAIN_INTERVAL_MS_def)
  from drain_terminates [OF this, of "\<lambda>_. 1"] show ?thesis by auto
qed

lemma not_accepting_step:
  "accept_step s t \<Longrightarrow> pc s = Draining \<or> pc s = Stopped \<Longrightarrow>
     (pc t = Draining \<or> pc t = Stopped) \<and> serving t \<le> serving s"
  by (auto elim!: accept_stepE)

lemma not_accepting_steps:
  "accept_step\<^sup>*\<^sup>* s t \<Longrightarrow> pc s = Draining \<or> pc s = Stopped \<Longrightarrow>
     (pc t = Draining \<or> pc t = Stopped) \<and> serving t \<le> serving s"
proof (induction rule: rtranclp_induct)
  case (step t u)
  then show ?case using not_accepting_step [OF step.hyps(2)] by auto
qed simp

text \<open>
  Claim C37. Once the loop has stopped accepting it never accepts again, the number of connections
  being served never grows, and a counter of zero means that none is being served: a drain that
  ends on zero has lost no connection.
\<close>

theorem drain_is_complete:
  assumes "accept_step\<^sup>*\<^sup>* conns_start s" "pc s = Draining" "accept_step\<^sup>*\<^sup>* s t"
  shows "(pc t = Draining \<or> pc t = Stopped) \<and> serving t \<le> serving s \<and> (active t = 0 \<longleftrightarrow> serving t = 0)"
proof -
  have "(pc t = Draining \<or> pc t = Stopped) \<and> serving t \<le> serving s"
    using not_accepting_steps [OF assms(3)] assms(2) by simp
  moreover have "unat (active t) = serving t"
    using reachable_inv [OF rtranclp_trans [OF assms(1,3)]] calculation by (auto simp: conns_inv_def)
  ultimately show ?thesis by (auto simp: unat_eq_0)
qed

definition draining_one :: conns where
  "draining_one = (accepted_n 1)\<lparr>signalled := True, woken := True, pc := Draining\<rparr>"

lemma reach_draining_one: "accept_step\<^sup>*\<^sup>* conns_start draining_one"
proof -
  let ?s = "(accepted_n 1)\<lparr>pc := Waiting\<rparr>"
  have "accept_step\<^sup>*\<^sup>* (accepted_n 1) draining_one"
  proof (rule steps3)
    show "accept_step (accepted_n 1) ?s"
      by (rule enter_select) (simp add: accepted_n_def conns_start_def)
    show "accept_step ?s (?s\<lparr>signalled := True, woken := True\<rparr>)"
      using signal [of ?s] by (simp add: accepted_n_def conns_start_def)
    show "accept_step (?s\<lparr>signalled := True, woken := True\<rparr>) draining_one"
      using stop_accepting [of "?s\<lparr>signalled := True, woken := True\<rparr>"]
      by (simp add: draining_one_def accepted_n_def conns_start_def)
  qed
  with reach_accepted_n [of 1] show ?thesis by simp
qed

theorem drain_is_complete_witness:
  "serving (draining_one\<lparr>serving := 0, closing := 1, active := 0\<rparr>) \<le> serving draining_one"
proof -
  have "accept_step draining_one (draining_one\<lparr>serving := 0, closing := 1, active := 0\<rparr>)"
    using fetch_sub [of draining_one] by (simp add: draining_one_def accepted_n_def conns_start_def)
  then have "accept_step\<^sup>*\<^sup>* draining_one (draining_one\<lparr>serving := 0, closing := 1, active := 0\<rparr>)" by blast
  from drain_is_complete [OF reach_draining_one _ this] show ?thesis
    by (simp add: draining_one_def)
qed

lemma signal_lost_step:
  "accept_step s t \<Longrightarrow> signalled s \<and> \<not> woken s \<and> pc s \<in> {LoopHead, Waiting, Polling, Accepted, GotPermit, Counted} \<Longrightarrow>
     signalled t \<and> \<not> woken t \<and> pc t \<in> {LoopHead, Waiting, Polling, Accepted, GotPermit, Counted}"
  by (auto elim!: accept_stepE)

lemma signal_lost_steps:
  "accept_step\<^sup>*\<^sup>* s t \<Longrightarrow> signalled s \<and> \<not> woken s \<and> pc s \<in> {LoopHead, Waiting, Polling, Accepted, GotPermit, Counted} \<Longrightarrow>
     signalled t \<and> \<not> woken t \<and> pc t \<in> {LoopHead, Waiting, Polling, Accepted, GotPermit, Counted}"
proof (induction rule: rtranclp_induct)
  case (step t u)
  then show ?case using signal_lost_step [OF step.hyps(2)] by blast
qed simp

text \<open>
  Claim C27. The shutdown signal can be lost: it may arrive while the loop is between two waits,
  and then the loop goes back to accepting connections and never drains or stops, however the
  system continues; the signal is sent only once.
\<close>

theorem shutdown_can_be_lost:
  "\<exists>s. accept_step\<^sup>*\<^sup>* conns_start s \<and> signalled s \<and> pc s = Waiting \<and>
       {t. accept_step\<^sup>*\<^sup>* s t \<and> (pc t = Draining \<or> pc t = Stopped)} = {}"
proof -
  let ?s0 = "conns_start\<lparr>pc := Accepted\<rparr>"
  let ?s1 = "conns_start\<lparr>pc := GotPermit, avail := 9999\<rparr>"
  let ?s2 = "?s1\<lparr>signalled := True\<rparr>"
  let ?s3 = "?s2\<lparr>pc := Counted, active := 1\<rparr>"
  let ?s4 = "?s3\<lparr>pc := Waiting, serving := 1\<rparr>"
  have "accept_step\<^sup>*\<^sup>* conns_start ?s0"
    by (rule take_connection) (simp_all add: conns_start_def)
  also have "accept_step\<^sup>*\<^sup>* ?s0 ?s3"
  proof (rule steps3)
    show "accept_step ?s0 ?s1"
      using acquire [of ?s0] by (simp add: conns_start_def max_connections_permits_def)
    show "accept_step ?s1 ?s2" using signal [of ?s1] by (simp add: conns_start_def)
    show "accept_step ?s2 ?s3" using fetch_add [of ?s2] by (simp add: conns_start_def)
  qed
  also have "accept_step ?s3 (?s3\<lparr>pc := LoopHead, serving := 1\<rparr>)"
    using spawn [of ?s3] by (simp add: conns_start_def)
  also have "accept_step (?s3\<lparr>pc := LoopHead, serving := 1\<rparr>) ?s4"
    using enter_select [of "?s3\<lparr>pc := LoopHead, serving := 1\<rparr>"] by (simp add: conns_start_def)
  finally have "accept_step\<^sup>*\<^sup>* conns_start ?s4" .
  moreover have "\<not> (pc t = Draining \<or> pc t = Stopped)" if "accept_step\<^sup>*\<^sup>* ?s4 t" for t
    using signal_lost_steps [OF that] by (auto simp: conns_start_def)
  ultimately show ?thesis by (intro exI [of _ ?s4]) auto
qed

end
