(* ===== verification/Tls.thy ===== *)
theory Tls
  imports Prelude
begin

text \<open>
  \<open>load_tls_config\<close> of \<open>rust-gateway/src/tls.rs\<close> and \<open>gateway/src/tls.rs\<close>. The file system, the PEM
  reader and the \<open>rustls\<close> server builder are parameters. A PEM reader yields a sequence of items,
  each of which may be an error.
\<close>

section \<open>Collecting results\<close>

text \<open>\<open>collect::<Result<Vec<_>, _>>\<close>: the first error, or all values.\<close>

fun collect_results :: "('e + 'a) list \<Rightarrow> 'e + 'a list" where
  "collect_results [] = Inr []"
| "collect_results (r # rs) =
     (case r of
        Inl e \<Rightarrow> Inl e
      | Inr x \<Rightarrow> (case collect_results rs of Inl e \<Rightarrow> Inl e | Inr xs \<Rightarrow> Inr (x # xs)))"

lemma collect_results_map: "collect_results (map Inr xs) = Inr xs"
  by (induction xs) auto

lemma collect_results_InrD: "collect_results rs = Inr xs \<Longrightarrow> rs = map Inr xs"
  by (induction rs arbitrary: xs) (auto split: sum.splits)

lemma collect_results_Inr: "collect_results rs = Inr xs \<longleftrightarrow> rs = map Inr xs"
  using collect_results_map collect_results_InrD by blast

definition ok_or :: "'e \<Rightarrow> 'a option \<Rightarrow> 'e + 'a" where
  "ok_or e v = (case v of None \<Rightarrow> Inl e | Some x \<Rightarrow> Inr x)"

section \<open>The two loaders\<close>

record ('cert, 'key, 'acc) tls_lib =
  certs :: "bytes \<Rightarrow> (string + 'cert) list"
  private_key :: "bytes \<Rightarrow> string + 'key option"
  pkcs8_private_keys :: "bytes \<Rightarrow> (string + 'key) list"
  with_single_cert :: "'cert list \<Rightarrow> 'key \<Rightarrow> string + 'acc"

definition load_tls_config ::
  "('cert, 'key, 'acc) tls_lib \<Rightarrow> (string \<Rightarrow> string + bytes) \<Rightarrow> string \<Rightarrow> string \<Rightarrow> string + 'acc" where
  "load_tls_config lib read_file cert_file key_file =
     and_then (read_file cert_file) (\<lambda>cert_pem.
     and_then (read_file key_file) (\<lambda>key_pem.
     and_then (collect_results (certs lib cert_pem)) (\<lambda>cs.
     and_then (private_key lib key_pem) (\<lambda>k.
     let keys = (case k of None \<Rightarrow> [] | Some x \<Rightarrow> [x]) in
     and_then (ok_or ''No private key found'' (case keys of [] \<Rightarrow> None | x # _ \<Rightarrow> Some x)) (\<lambda>key.
     with_single_cert lib cs key)))))"

definition gw_load_tls_config ::
  "('cert, 'key, 'acc) tls_lib \<Rightarrow> (string \<Rightarrow> string + bytes) \<Rightarrow> string \<Rightarrow> string \<Rightarrow> string + 'acc" where
  "gw_load_tls_config lib open_file cert_file key_file =
     and_then (open_file cert_file) (\<lambda>cert_reader.
     and_then (collect_results (certs lib cert_reader)) (\<lambda>cert_chain.
     and_then (open_file key_file) (\<lambda>key_reader.
     and_then (collect_results (pkcs8_private_keys lib key_reader)) (\<lambda>keys.
     and_then (ok_or ''No private key'' (case keys of [] \<Rightarrow> None | x # _ \<Rightarrow> Some x)) (\<lambda>key.
     with_single_cert lib cert_chain key)))))"

section \<open>Properties\<close>

lemma and_then_Inr: "and_then r f = Inr y \<longleftrightarrow> (\<exists>x. r = Inr x \<and> f x = Inr y)"
  by (cases r) (simp_all add: and_then_def)

lemma ok_or_Inr: "ok_or e v = Inr x \<longleftrightarrow> v = Some x"
  by (cases v) (simp_all add: ok_or_def)

lemma first_Some: "(case xs of [] \<Rightarrow> None | x # _ \<Rightarrow> Some x) = Some k \<longleftrightarrow> (\<exists>ks. xs = k # ks)"
  by (cases xs) auto

lemma first_of_option:
  "(case (case v of None \<Rightarrow> [] | Some x \<Rightarrow> [x]) of [] \<Rightarrow> None | x # _ \<Rightarrow> Some x) = v"
  by (cases v) auto

text \<open>
  When TLS loads: both loaders succeed exactly when both files can be read, every
  certificate item parses, and the server builder accepts the whole chain with the first key; the
  gateway crate takes PKCS#8 items only and fails if any of them is malformed, even one after the
  first.
\<close>

theorem tls_loads_iff:
  "(load_tls_config lib read_file cf kf = Inr acc) =
     (\<exists>cp kp cs k. read_file cf = Inr cp \<and> read_file kf = Inr kp \<and> certs lib cp = map Inr cs \<and>
        private_key lib kp = Inr (Some k) \<and> with_single_cert lib cs k = Inr acc) \<and>
   (gw_load_tls_config lib read_file cf kf = Inr acc) =
     (\<exists>cp kp cs k ks. read_file cf = Inr cp \<and> read_file kf = Inr kp \<and> certs lib cp = map Inr cs \<and>
        pkcs8_private_keys lib kp = map Inr (k # ks) \<and> with_single_cert lib cs k = Inr acc)"
proof (intro conjI)
  show "(load_tls_config lib read_file cf kf = Inr acc) =
     (\<exists>cp kp cs k. read_file cf = Inr cp \<and> read_file kf = Inr kp \<and> certs lib cp = map Inr cs \<and>
        private_key lib kp = Inr (Some k) \<and> with_single_cert lib cs k = Inr acc)"
    unfolding load_tls_config_def and_then_Inr ok_or_Inr collect_results_Inr Let_def first_of_option
    by blast
  show "(gw_load_tls_config lib read_file cf kf = Inr acc) =
     (\<exists>cp kp cs k ks. read_file cf = Inr cp \<and> read_file kf = Inr kp \<and> certs lib cp = map Inr cs \<and>
        pkcs8_private_keys lib kp = map Inr (k # ks) \<and> with_single_cert lib cs k = Inr acc)"
    unfolding gw_load_tls_config_def and_then_Inr ok_or_Inr collect_results_Inr first_Some by blast
qed

end
