(* ===== verification/Gw_Server.thy ===== *)
theory Gw_Server
  imports Proxy Metrics Tls Config
begin

text \<open>
  The server of the gateway crate: \<open>gateway/src/router.rs\<close>, \<open>gateway/src/server.rs\<close> and the start-up
  in \<open>gateway/src/main.rs\<close>. Requests that are not one of three informational ones go to the control
  plane; connections are counted but not limited.
\<close>

section \<open>Routing\<close>

definition gw_upstream_url :: "string \<Rightarrow> http_request \<Rightarrow> string" where
  "gw_upstream_url upstream_base_url req =
     (let path = req_path req;
          query = unwrap_or (map_option (\<lambda>q. ''?'' @ q) (req_query req)) ''''
      in trim_end_matches CHR ''/'' upstream_base_url @ path @ query)"

definition gw_failure_response :: "http_lib \<Rightarrow> proxy_error \<Rightarrow> http_response outcome" where
  "gw_failure_response lib e =
     unwrap_result
       (build_body lib (''{\"error\":\"upstream_failure\",\"message\":\"'' @ proxy_error_display e @ ''\"}'')
         (add_header ''content-type'' ''application/json'' (set_status 502 response_builder)))"

definition gw_route_request ::
  "http_lib \<Rightarrow> upstream_send \<Rightarrow> http_request \<Rightarrow> string \<Rightarrow> http_response outcome \<times> client_request list" where
  "gw_route_request lib send req upstream_base_url =
     (case gw_forward lib send req (gw_upstream_url upstream_base_url req) of
        (Panicked e, sent) \<Rightarrow> (Panicked e, sent)
      | (Returned (Inr resp), sent) \<Rightarrow> (Returned resp, sent)
      | (Returned (Inl e), sent) \<Rightarrow> (gw_failure_response lib e, sent))"

section \<open>The request handler\<close>

definition plain_response :: "http_lib \<Rightarrow> string \<Rightarrow> bytes \<Rightarrow> http_response outcome" where
  "plain_response lib ctype body =
     unwrap_result (build_body lib body (add_header ''content-type'' ctype (set_status 200 response_builder)))"

definition gw_handle_request ::
  "http_lib \<Rightarrow> upstream_send \<Rightarrow> string + string \<Rightarrow> http_request \<Rightarrow> string \<Rightarrow>
     http_response outcome \<times> client_request list" where
  "gw_handle_request lib send encoded req upstream_base =
     (if req_method req = ''GET'' \<and> req_path req = ''/healthz'' then
        (plain_response lib ''text/plain'' (''ok'' @ [CHR 0x0A]), [])
      else if req_method req = ''GET'' \<and> req_path req = ''/readyz'' then
        (plain_response lib ''text/plain'' (''ready'' @ [CHR 0x0A]), [])
      else if req_method req = ''GET'' \<and> req_path req = ''/metrics'' then
        (case gw_gather_metrics encoded of
           Panicked e \<Rightarrow> (Panicked e, [])
         | Returned metrics \<Rightarrow> (plain_response lib ''text/plain; version=0.0.4'' metrics, []))
      else gw_route_request lib send req upstream_base)"

section \<open>Connections\<close>

text \<open>
  A connection is counted when accepted, then its TLS handshake runs in a task of its own, then
  HTTP is served on it. \<open>handshaking\<close> and \<open>gw_serving\<close> count the tasks in each phase.
\<close>

record gw_conns =
  gw_active :: usize
  handshaking :: nat
  gw_serving :: nat

inductive gw_step :: "gw_conns \<Rightarrow> gw_conns \<Rightarrow> bool" where
  gw_accept_error: "gw_step s s"
| gw_accept: "gw_step s (s\<lparr>gw_active := gw_active s + 1, handshaking := handshaking s + 1\<rparr>)"
| gw_handshake_failed: "0 < handshaking s \<Longrightarrow>
    gw_step s (s\<lparr>handshaking := handshaking s - 1, gw_active := gw_active s - 1\<rparr>)"
| gw_handshake_done: "0 < handshaking s \<Longrightarrow>
    gw_step s (s\<lparr>handshaking := handshaking s - 1, gw_serving := gw_serving s + 1\<rparr>)"
| gw_finished: "0 < gw_serving s \<Longrightarrow>
    gw_step s (s\<lparr>gw_serving := gw_serving s - 1, gw_active := gw_active s - 1\<rparr>)"

inductive_cases gw_stepE: "gw_step s t"

definition gw_start :: gw_conns where
  "gw_start = \<lparr>gw_active = 0, handshaking = 0, gw_serving = 0\<rparr>"

definition gw_active_connections :: "gw_conns \<Rightarrow> usize" where
  "gw_active_connections s = gw_active s"

definition gw_conns_inv :: "gw_conns \<Rightarrow> bool" where
  "gw_conns_inv s \<longleftrightarrow> gw_active s = of_nat (handshaking s + gw_serving s)"

lemma of_nat_pred: "0 < n \<Longrightarrow> of_nat (n - 1) = (of_nat n - 1 :: usize)"
  by (simp add: of_nat_diff)

lemma gw_conns_inv_step [step_inv_intros]: "gw_step s t \<Longrightarrow> gw_conns_inv s \<Longrightarrow> gw_conns_inv t"
  by (induction rule: gw_step.induct) (auto simp: gw_conns_inv_def of_nat_pred of_nat_diff)

interpretation gw_system: invariant_system "\<lambda>s. s = gw_start" gw_step gw_conns_inv
  by unfold_locales (simp add: gw_conns_inv_def gw_start_def, rule gw_conns_inv_step)

section \<open>Start-up\<close>

record server_config =
  sc_listen_addr :: string
  sc_listen_port :: u16
  sc_control_plane_url :: string
  sc_tls_cert_path :: string
  sc_tls_key_path :: string
  sc_jwt_key_path :: string
  sc_jwt_issuer :: string
  sc_jwt_audience :: string
  sc_otlp_endpoint :: string

definition server_config_of :: "gw_args \<Rightarrow> server_config" where
  "server_config_of args =
     \<lparr>sc_listen_addr = arg_listen_addr args, sc_listen_port = arg_listen_port args,
      sc_control_plane_url = arg_control_plane_url args, sc_tls_cert_path = arg_tls_cert_path args,
      sc_tls_key_path = arg_tls_key_path args, sc_jwt_key_path = arg_jwt_key_path args,
      sc_jwt_issuer = arg_jwt_issuer args, sc_jwt_audience = arg_jwt_audience args,
      sc_otlp_endpoint = arg_otlp_endpoint args\<rparr>"

text \<open>
  \<open>run_server\<close> up to its accept loop: bind, build the client, load TLS. It returns an error, panics,
  or reaches the loop with a client, an upstream base and an acceptor.
\<close>

definition run_server ::
  "('a \<Rightarrow> string + 'l) \<Rightarrow> (proxy_client_options \<Rightarrow> string + 'c) \<Rightarrow> ('cert, 'key, 'acc) tls_lib \<Rightarrow>
     (string \<Rightarrow> string + bytes) \<Rightarrow> ('a \<Rightarrow> string) \<Rightarrow> 'a \<Rightarrow> server_config \<Rightarrow>
     (string + 'l \<times> 'c \<times> string \<times> 'acc) outcome" where
  "run_server bind_to build tlib read_file show_addr addr cfg =
     (case bind_to addr of
        Inl e \<Rightarrow> Returned (Inl (''Failed to bind to '' @ show_addr addr @ '': '' @ e))
      | Inr listener \<Rightarrow>
          (case gw_proxy_client_new build of
             Panicked e \<Rightarrow> Panicked e
           | Returned c \<Rightarrow>
               (case map_err (\<lambda>e. ''Failed to load TLS config: '' @ e)
                       (gw_load_tls_config tlib read_file (sc_tls_cert_path cfg) (sc_tls_key_path cfg)) of
                  Inl e \<Rightarrow> Returned (Inl e)
                | Inr acc \<Rightarrow> Returned (Inr (listener, c, sc_control_plane_url cfg, acc)))))"

text \<open>\<open>main\<close>: parse the listen address (\<open>expect\<close> panics), then run the server.\<close>

definition gw_main ::
  "(string \<Rightarrow> string + 'ip) \<Rightarrow> ('ip \<times> u16 \<Rightarrow> string + 'l) \<Rightarrow> (proxy_client_options \<Rightarrow> string + 'c) \<Rightarrow>
     ('cert, 'key, 'acc) tls_lib \<Rightarrow> (string \<Rightarrow> string + bytes) \<Rightarrow> ('ip \<times> u16 \<Rightarrow> string) \<Rightarrow> gw_args \<Rightarrow>
     (string + 'l \<times> 'c \<times> string \<times> 'acc) outcome" where
  "gw_main parse_ip bind_to build tlib read_file show_addr args =
     (case parse_ip (arg_listen_addr args) of
        Inl e \<Rightarrow> Panicked ''Invalid listen address''
      | Inr ip \<Rightarrow>
          run_server bind_to build tlib read_file show_addr (ip, arg_listen_port args)
            (server_config_of args))"

section \<open>Lemmas\<close>

lemma content_type_ok:
  assumes "http_contract lib" "visible v"
  shows "build_body lib body (add_header ''content-type'' v (set_status st response_builder)) =
           Inr \<lparr>resp_status = st, resp_headers = [(''content-type'', v)], resp_body = body\<rparr>"
proof -
  have "header_ok lib ''content-type'' v"
    by (rule http_contractD(1) [OF assms(1) _ assms(2)]) (simp add: http_chars)
  then show ?thesis by (simp add: builder_defs)
qed

lemma types_visible:
  "visible ''text/plain''" "visible ''text/plain; version=0.0.4''" "visible ''application/json''"
  by (simp_all add: http_chars)

definition gw_info_route :: "http_request \<Rightarrow> bool" where
  "gw_info_route req \<longleftrightarrow>
     req_method req = ''GET'' \<and> req_path req \<in> {''/healthz'', ''/readyz'', ''/metrics''}"

lemma gw_handle_forwards:
  "\<not> gw_info_route req \<Longrightarrow> gw_handle_request lib send encoded req base = gw_route_request lib send req base"
  by (auto simp: gw_handle_request_def gw_info_route_def)

lemma gw_route_sent:
  "snd (gw_route_request lib send req base) = snd (gw_forward lib send req (gw_upstream_url base req))"
  by (simp add: gw_route_request_def split: prod.split outcome.split sum.split)

lemma gw_route_returns:
  assumes "http_contract lib"
  shows "\<exists>resp. fst (gw_route_request lib send req base) = Returned resp"
proof -
  obtain r sent where "gw_forward lib send req (gw_upstream_url base req) = (Returned r, sent)"
    using gw_forward_returns [of lib send req "gw_upstream_url base req"]
    by (metis prod.collapse)
  then show ?thesis
    by (cases r) (simp_all add: gw_route_request_def gw_failure_response_def
        content_type_ok [OF assms types_visible(3)])
qed

lemma gw_info_served:
  assumes "http_contract lib" "gw_info_route req"
  shows "\<exists>resp. gw_handle_request lib send (Inr page) req base = (Returned resp, []) \<and> resp_status resp = 200"
  using assms(2) content_type_ok [OF assms(1) types_visible(1)] content_type_ok [OF assms(1) types_visible(2)]
  by (auto simp: gw_info_route_def gw_handle_request_def plain_response_def gw_gather_metrics_def)

section \<open>Properties\<close>

text \<open>
  Claim C10. The gateway crate's request path: \<open>GET\<close> on \<open>/healthz\<close>, \<open>/readyz\<close> and \<open>/metrics\<close> is answered
  with 200 and nothing is sent; every other request is forwarded, once, to the control plane's
  URL without its trailing slashes followed by the request's path and query, with the allowed
  headers and without a body. No token, policy, rate limit or SSRF check is made. The handler
  always answers.
\<close>

theorem gw_request_path:
  assumes "http_contract lib" "upper_word (req_method req)"
  shows "\<exists>resp. fst (gw_handle_request lib send (Inr page) req base) = Returned resp \<and>
     (if req_method req = ''GET'' \<and> req_path req \<in> {''/healthz'', ''/readyz'', ''/metrics''}
      then resp_status resp = 200 \<and> snd (gw_handle_request lib send (Inr page) req base) = []
      else snd (gw_handle_request lib send (Inr page) req base) =
        [\<lparr>cr_method = req_method req,
          cr_url = trim_end_matches CHR ''/'' base @ req_path req @
                   (case req_query req of None \<Rightarrow> '''' | Some q \<Rightarrow> ''?'' @ q),
          cr_headers = filter (\<lambda>(n, v). gw_forwarded_header n) (req_headers req), cr_body = None\<rparr>])"
proof (cases "gw_info_route req")
  case True
  then show ?thesis using gw_info_served [OF assms(1) True, of send page base] by (auto simp: gw_info_route_def)
next
  case False
  have "snd (gw_route_request lib send req base) =
      [upstream_view gw_forwarded_header (req_method req) (gw_upstream_url base req) (req_headers req)]"
    by (simp add: gw_route_sent gw_forward_sent http_contractD(3) [OF assms])
  moreover have "gw_upstream_url base req = trim_end_matches CHR ''/'' base @ req_path req @
      (case req_query req of None \<Rightarrow> '''' | Some q \<Rightarrow> ''?'' @ q)"
    by (simp add: gw_upstream_url_def unwrap_or_def split: option.split)
  ultimately show ?thesis
    using False gw_route_returns [OF assms(1), of send req base]
    by (simp add: gw_handle_forwards [OF False] upstream_view_def) (simp add: gw_info_route_def)
qed

theorem gw_request_path_witness:
  "snd (gw_handle_request strict_http sample_upstream (Inr '''') sample_request ''http://cp:8080/'') =
     [\<lparr>cr_method = ''POST'', cr_url = ''http://cp:8080/v1/proxy'', cr_headers = [(''accept'', ''*/*'')],
       cr_body = None\<rparr>]"
  using gw_request_path [OF strict_http_contract sample_upper, of sample_upstream "''''" "''http://cp:8080/''"]
  by (simp add: sample_request_def trim_end_matches_def gw_forwarded_header_def to_lowercase_def to_ascii_lower_def)

lemma gw_reach_n: "\<exists>s. gw_step\<^sup>*\<^sup>* gw_start s \<and> gw_serving s = n \<and> handshaking s = 0"
proof (induction n)
  case 0
  show ?case by (intro exI [of _ gw_start]) (simp add: gw_start_def)
next
  case (Suc n)
  then obtain s where s: "gw_step\<^sup>*\<^sup>* gw_start s" "gw_serving s = n" "handshaking s = 0" by blast
  let ?t = "s\<lparr>gw_active := gw_active s + 1, handshaking := handshaking s + 1\<rparr>"
  let ?u = "?t\<lparr>handshaking := handshaking ?t - 1, gw_serving := gw_serving ?t + 1\<rparr>"
  have "gw_step s ?t" by (rule gw_accept)
  moreover have "gw_step ?t ?u" by (rule gw_handshake_done) simp
  ultimately have "gw_step\<^sup>*\<^sup>* gw_start ?u" using s(1) by (meson rtranclp.rtrancl_into_rtrancl)
  then show ?case using s by (intro exI [of _ ?u]) simp
qed

text \<open>
  The gateway crate counts its connections but does not limit them: in every reachable
  state the counter is the number of connections in handshake or service (modulo \<open>2^64\<close>), on
  every way out of a task, and states with any number of connections are reachable.
\<close>

theorem gw_connections_counted:
  assumes "gw_step\<^sup>*\<^sup>* gw_start t"
  shows "gw_active_connections t = of_nat (handshaking t + gw_serving t) \<and>
         (\<exists>s. gw_step\<^sup>*\<^sup>* gw_start s \<and> handshaking s + gw_serving s = n)"
  using gw_system.reach_inv [OF refl assms] gw_reach_n [of n]
  by (auto simp: gw_conns_inv_def gw_active_connections_def)

theorem gw_connections_counted_witness:
  "gw_active_connections gw_start = 0 \<and>
   (\<exists>s. gw_step\<^sup>*\<^sup>* gw_start s \<and> handshaking s + gw_serving s = 1000000)"
  using gw_connections_counted [OF rtranclp.rtrancl_refl, of 1000000] by (simp add: gw_start_def)

text \<open>
  No plaintext fallback: the gateway crate reaches its accept loop only with an acceptor
  built from the configured certificate and key files, and then serves the configured control
  plane. The token settings on the command line have no effect on start-up.
\<close>

theorem gw_starts_only_with_tls:
  assumes "gw_main parse_ip bind_to build tlib read_file show_addr args = Returned (Inr (l, c, url, acc))"
  shows "gw_load_tls_config tlib read_file (arg_tls_cert_path args) (arg_tls_key_path args) = Inr acc \<and>
         url = arg_control_plane_url args \<and>
         gw_main parse_ip bind_to build tlib read_file show_addr
           (args\<lparr>arg_jwt_key_path := k, arg_jwt_issuer := i, arg_jwt_audience := a\<rparr>) =
         Returned (Inr (l, c, url, acc))"
  using assms
  by (auto simp: gw_main_def run_server_def server_config_of_def map_err_def split: sum.splits outcome.splits)

theorem gw_starts_only_with_tls_witness:
  "gw_load_tls_config
     \<lparr>certs = (\<lambda>_. [Inr ()]), private_key = (\<lambda>_. Inr (Some ())), pkcs8_private_keys = (\<lambda>_. [Inr ()]),
      with_single_cert = (\<lambda>_ _. Inr ())\<rparr>
     (\<lambda>_. Inr '''') (arg_tls_cert_path gw_args_default) (arg_tls_key_path gw_args_default) = Inr ()"
proof -
  let ?tls = "\<lparr>certs = (\<lambda>_. [Inr ()]), private_key = (\<lambda>_. Inr (Some ())), pkcs8_private_keys = (\<lambda>_. [Inr ()]),
      with_single_cert = (\<lambda>_ _. Inr ())\<rparr> :: (unit, unit, unit) tls_lib"
  have "gw_main (\<lambda>_. Inr ()) (\<lambda>_. Inr ()) (\<lambda>_. Inr ()) ?tls (\<lambda>_. Inr '''') (\<lambda>_. '''') gw_args_default =
      Returned (Inr ((), (), arg_control_plane_url gw_args_default, ()))"
    by (simp add: gw_main_def run_server_def server_config_of_def gw_proxy_client_new_def
        gw_load_tls_config_def and_then_def ok_or_def map_err_def)
  from gw_starts_only_with_tls [OF this] show ?thesis by blast
qed

end
