(* ===== verification/Lifecycle.thy ===== *)
theory Lifecycle
  imports Startup Connections Gw_Server
begin

text \<open>
  The life of the two processes after start-up: \<open>main\<close> of \<open>rust-gateway/src/main.rs\<close> and of
  \<open>gateway/src/main.rs\<close> from the spawned server to the end of the process, with the two Unix
  signals, the broadcast, the timeout on the server task, and the tracing guards dropped on the way
  out. When signals arrive and what the server task does are inputs. Both crates abort on panic.
\<close>

section \<open>Futures and select\<close>

text \<open>
  A signal listener either fails to register or delivers its signal at some time, or never.
  \<open>ready_at\<close> is when a branch completes that ignores the failure: at once.
\<close>

type_synonym signal_source = "string + instant option"

fun ready_at :: "instant \<Rightarrow> signal_source \<Rightarrow> instant option" where
  "ready_at now (Inl e) = Some now"
| "ready_at now (Inr arrives) = arrives"

text \<open>
  \<open>select!\<close> without \<open>biased\<close> polls its branches cyclically from a random one: the earliest branch
  wins, and among branches ready at the same time the one polled first.
\<close>

fun first_ready :: "(instant option \<times> 'b) list \<Rightarrow> (instant \<times> 'b) option" where
  "first_ready [] = None"
| "first_ready ((None, b) # bs) = first_ready bs"
| "first_ready ((Some t, b) # bs) =
     (case first_ready bs of
        None \<Rightarrow> Some (t, b)
      | Some (s, c) \<Rightarrow> if s < t then Some (s, c) else Some (t, b))"

definition select_from :: "nat \<Rightarrow> (instant option \<times> 'b) list \<Rightarrow> (instant \<times> 'b) option" where
  "select_from k bs = first_ready (rotate k bs)"

lemma first_ready_None: "first_ready bs = None \<longleftrightarrow> list_all (\<lambda>(r, b). r = None) bs"
  by (induction bs rule: first_ready.induct) (auto split: option.split)

lemma first_ready_Some:
  "first_ready bs = Some (t, b) \<Longrightarrow> (Some t, b) \<in> set bs \<and> (\<forall>s c. (Some s, c) \<in> set bs \<longrightarrow> t \<le> s)"
proof (induction bs arbitrary: t b rule: first_ready.induct)
  case (3 u c bs)
  show ?case
  proof (cases "first_ready bs")
    case None
    then have "list_all (\<lambda>(r, b). r = None) bs" by (simp add: first_ready_None)
    with None 3 show ?thesis by (auto simp: list_all_iff)
  next
    case (Some p)
    with 3 show ?thesis by (cases p) (fastforce split: if_splits)
  qed
qed auto

lemma select_from_None: "select_from k bs = None \<longleftrightarrow> list_all (\<lambda>(r, b). r = None) bs"
  by (simp add: select_from_def first_ready_None list_all_iff)

lemma select_from_Some:
  "select_from k bs = Some (t, b) \<Longrightarrow> (Some t, b) \<in> set bs \<and> (\<forall>s c. (Some s, c) \<in> set bs \<longrightarrow> t \<le> s)"
  using first_ready_Some [of "rotate k bs" t b] by (simp add: select_from_def)

datatype stop_cause = Sigint | Sigterm | Server_ended "string + unit"

text \<open>
  A process exits with a status, aborts, runs on, or hangs after \<open>main\<close> has logged its last line. Between
  that line and the exit, what \<open>main\<close> holds is dropped: each step of \<open>tear_down\<close> takes some time
  or does not return.
\<close>

datatype process_end = Exits instant nat "string list" | Hangs instant "string list" | Aborts string | Runs_on

fun tear_down :: "instant option list \<Rightarrow> instant \<Rightarrow> nat \<Rightarrow> string list \<Rightarrow> process_end" where
  "tear_down [] t code msgs = Exits t code msgs"
| "tear_down (None # ds) t code msgs = Hangs t msgs"
| "tear_down (Some d # ds) t code msgs = tear_down ds (t + d) code msgs"

text \<open>The blocking flush of the tracing provider and the drop of the tokio runtime.\<close>

record teardown =
  flush_takes :: "instant option"
  runtime_takes :: "instant option"

section \<open>rust-gateway\<close>

text \<open>
  What the server task does once its listener is bound: when its accept loop stops, if ever, and
  what the drain loop then loads and reads in each iteration.
\<close>

record server_run =
  stops_at :: "instant option"
  loads :: "nat \<Rightarrow> usize"
  ticks :: "nat \<Rightarrow> instant"

fun drain_end_iteration :: "drain_end \<Rightarrow> nat" where
  "drain_end_iteration (Drained j) = j"
| "drain_end_iteration (TimedOut j) = j"

text \<open>When the spawned task ends: at once on an error of \<open>run\<close>, otherwise when the drain loop returns.\<close>

definition server_task_end :: "instant \<Rightarrow> string + 'l \<Rightarrow> server_run \<Rightarrow> instant option" where
  "server_task_end now listening run =
     (case listening of
        Inl e \<Rightarrow> Some now
      | Inr listener \<Rightarrow>
          (case stops_at run of
             None \<Rightarrow> None
           | Some drain_start \<Rightarrow>
               map_option (\<lambda>d. ticks run (drain_end_iteration d))
                 (drain_loop (loads run) (ticks run) drain_start 0)))"

text \<open>
  The wait of \<open>main\<close>. A failure to register for SIGINT completes its branch; one for SIGTERM is
  unwrapped, and panics if that branch is polled.
\<close>

definition main_wait ::
  "nat \<Rightarrow> instant \<Rightarrow> signal_source \<Rightarrow> signal_source \<Rightarrow> (instant \<times> stop_cause) option outcome" where
  "main_wait k now ctrl_c sigterm =
     (case sigterm of
        Inl e \<Rightarrow>
          if even k \<and> ready_at now ctrl_c = Some now then Returned (Some (now, Sigint)) else Panicked e
      | Inr arrives \<Rightarrow>
          Returned (select_from k [(ready_at now ctrl_c, Sigint), (arrives, Sigterm)]))"

fun main_message :: "stop_cause \<Rightarrow> string" where
  "main_message Sigint = ''SIGINT received, shutting down gracefully''"
| "main_message Sigterm = ''SIGTERM received, shutting down gracefully''"
| "main_message (Server_ended r) = ''''"

text \<open>
  \<open>timeout(30 s, server_handle)\<close> from the moment of the broadcast: the handle is polled before the
  deadline is, so a task that ends at the deadline still counts.
\<close>

definition main_finish :: "instant \<Rightarrow> instant option \<Rightarrow> instant \<times> string" where
  "main_finish stopped task_end =
     (let deadline = stopped + duration_secs 30 in
      case task_end of
        Some e \<Rightarrow>
          if e \<le> deadline then (max stopped e, ''Server shutdown gracefully'')
          else (deadline, ''Server shutdown timed out after 30s'')
      | None \<Rightarrow> (deadline, ''Server shutdown timed out after 30s''))"

text \<open>
  What happens when \<open>main\<close> has logged its last line: the guard, if there is one, flushes its provider, and the
  runtime is dropped.
\<close>

definition main_teardown :: "'p option \<Rightarrow> teardown \<Rightarrow> instant option list" where
  "main_teardown tracer td =
     (case tracer of None \<Rightarrow> [] | Some prov \<Rightarrow> [flush_takes td]) @ [runtime_takes td]"

text \<open>
  \<open>main\<close>, given what start-up built: \<open>listen\<close> is the head of \<open>AppGateServer::run\<close>. The early exit of start-up
  is \<open>process::exit\<close>, which drops nothing.
\<close>

definition main_process ::
  "'s start \<Rightarrow> ('s \<Rightarrow> string + 'l) \<Rightarrow> nat \<Rightarrow> instant \<Rightarrow> signal_source \<Rightarrow> signal_source \<Rightarrow> server_run \<Rightarrow>
     'p option \<Rightarrow> teardown \<Rightarrow> process_end" where
  "main_process started listen k now ctrl_c sigterm run tracer td =
     (case started of
        Exit code \<Rightarrow> Exits now code []
      | Panic e \<Rightarrow> Aborts e
      | Running st \<Rightarrow>
          (case main_wait k now ctrl_c sigterm of
             Panicked e \<Rightarrow> Aborts e
           | Returned None \<Rightarrow> Runs_on
           | Returned (Some (stopped, cause)) \<Rightarrow>
               (let (t, outcome) = main_finish stopped (server_task_end now (listen st) run)
                in tear_down (main_teardown tracer td) t 0
                     [main_message cause, outcome, ''AppGate shutdown complete''])))"

section \<open>The gateway crate\<close>

text \<open>
  The wait of this \<open>main\<close>: a failure to register for either signal completes that branch, and the
  server task is a third branch.
\<close>

definition gw_main_wait ::
  "nat \<Rightarrow> instant \<Rightarrow> signal_source \<Rightarrow> signal_source \<Rightarrow> (instant \<times> (string + unit)) option \<Rightarrow>
     (instant \<times> stop_cause) option" where
  "gw_main_wait k now ctrl_c sigterm server_end =
     select_from k
       [(ready_at now ctrl_c, Sigint), (ready_at now sigterm, Sigterm),
        (map_option fst server_end,
         Server_ended (case server_end of None \<Rightarrow> Inr () | Some (t, r) \<Rightarrow> r))]"

fun gw_message :: "stop_cause \<Rightarrow> string" where
  "gw_message Sigint = ''SIGINT received, shutting down''"
| "gw_message Sigterm = ''SIGTERM received, shutting down''"
| "gw_message (Server_ended (Inr u)) = ''Server stopped cleanly''"
| "gw_message (Server_ended (Inl e)) = ''Server error: '' @ e"

text \<open>The guard of this crate only logs when it is dropped; the runtime is dropped after it.\<close>

definition gw_finish :: "instant option \<Rightarrow> (instant \<times> stop_cause) option \<Rightarrow> process_end" where
  "gw_finish runtime_drop woken_by =
     (case woken_by of
        None \<Rightarrow> Runs_on
      | Some (t, cause) \<Rightarrow>
          tear_down [runtime_drop] t 0 [gw_message cause, ''AppGate shutdown complete''])"

text \<open>
  \<open>main\<close>: a bad listen address panics; the accept loop of \<open>run_server\<close> does not end, so its task ends
  only when it does not reach the loop, at time \<open>settled\<close>; a panic of the task aborts the process
  unless a signal ended it before.
\<close>

definition gw_process ::
  "(string \<Rightarrow> string + 'ip) \<Rightarrow> ('ip \<times> u16 \<Rightarrow> string + 'l) \<Rightarrow> (proxy_client_options \<Rightarrow> string + 'c) \<Rightarrow>
     ('cert, 'key, 'acc) tls_lib \<Rightarrow> (string \<Rightarrow> string + bytes) \<Rightarrow> ('ip \<times> u16 \<Rightarrow> string) \<Rightarrow> gw_args \<Rightarrow>
     nat \<Rightarrow> instant \<Rightarrow> signal_source \<Rightarrow> signal_source \<Rightarrow> instant \<Rightarrow> instant option \<Rightarrow> process_end" where
  "gw_process parse_ip bind_to build tlib read_file show_addr args k now ctrl_c sigterm settled runtime_drop =
     (case parse_ip (arg_listen_addr args) of
        Inl e \<Rightarrow> Aborts ''Invalid listen address''
      | Inr ip \<Rightarrow>
          (case run_server bind_to build tlib read_file show_addr (ip, arg_listen_port args)
                  (server_config_of args) of
             Panicked e \<Rightarrow>
               (case gw_main_wait k now ctrl_c sigterm None of
                  None \<Rightarrow> Aborts e
                | Some (t, cause) \<Rightarrow> if t < settled then gw_finish runtime_drop (Some (t, cause)) else Aborts e)
           | Returned (Inl e) \<Rightarrow>
               gw_finish runtime_drop (gw_main_wait k now ctrl_c sigterm (Some (settled, Inl e)))
           | Returned (Inr loop_state) \<Rightarrow> gw_finish runtime_drop (gw_main_wait k now ctrl_c sigterm None)))"


section \<open>Tracing guards\<close>

text \<open>What the guards call when they are dropped, in order.\<close>

datatype 'p telemetry_call = Shutdown_provider 'p | Shutdown_global | Log_line string

record 'p tracer_guard =
  guard_provider :: "'p option"

definition tracer_guard_drop :: "'p tracer_guard \<Rightarrow> 'p tracer_guard \<times> 'p telemetry_call list" where
  "tracer_guard_drop g =
     (case guard_provider g of
        Some prov \<Rightarrow> (g\<lparr>guard_provider := None\<rparr>, [Shutdown_provider prov])
      | None \<Rightarrow> (g, []))"

definition telemetry_shutdown :: "bool \<Rightarrow> 'p telemetry_call list" where
  "telemetry_shutdown otel = (if otel then [Shutdown_global] else [])"

definition gw_tracing_guard_drop :: "'p telemetry_call list" where
  "gw_tracing_guard_drop = [Log_line ''Tracing shutdown'']"

text \<open>
  \<open>main\<close> holds its guard until it returns; \<open>process::exit\<close> and an abort run no destructor.
\<close>

definition main_drops :: "'p option \<Rightarrow> 's start \<Rightarrow> process_end \<Rightarrow> 'p telemetry_call list" where
  "main_drops tracer started ended =
     (let dropped =
        (case tracer of
           None \<Rightarrow> []
         | Some prov \<Rightarrow> snd (tracer_guard_drop \<lparr>guard_provider = Some prov\<rparr>))
      in case (started, ended) of
           (Running st, Exits t code msgs) \<Rightarrow> dropped
         | (Running st, Hangs t msgs) \<Rightarrow> dropped
         | _ \<Rightarrow> [])"

section \<open>Lemmas\<close>

text \<open>The time of the first signal.\<close>

fun earlier :: "instant option \<Rightarrow> instant option \<Rightarrow> instant option" where
  "earlier None b = b"
| "earlier (Some a) None = Some a"
| "earlier (Some a) (Some b) = Some (min a b)"

lemma main_wait_signal:
  assumes "earlier (ready_at now ctrl_c) arrives = Some s"
  shows "\<exists>cause. main_wait k now ctrl_c (Inr arrives) = Returned (Some (s, cause)) \<and>
           (cause = Sigint \<or> cause = Sigterm)"
proof -
  let ?bs = "[(ready_at now ctrl_c, Sigint), (arrives, Sigterm)]"
  have "select_from k ?bs \<noteq> None"
    using assms by (cases "ready_at now ctrl_c") (auto simp: select_from_None)
  then obtain t cause where sel: "select_from k ?bs = Some (t, cause)" by auto
  from select_from_Some [OF this] assms have "t = s \<and> (cause = Sigint \<or> cause = Sigterm)"
    by (cases "ready_at now ctrl_c"; cases arrives) (auto simp: min_def split: if_splits)
  with sel show ?thesis by (simp add: main_wait_def)
qed

lemma main_process_signal:
  assumes "earlier (ready_at now ctrl_c) arrives = Some s"
  shows "\<exists>cause. main_process (Running st) listen k now ctrl_c (Inr arrives) run tracer td =
           tear_down (main_teardown tracer td) (fst (main_finish s (server_task_end now (listen st) run))) 0
             [main_message cause, snd (main_finish s (server_task_end now (listen st) run)),
              ''AppGate shutdown complete'']"
  using main_wait_signal [OF assms, of k] by (auto simp: main_process_def simp del: main_message.simps split: prod.split)

lemma main_finish_time:
  "stopped \<le> fst (main_finish stopped e) \<and> fst (main_finish stopped e) \<le> stopped + 30000000000"
  by (auto simp: main_finish_def duration_secs_def Let_def split: option.split)

lemma main_finish_graceful:
  "snd (main_finish stopped e) = ''Server shutdown gracefully'' \<longleftrightarrow>
     (\<exists>t. e = Some t \<and> t \<le> stopped + 30000000000)"
  by (auto simp: main_finish_def duration_secs_def Let_def split: option.split)

lemma gw_wait_server_only:
  "gw_main_wait k now (Inr None) (Inr None) (Some (t, r)) = Some (t, Server_ended r)"
proof -
  let ?bs = "[(None, Sigint), (None, Sigterm), (Some t, Server_ended r)]"
  have "select_from k ?bs \<noteq> None" by (simp add: select_from_None)
  then obtain u cause where "select_from k ?bs = Some (u, cause)" by auto
  with select_from_Some [OF this] show ?thesis by (simp add: gw_main_wait_def)
qed

lemma gw_wait_signal:
  "case earlier (ready_at now ctrl_c) (ready_at now sigterm) of
     None \<Rightarrow> gw_main_wait k now ctrl_c sigterm None = None
   | Some s \<Rightarrow> \<exists>cause. gw_main_wait k now ctrl_c sigterm None = Some (s, cause)"
proof (cases "gw_main_wait k now ctrl_c sigterm None")
  case None
  then show ?thesis by (simp add: gw_main_wait_def select_from_None)
next
  case (Some p)
  then obtain t cause where "gw_main_wait k now ctrl_c sigterm None = Some (t, cause)" by (cases p) auto
  moreover from select_from_Some [OF this [unfolded gw_main_wait_def]]
  have "earlier (ready_at now ctrl_c) (ready_at now sigterm) = Some t"
    by (cases "ready_at now ctrl_c"; cases "ready_at now sigterm") (auto simp: min_def)
  ultimately show ?thesis by simp
qed

section \<open>Properties\<close>

text \<open>
  After the first SIGINT or SIGTERM the body of \<open>main\<close> returns at most 30 seconds later, whatever its
  connections and its server task do; it reports a graceful shutdown exactly when the server task
  ended by then. The exit follows when the provider is flushed and the runtime is dropped, for
  which the code sets no limit.
\<close>

theorem main_returns_after_signal:
  assumes "earlier (ready_at now ctrl_c) arrives = Some s"
  shows "\<exists>t m g. main_process (Running st) listen k now ctrl_c (Inr arrives) run tracer td =
             tear_down (main_teardown tracer td) t 0 [m, g, ''AppGate shutdown complete''] \<and>
           s \<le> t \<and> t \<le> s + 30000000000 \<and>
           (g = ''Server shutdown gracefully'' \<longleftrightarrow>
              (\<exists>e. server_task_end now (listen st) run = Some e \<and> e \<le> s + 30000000000))"
  using main_process_signal [OF assms, of st listen k run tracer td] main_finish_time main_finish_graceful
  by blast


text \<open>
  Claim C19. A server that never listened goes unnoticed: when the address does not parse or cannot be
  bound, the server task ends at once, but \<open>main\<close> does not watch it and keeps waiting for a signal,
  so the process runs on without serving; when a signal comes it reports a graceful shutdown and
  tears down with status 0.
\<close>

theorem bind_failure_unnoticed:
  assumes "server_listen parse bind_to show_addr st = Inl e"
  shows "server_task_end now (server_listen parse bind_to show_addr st) run = Some now \<and>
         main_process (Running st) (server_listen parse bind_to show_addr) k now (Inr None) (Inr None) run tracer td =
           Runs_on \<and>
         (\<exists>m. main_process (Running st) (server_listen parse bind_to show_addr) k now (Inr None)
                (Inr (Some (now + n))) run tracer td =
              tear_down (main_teardown tracer td) (now + n) 0 [m, ''Server shutdown gracefully'', ''AppGate shutdown complete''])"
proof -
  have task: "server_task_end now (server_listen parse bind_to show_addr st) run = Some now"
    by (simp add: server_task_end_def assms)
  have "select_from k [(None, Sigint), (None, Sigterm)] = None" by (simp add: select_from_None)
  then have "main_process (Running st) (server_listen parse bind_to show_addr) k now (Inr None) (Inr None) run tracer td = Runs_on"
    by (simp add: main_process_def main_wait_def)
  moreover have "main_finish (now + n) (Some now) = (now + n, ''Server shutdown gracefully'')"
    by (simp add: main_finish_def Let_def)
  ultimately show ?thesis
    using main_process_signal [of now "Inr None" "Some (now + n)" "now + n" st
        "server_listen parse bind_to show_addr" k run tracer td] task by auto
qed


text \<open>
  A shutdown signal that the accept loop missed costs the full timeout: the loop never stops, and
  \<open>main\<close> leaves after exactly 30 seconds, reporting the timeout.
\<close>

theorem lost_signal_costs_timeout:
  assumes "earlier (ready_at now ctrl_c) arrives = Some s" "listen st = Inr l" "stops_at run = None"
  shows "\<exists>m. main_process (Running st) listen k now ctrl_c (Inr arrives) run tracer td =
     tear_down (main_teardown tracer td) (s + 30000000000) 0 [m, ''Server shutdown timed out after 30s'', ''AppGate shutdown complete'']"
proof -
  have "main_finish s (server_task_end now (listen st) run) =
      (s + 30000000000, ''Server shutdown timed out after 30s'')"
    using assms(2,3) by (simp add: server_task_end_def main_finish_def duration_secs_def)
  with main_process_signal [OF assms(1), of st listen k run tracer td] show ?thesis by auto
qed

text \<open>A server that drains its last connection in the third iteration, 200 ms after the signal.\<close>

definition sample_run :: server_run where
  "sample_run =
     \<lparr>stops_at = Some 50, loads = (\<lambda>i. if i < 2 then 1 else 0), ticks = (\<lambda>i. 50 + i * 100000000)\<rparr>"

text \<open>A flush of 10 ns and a runtime drop of 2 ns.\<close>

definition sample_teardown :: teardown where
  "sample_teardown = \<lparr>flush_takes = Some 10, runtime_takes = Some 2\<rparr>"

lemma sample_sleeps: "sleeps (ticks sample_run) 50"
  by (simp add: sleeps_def sample_run_def duration_ms_def SHUTDOWN_DRAIN_INTERVAL_MS_def)

lemma sample_drain: "drain_loop (loads sample_run) (ticks sample_run) 50 0 = Some (Drained 2)"
proof -
  have "drain_loop (loads sample_run) (ticks sample_run) 50 0 =
      drain_loop (loads sample_run) (ticks sample_run) 50 1"
    by (subst drain_loop.simps) (simp add: sample_run_def max_wait elapsed_def)
  also have "\<dots> = drain_loop (loads sample_run) (ticks sample_run) 50 2"
    by (subst drain_loop.simps) (simp add: sample_run_def max_wait elapsed_def numeral_2_eq_2)
  also have "\<dots> = Some (Drained 2)"
    by (subst drain_loop.simps) (simp add: sample_run_def)
  finally show ?thesis .
qed

theorem main_returns_after_signal_witness:
  "\<exists>t m g. main_process (Running ()) (\<lambda>_. Inr ()) 1 0 (Inr (Some 70)) (Inr (Some 40)) sample_run (Some ()) sample_teardown =
       Exits (t + 12) 0 [m, g, ''AppGate shutdown complete''] \<and> 40 \<le> t \<and> t \<le> 30000000040"
  using main_returns_after_signal [of 0 "Inr (Some 70)" "Some 40" 40 "()" "\<lambda>_. Inr ()" 1 sample_run "Some ()" sample_teardown]
  by (auto simp: main_teardown_def sample_teardown_def)


theorem bind_failure_unnoticed_witness:
  "\<exists>st. sample_start (\<lambda>_. Inr sample_config) = Running st \<and>
     main_process (Running st) (server_listen Inr (\<lambda>_. Inl ''in use'' :: string + unit) id) 0 0 (Inr None) (Inr None)
       sample_run (Some ()) sample_teardown = Runs_on"
proof -
  obtain st where st: "sample_start (\<lambda>_. Inr sample_config) = Running st" using sample_runs by blast
  have "server_listen Inr (\<lambda>_. Inl ''in use'' :: string + unit) id st =
      Inl (''Failed to bind to '' @ server_address (config st) @ '': in use'')"
    by (simp add: server_listen_def and_then_def map_err_def)
  from bind_failure_unnoticed [OF this] st show ?thesis by blast
qed


text \<open>A TLS library for a host without certificate files.\<close>

definition no_tls :: "(unit, unit, unit) tls_lib" where
  "no_tls = \<lparr>certs = (\<lambda>_. []), private_key = (\<lambda>_. Inr None), pkcs8_private_keys = (\<lambda>_. []),
             with_single_cert = (\<lambda>_ _. Inr ())\<rparr>"


text \<open>
  Spans are flushed once: the guard shuts its provider down on the first drop and does nothing on a
  second one; \<open>main\<close> drops it when a signal ended the gateway, and not when start-up failed.
\<close>

theorem provider_shut_down_once:
  "snd (tracer_guard_drop \<lparr>guard_provider = Some prov\<rparr>) = [Shutdown_provider prov] \<and>
   snd (tracer_guard_drop (fst (tracer_guard_drop g))) = [] \<and>
   main_drops (Some prov) (Exit code) (main_process (Exit code) listen k now ctrl_c sigterm run (Some prov) td) = [] \<and>
   main_drops (Some prov) (Running st)
       (main_process (Running st) listen k now (Inr (Some s)) (Inr None) run (Some prov) td) = [Shutdown_provider prov]"
proof -
  obtain cause where "main_process (Running st) listen k now (Inr (Some s)) (Inr None) run (Some prov) td =
      tear_down (main_teardown (Some prov) td) (fst (main_finish s (server_task_end now (listen st) run))) 0
        [main_message cause, snd (main_finish s (server_task_end now (listen st) run)), ''AppGate shutdown complete'']"
    using main_process_signal [of now "Inr (Some s)" None s st listen k run "Some prov" td] by auto
  then show ?thesis
    by (cases "flush_takes td"; cases "runtime_takes td")
      (simp_all add: tracer_guard_drop_def main_drops_def main_teardown_def main_process_def split: option.split)
qed

end
