(* ===== verification/Rate_Limit_Concurrent.thy ===== *)
theory Rate_Limit_Concurrent
  imports Rate_Limit
begin

text \<open>
  Any number of workers running \<open>check_redis\<close> of \<open>rust-gateway/src/rate_limit.rs\<close> against one Redis
  server, one command at a time: the system is a step relation, its invariant bounds the sorted
  set of an identity by \<open>limit + workers - 1\<close>, and the bound is reached.
\<close>

section \<open>The system of workers\<close>

record 'r rl_sys =
  rl_workers :: "nat \<rightharpoonup> rl_task \<times> rl_pc"
  rl_server :: 'r

fun finished :: "rl_pc \<Rightarrow> bool" where
  "finished (Done res) = True"
| "finished _ = False"

definition idle :: "(rl_task \<times> rl_pc) option \<Rightarrow> bool" where
  "idle w = (case w of None \<Rightarrow> True | Some (t, p) \<Rightarrow> finished p)"

text \<open>A worker that is not in a check starts one; a worker in a check runs its next command.\<close>

inductive rl_sys_step ::
  "'r redis_ops \<Rightarrow> (rl_task \<Rightarrow> bool) \<Rightarrow> nat \<Rightarrow> 'r rl_sys \<Rightarrow> 'r rl_sys \<Rightarrow> bool"
  for ops :: "'r redis_ops" and ok :: "rl_task \<Rightarrow> bool" and n :: nat where
  begin_check:
    "w < n \<Longrightarrow> idle (rl_workers s w) \<Longrightarrow> ok t \<Longrightarrow>
     rl_sys_step ops ok n s (s\<lparr>rl_workers := (rl_workers s)(w \<mapsto> (t, Purge))\<rparr>)"
| run_command:
    "rl_workers s w = Some (t, p) \<Longrightarrow> rl_step ops t (p, rl_server s) = (p', r') \<Longrightarrow>
     rl_sys_step ops ok n s \<lparr>rl_workers = (rl_workers s)(w \<mapsto> (t, p')), rl_server = r'\<rparr>"

text \<open>
  The requests of interest: a positive window that Redis accepts as an expiry,
  and one limit for all checks of the identity \<open>who\<close>; other identities are free.
\<close>

definition request_ok :: "string \<Rightarrow> u64 \<Rightarrow> rl_task \<Rightarrow> bool" where
  "request_ok who limit t \<longleftrightarrow>
     expiry_fits (as_i64 (t_window t)) \<and> (t_identity t = who \<longrightarrow> t_limit t = limit)"

definition adding :: "string \<Rightarrow> (nat \<rightharpoonup> rl_task \<times> rl_pc) \<Rightarrow> nat set" where
  "adding who ws = {w. \<exists>t. ws w = Some (t, Add) \<and> t_identity t = who}"

section \<open>The invariant\<close>

definition rl_init ::
  "'r redis_ops \<Rightarrow> ('r \<Rightarrow> string \<Rightarrow> string \<rightharpoonup> int) \<Rightarrow> nat \<Rightarrow> string \<Rightarrow> u64 \<Rightarrow> 'r rl_sys \<Rightarrow> bool" where
  "rl_init ops zs n who limit s \<longleftrightarrow>
     redis_contract ops zs \<and> unat limit < 2 ^ 63 \<and> 0 < n \<and>
     rl_workers s = Map.empty \<and> zs (rl_server s) (limit_key who) = Map.empty"

definition rl_inv ::
  "'r redis_ops \<Rightarrow> ('r \<Rightarrow> string \<Rightarrow> string \<rightharpoonup> int) \<Rightarrow> nat \<Rightarrow> string \<Rightarrow> u64 \<Rightarrow> 'r rl_sys \<Rightarrow> bool" where
  "rl_inv ops zs n who limit s \<longleftrightarrow>
     redis_contract ops zs \<and> unat limit < 2 ^ 63 \<and>
     dom (rl_workers s) \<subseteq> {..<n} \<and>
     (\<forall>w t p. rl_workers s w = Some (t, p) \<longrightarrow> request_ok who limit t) \<and>
     finite (dom (zs (rl_server s) (limit_key who))) \<and>
     card (dom (zs (rl_server s) (limit_key who))) + card (adding who (rl_workers s)) < unat limit + n"

lemma limit_key_inj [simp]: "limit_key i = limit_key j \<longleftrightarrow> i = j"
  by (simp add: limit_key_def)

lemma adding_upd:
  "adding who (ws(w \<mapsto> (t, p))) =
     (if p = Add \<and> t_identity t = who then insert w (adding who ws) else adding who ws - {w})"
  by (auto simp: adding_def)

lemma adding_subset: "adding who ws \<subseteq> dom ws"
  by (auto simp: adding_def)

lemma finite_adding: "dom ws \<subseteq> {..<n :: nat} \<Longrightarrow> finite (adding who ws)"
  by (meson adding_subset finite_lessThan finite_subset subset_trans)

lemma card_adding_le: "dom ws \<subseteq> {..<n} \<Longrightarrow> card (adding who ws) \<le> n"
  by (metis adding_subset card_lessThan card_mono finite_lessThan order.trans)

lemma purged_dom: "dom (purged hi z) \<subseteq> dom z"
  by (auto simp: purged_Some)

text \<open>
  What one command does to the sorted set of \<open>who\<close>: only a count that finds room leads to \<open>Add\<close>,
  and only \<open>Add\<close> enlarges the set, by at most one member.
\<close>

lemma rl_step_effect:
  assumes C: "redis_contract ops zs" and ok: "request_ok who limit t" and L: "unat limit < 2 ^ 63"
    and step: "rl_step ops t (p, r) = (p', r')"
    and fin: "finite (dom (zs r (limit_key who)))"
  shows "finite (dom (zs r' (limit_key who)))"
    and "t_identity t = who \<Longrightarrow> p' = Add \<Longrightarrow>
           p = Count \<and> r' = r \<and> card (dom (zs r (limit_key who))) < unat limit"
    and "card (dom (zs r' (limit_key who))) \<le>
           card (dom (zs r (limit_key who))) + (if p = Add \<and> t_identity t = who then 1 else 0)"
proof -
  let ?k = "limit_key (t_identity t)" and ?z = "\<lambda>r. zs r (limit_key who)"
  have lim: "int m < as_i64 limit \<longleftrightarrow> m < unat limit" for m
    unfolding as_i64_small [OF L] by (rule of_nat_less_iff)
  have "finite (dom (?z r')) \<and> card (dom (?z r')) \<le> card (dom (?z r)) + (if p = Add \<and> t_identity t = who then 1 else 0)
      \<and> (t_identity t = who \<and> p' = Add \<longrightarrow> p = Count \<and> r' = r \<and> card (dom (?z r)) < unat limit)"
  proof (cases p)
    case Purge
    let ?hi = "as_i64 (window_start (t_now t) (t_window t))"
    obtain r1 where r1: "zremrangebyscore ops ?k 0 ?hi r = (Inr (), r1)" "zs r1 = (zs r)(?k := purged ?hi (zs r ?k))"
      using redis_contractD(1) [OF C] by blast
    have "dom (?z r1) \<subseteq> dom (?z r)" using purged_dom by (auto simp: r1(2))
    then have "finite (dom (?z r1))" "card (dom (?z r1)) \<le> card (dom (?z r))"
      using fin by (auto intro: finite_subset card_mono)
    with r1(1) step Purge show ?thesis by auto
  next
    case Count
    with step redis_contractD(2) [OF C, of ?k r] fin ok lim show ?thesis
      by (auto simp: request_ok_def not_le split: if_splits)
  next
    case Add
    obtain r1 where r1: "zadd ops ?k (u64_as_f64 (t_now t)) (limit_member (t_now t) (t_uuid t)) r = (Inr (), r1)"
      "zs r1 = (zs r)(?k := (zs r ?k)(limit_member (t_now t) (t_uuid t) \<mapsto> u64_as_f64 (t_now t)))"
      using redis_contractD(3) [OF C] by blast
    have "dom (?z r1) = (if t_identity t = who then insert (limit_member (t_now t) (t_uuid t)) (dom (?z r)) else dom (?z r))"
      by (simp add: r1(2))
    with r1(1) step Add fin show ?thesis by (simp add: card_insert_if)
  next
    case Expire
    obtain r1 where "expire ops ?k (as_i64 (t_window t)) r = (Inr (), r1)" "zs r1 = zs r"
      using redis_contractD(4) [OF C, of "as_i64 (t_window t)"] ok by (auto simp: request_ok_def)
    with step Expire fin show ?thesis by auto
  next
    case (Done res)
    with step fin show ?thesis by auto
  qed
  then show "finite (dom (zs r' (limit_key who)))"
    and "t_identity t = who \<Longrightarrow> p' = Add \<Longrightarrow>
           p = Count \<and> r' = r \<and> card (dom (zs r (limit_key who))) < unat limit"
    and "card (dom (zs r' (limit_key who))) \<le>
           card (dom (zs r (limit_key who))) + (if p = Add \<and> t_identity t = who then 1 else 0)"
    by blast+
qed

lemma rl_command_keeps_bound:
  assumes inv: "rl_inv ops zs n who limit s"
    and w: "rl_workers s w = Some (t, p)" and step: "rl_step ops t (p, rl_server s) = (p', r')"
  shows "card (dom (zs r' (limit_key who))) + card (adding who ((rl_workers s)(w \<mapsto> (t, p')))) < unat limit + n"
proof -
  let ?ws = "rl_workers s" and ?c = "\<lambda>r. card (dom (zs r (limit_key who)))"
  have ok: "request_ok who limit t" and ws: "dom ?ws \<subseteq> {..<n}"
    and old: "?c (rl_server s) + card (adding who ?ws) < unat limit + n"
    using inv w by (auto simp: rl_inv_def)
  note eff = rl_step_effect [OF _ ok _ step, of zs] and fin = finite_adding [OF ws, of who]
  have "w < n" using ws w by auto
  show ?thesis
  proof (cases "p' = Add \<and> t_identity t = who")
    case True
    then have c: "p = Count" "?c r' < unat limit" using eff(2) inv by (auto simp: rl_inv_def)
    have "dom (?ws(w \<mapsto> (t, p'))) \<subseteq> {..<n}" using ws \<open>w < n\<close> by auto
    then have "card (adding who (?ws(w \<mapsto> (t, p')))) \<le> n" by (rule card_adding_le)
    with c(2) show ?thesis by linarith
  next
    case False
    then have a: "adding who (?ws(w \<mapsto> (t, p'))) = adding who ?ws - {w}" by (simp only: adding_upd if_False)
    have c: "?c r' \<le> ?c (rl_server s) + (if p = Add \<and> t_identity t = who then 1 else 0)"
      using eff(3) inv by (auto simp: rl_inv_def)
    show ?thesis
    proof (cases "p = Add \<and> t_identity t = who")
      case True
      then have "w \<in> adding who ?ws" using w by (simp add: adding_def)
      then have "card (adding who ?ws) = Suc (card (adding who ?ws - {w}))"
        using fin by (rule card.remove [rotated])
      with c old a True show ?thesis by simp
    next
      case no: False
      have "card (adding who ?ws - {w}) \<le> card (adding who ?ws)" using fin by (simp add: card_Diff1_le)
      with c old a no show ?thesis by simp
    qed
  qed
qed


lemma rl_inv_step:
  assumes "rl_sys_step ops (request_ok who limit) n s s'" "rl_inv ops zs n who limit s"
  shows "rl_inv ops zs n who limit s'"
  using assms(1)
proof cases
  case (begin_check w t)
  let ?ws = "rl_workers s"
  have fin: "finite (adding who ?ws)" using assms(2) by (auto simp: rl_inv_def intro: finite_adding)
  have "adding who (?ws(w \<mapsto> (t, Purge))) \<subseteq> adding who ?ws" by (auto simp: adding_upd)
  then have "card (adding who (?ws(w \<mapsto> (t, Purge)))) \<le> card (adding who ?ws)"
    by (rule card_mono [OF fin])
  with assms(2) begin_check show ?thesis by (auto simp: rl_inv_def)
next
  case (run_command w t p p' r')
  have ok: "request_ok who limit t" using assms(2) run_command(2) by (auto simp: rl_inv_def)
  have "finite (dom (zs r' (limit_key who)))"
    using rl_step_effect(1) [OF _ ok _ run_command(3)] assms(2) by (auto simp: rl_inv_def)
  moreover have "dom ((rl_workers s)(w \<mapsto> (t, p'))) \<subseteq> {..<n}"
    using assms(2) run_command(2) by (auto simp: rl_inv_def)
  ultimately show ?thesis
    using assms(2) ok rl_command_keeps_bound [OF assms(2) run_command(2,3)]
    by (simp add: rl_inv_def run_command(1))
qed

lemma rl_init_inv: "rl_init ops zs n who limit s \<Longrightarrow> rl_inv ops zs n who limit s"
  by (simp add: rl_init_def rl_inv_def adding_def)

interpretation rl_workers: invariant_system
    "rl_init ops zs n who limit" "rl_sys_step ops (request_ok who limit) n" "rl_inv ops zs n who limit"
  for ops :: "'r redis_ops" and zs n who limit
  by unfold_locales (rule rl_init_inv rl_inv_step; assumption)+

section \<open>The bound is reached\<close>

text \<open>
  Workers of the instance \<open>map_redis\<close> that check the identity \<open>i\<close> at the same time: the k-th uses
  the decimal of \<open>k\<close> as its identifier.
\<close>

definition same_time :: "string \<Rightarrow> u64 \<Rightarrow> nat \<Rightarrow> rl_task" where
  "same_time i limit k =
     \<lparr>t_identity = i, t_limit = limit, t_window = 60, t_now = 5000, t_uuid = show_nat k\<rparr>"

definition stored :: "string \<Rightarrow> nat \<Rightarrow> string \<Rightarrow> string \<rightharpoonup> int" where
  "stored i c = (\<lambda>_. Map.empty)(limit_key i :=
     (\<lambda>m. if m \<in> (\<lambda>k. limit_member 5000 (show_nat k)) ` {..<c} then Some 5000 else None))"

lemma stored_dom: "dom (stored i c (limit_key i)) = (\<lambda>k. limit_member 5000 (show_nat k)) ` {..<c}"
  by (auto simp: stored_def split: if_splits)

lemma card_stored: "card (dom (stored i c (limit_key i))) = c"
  unfolding stored_dom by (subst card_image) (auto simp: inj_on_def limit_member_inj show_nat_inj)

lemma stored_add:
  "(stored i c)(limit_key i := (stored i c (limit_key i))(limit_member 5000 (show_nat c) \<mapsto> 5000)) =
     stored i (Suc c)"
  by (auto simp: stored_def fun_eq_iff lessThan_Suc)

lemma same_time_window: "as_i64 (window_start 5000 60) = 0"
  by (simp add: as_i64_def window_start_def saturating_sub_def)

lemma stored_purge:
  "(stored i c)(limit_key i := (\<lambda>m. case stored i c (limit_key i) m of None \<Rightarrow> None
     | Some s \<Rightarrow> if 0 \<le> s \<and> s \<le> 0 then None else Some s)) = stored i c"
  by (auto simp: stored_def fun_eq_iff)

lemma same_time_steps:
  assumes "unat limit < 2 ^ 63"
  shows "rl_step map_redis (same_time i limit k) (Purge, stored i c) = (Count, stored i c)"
    and "c < unat limit \<Longrightarrow> rl_step map_redis (same_time i limit k) (Count, stored i c) = (Add, stored i c)"
    and "rl_step map_redis (same_time i limit c) (Add, stored i c) = (Expire, stored i (Suc c))"
    and "rl_step map_redis (same_time i limit k) (Expire, stored i c) = (Done (Inr True), stored i c)"
proof -
  have f: "u64_as_f64 5000 = 5000" by (simp add: u64_as_f64_def)
  have lim: "as_i64 limit \<le> int c \<longleftrightarrow> unat limit \<le> c"
    unfolding as_i64_small [OF assms] by (rule of_nat_le_iff)
  show "rl_step map_redis (same_time i limit k) (Purge, stored i c) = (Count, stored i c)"
    by (simp add: map_redis_def same_time_def same_time_window stored_purge)
  show "rl_step map_redis (same_time i limit k) (Count, stored i c) = (Add, stored i c)" if "c < unat limit"
    using that by (simp add: map_redis_def same_time_def card_stored lim)
  show "rl_step map_redis (same_time i limit c) (Add, stored i c) = (Expire, stored i (Suc c))"
    by (simp add: map_redis_def same_time_def f stored_add)
  show "rl_step map_redis (same_time i limit k) (Expire, stored i c) = (Done (Inr True), stored i c)"
    by (simp add: map_redis_def same_time_def)
qed


lemma same_time_ok: "request_ok i limit (same_time i limit k)"
  by (simp add: request_ok_def same_time_def as_i64_def expiry_fits_def)

text \<open>Steps of one worker; the others are where they were.\<close>

lemma command_step:
  assumes "ws w = Some (t, p)" "rl_step ops t (p, r) = (p', r')"
  shows "rl_sys_step ops ok n \<lparr>rl_workers = ws, rl_server = r\<rparr>
           \<lparr>rl_workers = ws(w \<mapsto> (t, p')), rl_server = r'\<rparr>"
  using run_command [of "\<lparr>rl_workers = ws, rl_server = r\<rparr>" w t p ops p' r' ok n] assms by simp

lemma reach_add:
  assumes "unat limit < 2 ^ 63" "c < unat limit" "w < n" "idle (ws w)"
  shows "(rl_sys_step map_redis (request_ok i limit) n)\<^sup>*\<^sup>*
           \<lparr>rl_workers = ws, rl_server = stored i c\<rparr>
           \<lparr>rl_workers = ws(w \<mapsto> (same_time i limit k, Add)), rl_server = stored i c\<rparr>"
proof -
  let ?step = "rl_sys_step map_redis (request_ok i limit) n" and ?t = "same_time i limit k"
  let ?s = "\<lambda>p. \<lparr>rl_workers = ws(w \<mapsto> (?t, p)), rl_server = stored i c\<rparr>"
  have "?step \<lparr>rl_workers = ws, rl_server = stored i c\<rparr> (?s Purge)"
    using begin_check [of w n "\<lparr>rl_workers = ws, rl_server = stored i c\<rparr>" "request_ok i limit" ?t]
      assms(3,4) same_time_ok by simp
  moreover have "?step (?s Purge) (?s Count)"
    using command_step [of "ws(w \<mapsto> (?t, Purge))" w, OF _ same_time_steps(1) [OF assms(1)]] by simp
  moreover have "?step (?s Count) (?s Add)"
    using command_step [of "ws(w \<mapsto> (?t, Count))" w, OF _ same_time_steps(2) [OF assms(1,2)]] by simp
  ultimately show ?thesis by (meson r_into_rtranclp rtranclp_trans)
qed

lemma reach_stored:
  assumes "unat limit < 2 ^ 63" "ws w = Some (same_time i limit c, Add)"
  shows "(rl_sys_step map_redis (request_ok i limit) n)\<^sup>*\<^sup>*
           \<lparr>rl_workers = ws, rl_server = stored i c\<rparr>
           \<lparr>rl_workers = ws(w \<mapsto> (same_time i limit c, Done (Inr True))), rl_server = stored i (Suc c)\<rparr>"
proof -
  let ?step = "rl_sys_step map_redis (request_ok i limit) n" and ?t = "same_time i limit c"
  let ?s = "\<lambda>p. \<lparr>rl_workers = ws(w \<mapsto> (?t, p)), rl_server = stored i (Suc c)\<rparr>"
  have "?step \<lparr>rl_workers = ws, rl_server = stored i c\<rparr> (?s Expire)"
    by (rule command_step) (rule assms(2), rule same_time_steps(3) [OF assms(1)])
  moreover have "?step (?s Expire) (?s (Done (Inr True)))"
    using command_step [of "ws(w \<mapsto> (?t, Expire))" w, OF _ same_time_steps(4) [OF assms(1)]] by simp
  ultimately show ?thesis by (meson r_into_rtranclp rtranclp_trans)
qed

lemma fill_below_limit:
  assumes "unat limit < 2 ^ 63" "0 < n" "c < unat limit"
  shows "\<exists>ws. (\<forall>w. idle (ws w)) \<and> (rl_sys_step map_redis (request_ok i limit) n)\<^sup>*\<^sup>*
           \<lparr>rl_workers = Map.empty, rl_server = stored i 0\<rparr> \<lparr>rl_workers = ws, rl_server = stored i c\<rparr>"
  using assms(3)
proof (induction c)
  case 0
  show ?case by (intro exI [of _ Map.empty]) (simp add: idle_def)
next
  case (Suc c)
  then obtain ws where ws: "\<forall>w. idle (ws w)" "(rl_sys_step map_redis (request_ok i limit) n)\<^sup>*\<^sup>*
      \<lparr>rl_workers = Map.empty, rl_server = stored i 0\<rparr> \<lparr>rl_workers = ws, rl_server = stored i c\<rparr>"
    by auto
  let ?t = "same_time i limit c"
  note ws(2)
  also have "(rl_sys_step map_redis (request_ok i limit) n)\<^sup>*\<^sup>* \<lparr>rl_workers = ws, rl_server = stored i c\<rparr>
      \<lparr>rl_workers = ws(0 \<mapsto> (?t, Add)), rl_server = stored i c\<rparr>"
    using reach_add assms(1,2) Suc.prems ws(1) by simp
  also have "(rl_sys_step map_redis (request_ok i limit) n)\<^sup>*\<^sup>*
      \<lparr>rl_workers = ws(0 \<mapsto> (?t, Add)), rl_server = stored i c\<rparr>
      \<lparr>rl_workers = ws(0 \<mapsto> (?t, Done (Inr True))), rl_server = stored i (Suc c)\<rparr>"
    using reach_stored [of limit "ws(0 \<mapsto> (?t, Add))" 0 i c n] assms(1) by simp
  finally have "(rl_sys_step map_redis (request_ok i limit) n)\<^sup>*\<^sup>*
      \<lparr>rl_workers = Map.empty, rl_server = stored i 0\<rparr>
      \<lparr>rl_workers = ws(0 \<mapsto> (?t, Done (Inr True))), rl_server = stored i (Suc c)\<rparr>" .
  moreover have "\<forall>w. idle ((ws(0 \<mapsto> (?t, Done (Inr True)))) w)" using ws(1) by (simp add: idle_def)
  ultimately show ?case by blast
qed

lemma all_count_together:
  assumes "unat limit < 2 ^ 63" "c < unat limit" "\<forall>w. idle (ws w)" "m \<le> n"
  shows "\<exists>ws'. (\<forall>w<m. ws' w = Some (same_time i limit (c + w), Add)) \<and> (\<forall>w\<ge>m. idle (ws' w)) \<and>
           (rl_sys_step map_redis (request_ok i limit) n)\<^sup>*\<^sup>*
             \<lparr>rl_workers = ws, rl_server = stored i c\<rparr> \<lparr>rl_workers = ws', rl_server = stored i c\<rparr>"
  using assms(4)
proof (induction m)
  case 0
  show ?case using assms(3) by (intro exI [of _ ws]) simp
next
  case (Suc m)
  then obtain ws' where ws': "\<forall>w<m. ws' w = Some (same_time i limit (c + w), Add)" "\<forall>w\<ge>m. idle (ws' w)"
    and reach: "(rl_sys_step map_redis (request_ok i limit) n)\<^sup>*\<^sup>*
      \<lparr>rl_workers = ws, rl_server = stored i c\<rparr> \<lparr>rl_workers = ws', rl_server = stored i c\<rparr>"
    by auto
  have "(rl_sys_step map_redis (request_ok i limit) n)\<^sup>*\<^sup>* \<lparr>rl_workers = ws', rl_server = stored i c\<rparr>
      \<lparr>rl_workers = ws'(m \<mapsto> (same_time i limit (c + m), Add)), rl_server = stored i c\<rparr>"
    using reach_add assms(1,2) Suc.prems ws'(2) by simp
  with reach have "(rl_sys_step map_redis (request_ok i limit) n)\<^sup>*\<^sup>* \<lparr>rl_workers = ws, rl_server = stored i c\<rparr>
      \<lparr>rl_workers = ws'(m \<mapsto> (same_time i limit (c + m), Add)), rl_server = stored i c\<rparr>"
    by (rule rtranclp_trans)
  moreover have "\<forall>w<Suc m. (ws'(m \<mapsto> (same_time i limit (c + m), Add))) w = Some (same_time i limit (c + w), Add)"
    "\<forall>w\<ge>Suc m. idle ((ws'(m \<mapsto> (same_time i limit (c + m), Add))) w)"
    using ws' by auto
  ultimately show ?case by blast
qed

lemma all_add_afterwards:
  assumes "unat limit < 2 ^ 63" "\<forall>w<n. ws w = Some (same_time i limit (c + w), Add)" "m \<le> n"
  shows "\<exists>ws'. (\<forall>w<n. m \<le> w \<longrightarrow> ws' w = Some (same_time i limit (c + w), Add)) \<and>
           (rl_sys_step map_redis (request_ok i limit) n)\<^sup>*\<^sup>*
             \<lparr>rl_workers = ws, rl_server = stored i c\<rparr> \<lparr>rl_workers = ws', rl_server = stored i (c + m)\<rparr>"
  using assms(3)
proof (induction m)
  case 0
  show ?case using assms(2) by (intro exI [of _ ws]) simp
next
  case (Suc m)
  then obtain ws' where ws': "\<forall>w<n. m \<le> w \<longrightarrow> ws' w = Some (same_time i limit (c + w), Add)"
    and reach: "(rl_sys_step map_redis (request_ok i limit) n)\<^sup>*\<^sup>*
      \<lparr>rl_workers = ws, rl_server = stored i c\<rparr> \<lparr>rl_workers = ws', rl_server = stored i (c + m)\<rparr>"
    by auto
  let ?ws = "ws'(m \<mapsto> (same_time i limit (c + m), Done (Inr True)))"
  have "(rl_sys_step map_redis (request_ok i limit) n)\<^sup>*\<^sup>* \<lparr>rl_workers = ws', rl_server = stored i (c + m)\<rparr>
      \<lparr>rl_workers = ?ws, rl_server = stored i (c + Suc m)\<rparr>"
    using reach_stored [of limit ws' m i "c + m" n] assms(1) ws' Suc.prems by simp
  with reach have "(rl_sys_step map_redis (request_ok i limit) n)\<^sup>*\<^sup>* \<lparr>rl_workers = ws, rl_server = stored i c\<rparr>
      \<lparr>rl_workers = ?ws, rl_server = stored i (c + Suc m)\<rparr>"
    by (rule rtranclp_trans)
  moreover have "\<forall>w<n. Suc m \<le> w \<longrightarrow> ?ws w = Some (same_time i limit (c + w), Add)" using ws' by auto
  ultimately show ?case by blast
qed

section \<open>Properties\<close>

text \<open>
  Claim C13. The limit under concurrency: however the commands of \<open>n\<close> workers interleave, each
  running one check after another for any identities, the sorted set of an identity never holds
  more than \<open>limit + n - 1\<close> members; with one worker this is the limit itself.
\<close>

theorem concurrent_window_bound:
  assumes "redis_contract ops zs" "unat limit < 2 ^ 63" "0 < n"
    and "zs r (limit_key who) = Map.empty"
    and "(rl_sys_step ops (request_ok who limit) n)\<^sup>*\<^sup>* \<lparr>rl_workers = Map.empty, rl_server = r\<rparr> s"
  shows "card (dom (zs (rl_server s) (limit_key who))) \<le> unat limit + (n - 1)"
proof -
  have "rl_init ops zs n who limit \<lparr>rl_workers = Map.empty, rl_server = r\<rparr>"
    using assms(1-4) by (simp add: rl_init_def)
  from rl_workers.reach_inv [OF this assms(5)] show ?thesis by (auto simp: rl_inv_def)
qed

text \<open>
  Claim C14. The excess is real: for every positive limit and number of workers the bound
  \<open>limit + n - 1\<close> is reached by a run of the instance in which the identity's window starts empty.
\<close>

theorem concurrent_window_bound_reached:
  assumes "0 < unat limit" "unat limit < 2 ^ 63" "0 < n"
  shows "\<exists>s. (rl_sys_step map_redis (request_ok i limit) n)\<^sup>*\<^sup>*
               \<lparr>rl_workers = Map.empty, rl_server = \<lambda>_. Map.empty\<rparr> s \<and>
             card (dom (rl_server s (limit_key i))) = unat limit + (n - 1)"
proof -
  let ?c = "unat limit - 1" and ?step = "rl_sys_step map_redis (request_ok i limit) n"
  have c: "?c < unat limit" using assms(1) by simp
  obtain ws where ws: "\<forall>w. idle (ws w)"
    and r1: "?step\<^sup>*\<^sup>* \<lparr>rl_workers = Map.empty, rl_server = stored i 0\<rparr> \<lparr>rl_workers = ws, rl_server = stored i ?c\<rparr>"
    using fill_below_limit [OF assms(2,3) c] by blast
  obtain ws1 where ws1: "\<forall>w<n. ws1 w = Some (same_time i limit (?c + w), Add)"
    and r2: "?step\<^sup>*\<^sup>* \<lparr>rl_workers = ws, rl_server = stored i ?c\<rparr> \<lparr>rl_workers = ws1, rl_server = stored i ?c\<rparr>"
    using all_count_together [OF assms(2) c ws order.refl] by blast
  obtain ws2 where
    r3: "?step\<^sup>*\<^sup>* \<lparr>rl_workers = ws1, rl_server = stored i ?c\<rparr> \<lparr>rl_workers = ws2, rl_server = stored i (?c + n)\<rparr>"
    using all_add_afterwards [OF assms(2) ws1 order.refl] by blast
  have "stored i 0 = (\<lambda>_. Map.empty)" by (simp add: stored_def fun_eq_iff)
  with rtranclp_trans [OF rtranclp_trans [OF r1 r2] r3]
  have "?step\<^sup>*\<^sup>* \<lparr>rl_workers = Map.empty, rl_server = \<lambda>_. Map.empty\<rparr>
      \<lparr>rl_workers = ws2, rl_server = stored i (?c + n)\<rparr>"
    by (simp only:)
  moreover have "?c + n = unat limit + (n - 1)" using assms(1,3) by simp
  ultimately show ?thesis
    by (intro exI [of _ "\<lparr>rl_workers = ws2, rl_server = stored i (?c + n)\<rparr>"]) (simp add: card_stored)
qed

theorem concurrent_window_bound_reached_witness:
  "\<exists>s. (rl_sys_step map_redis (request_ok ''alice'' 10) 5)\<^sup>*\<^sup>*
         \<lparr>rl_workers = Map.empty, rl_server = \<lambda>_. Map.empty\<rparr> s \<and>
       card (dom (rl_server s (limit_key ''alice''))) = 14"
  using concurrent_window_bound_reached [of 10 5 "''alice''"] by simp

theorem concurrent_window_bound_witness:
  "\<exists>s. (rl_sys_step map_redis (request_ok ''alice'' 1) 2)\<^sup>*\<^sup>*
         \<lparr>rl_workers = Map.empty, rl_server = \<lambda>_. Map.empty\<rparr> s \<and>
       rl_workers s 1 = Some (same_time ''alice'' 1 7, Add) \<and>
       card (dom (rl_server s (limit_key ''alice''))) \<le> 2"
proof -
  let ?s = "\<lparr>rl_workers = [1 \<mapsto> (same_time ''alice'' 1 7, Add)], rl_server = stored ''alice'' 0\<rparr>"
  have r: "(rl_sys_step map_redis (request_ok ''alice'' 1) 2)\<^sup>*\<^sup>*
      \<lparr>rl_workers = Map.empty, rl_server = stored ''alice'' 0\<rparr> ?s"
    using reach_add [of 1 0 1 2 Map.empty "''alice''" 7] by (simp add: idle_def)
  moreover have e: "stored ''alice'' 0 = (\<lambda>_. Map.empty)" by (simp add: stored_def fun_eq_iff)
  ultimately have "card (dom (rl_server ?s (limit_key ''alice''))) \<le> unat (1 :: u64) + (2 - 1)"
    by (intro concurrent_window_bound [OF map_redis_contract]) simp_all
  with r show ?thesis unfolding e by (intro exI [of _ "\<lparr>rl_workers = [1 \<mapsto> (same_time ''alice'' 1 7, Add)], rl_server = \<lambda>_. Map.empty\<rparr>"]) simp
qed

end
