(* ===== verification/Policy_Concurrent.thy ===== *)
theory Policy_Concurrent
  imports Policy
begin

text \<open>
  Evaluation beside the refresh task of \<open>gateway/src/policy.rs\<close>: the policy list is an \<open>ArcSwap\<close>, the
  health flag an atomic, and \<open>evaluate\<close> loads the list once and then walks it while the refresh task
  may store another one. Each load and store is a step. Every decision is the decision of an
  evaluation made in one piece at some moment between its call and its return.
\<close>

section \<open>Steps of an evaluation and of the refresh task\<close>

datatype eval_pc =
    Loading
  | Scanning "policy list" "policy list"
  | Decided evaluation_result

text \<open>\<open>Scanning ps rest\<close>: the list that was loaded, and the part of it the loop has still to visit.\<close>

fun eval_step :: "policy list \<Rightarrow> access_request \<Rightarrow> eval_pc \<Rightarrow> eval_pc" where
  "eval_step current q Loading =
     (if current = [] then
        Decided \<lparr>allowed = False, policy_id = None, reason = ''No policies configured - fail closed''\<rparr>
      else Scanning current current)"
| "eval_step current q (Scanning ps (p # rest)) =
     (if policy_grants p q then
        Decided \<lparr>allowed = True, policy_id = Some (policy_ident p), reason = ''Access granted by policy''\<rparr>
      else Scanning ps rest)"
| "eval_step current q (Scanning ps []) =
     Decided \<lparr>allowed = False, policy_id = None, reason = ''No matching policy found''\<rparr>"
| "eval_step current q (Decided r) = Decided r"

text \<open>The stores of one turn of the refresh loop, in order.\<close>

datatype engine_write = Store_policies "policy list" | Store_healthy bool

fun refresh_writes :: "fetch \<Rightarrow> engine_write list" where
  "refresh_writes (Response st body) =
     (if is_success st then
        (case body of Inr fetched \<Rightarrow> [Store_policies fetched, Store_healthy True] | Inl e \<Rightarrow> [])
      else [])"
| "refresh_writes (SendError e) = [Store_healthy False]"

fun apply_write :: "engine_write \<Rightarrow> policy_engine \<Rightarrow> policy_engine" where
  "apply_write (Store_policies ps) engine = engine\<lparr>policies := ps\<rparr>"
| "apply_write (Store_healthy b) engine = engine\<lparr>engine_healthy := b\<rparr>"

text \<open>
  The system: the engine, the stores the refresh task has still to make in this turn, and the
  evaluations in progress. \<open>ev_seen\<close> records the lists that were current since the call.
\<close>

record evaluation =
  ev_request :: access_request
  ev_pc :: eval_pc
  ev_seen :: "policy list set"

record policy_sys =
  ps_engine :: policy_engine
  ps_pending :: "engine_write list"
  ps_evals :: "nat \<rightharpoonup> evaluation"

definition saw :: "policy list \<Rightarrow> evaluation \<Rightarrow> evaluation" where
  "saw ps e = e\<lparr>ev_seen := insert ps (ev_seen e)\<rparr>"

inductive policy_sys_step :: "policy_sys \<Rightarrow> policy_sys \<Rightarrow> bool" where
  fetched: "ps_pending s = [] \<Longrightarrow> policy_sys_step s (s\<lparr>ps_pending := refresh_writes f\<rparr>)"
| stored: "ps_pending s = w # ws \<Longrightarrow> e' = apply_write w (ps_engine s) \<Longrightarrow>
    policy_sys_step s
      \<lparr>ps_engine = e', ps_pending = ws, ps_evals = map_option (saw (policies e')) \<circ> ps_evals s\<rparr>"
| called: "ps_evals s w = None \<Longrightarrow>
    policy_sys_step s (s\<lparr>ps_evals := (ps_evals s)(w \<mapsto>
      \<lparr>ev_request = q, ev_pc = Loading, ev_seen = {policies (ps_engine s)}\<rparr>)\<rparr>)"
| advanced: "ps_evals s w = Some e \<Longrightarrow>
    policy_sys_step s (s\<lparr>ps_evals := (ps_evals s)(w \<mapsto>
      e\<lparr>ev_pc := eval_step (policies (ps_engine s)) (ev_request e) (ev_pc e)\<rparr>)\<rparr>)"

section \<open>One evaluation, one refresh turn\<close>

lemma refresh_writes_step: "fold apply_write (refresh_writes f) engine = refresh_step f engine"
  by (cases f) (auto split: sum.split)

text \<open>The decision of an evaluation made in one piece on the list \<open>ps\<close>.\<close>

definition decide_on :: "policy list \<Rightarrow> access_request \<Rightarrow> evaluation_result" where
  "decide_on ps q =
     (case q of (u, rs, provider, model) \<Rightarrow>
        evaluate \<lparr>policies = ps, policies_url = '''', engine_healthy = True\<rparr> u rs provider model)"

lemma decide_on_eq:
  "decide_on ps q =
     (if ps = [] then \<lparr>allowed = False, policy_id = None, reason = ''No policies configured - fail closed''\<rparr>
      else (case evaluate_loop ps q of
              Some p \<Rightarrow> \<lparr>allowed = True, policy_id = Some (policy_ident p), reason = ''Access granted by policy''\<rparr>
            | None \<Rightarrow> \<lparr>allowed = False, policy_id = None, reason = ''No matching policy found''\<rparr>))"
  by (cases q) (simp add: decide_on_def evaluate_def)

text \<open>
  What is true of an evaluation at each point: the list it walks was current since its call, the
  policies already visited do not grant, and a decision is that of one of the lists seen.
\<close>

fun pc_ok :: "access_request \<Rightarrow> policy list set \<Rightarrow> eval_pc \<Rightarrow> bool" where
  "pc_ok q seen Loading \<longleftrightarrow> True"
| "pc_ok q seen (Scanning ps rest) \<longleftrightarrow>
     ps \<in> seen \<and> ps \<noteq> [] \<and> evaluate_loop ps q = evaluate_loop rest q"
| "pc_ok q seen (Decided r) \<longleftrightarrow> (\<exists>ps\<in>seen. r = decide_on ps q)"

lemma pc_ok_step:
  assumes "current \<in> seen" "pc_ok q seen p"
  shows "pc_ok q seen (eval_step current q p)"
proof (cases p)
  case Loading
  then show ?thesis using assms(1) by (auto simp: decide_on_eq intro!: bexI [of _ current])
next
  case (Scanning ps rest)
  then have ps: "ps \<in> seen" "ps \<noteq> []" and lp: "evaluate_loop ps q = evaluate_loop rest q"
    using assms(2) by simp_all
  show ?thesis
  proof (cases "\<exists>p' rest'. rest = p' # rest' \<and> \<not> policy_grants p' q")
    case True
    then show ?thesis using ps lp by (auto simp: Scanning)
  next
    case False
    then have "eval_step current q p = Decided (decide_on ps q)"
      by (cases rest) (auto simp: Scanning decide_on_eq ps(2) lp)
    then show ?thesis using ps(1) by auto
  qed
next
  case (Decided r)
  then show ?thesis using assms(2) by simp
qed

lemma pc_ok_insert: "pc_ok q seen p \<Longrightarrow> pc_ok q (insert ps seen) p"
  by (cases p) auto

definition policy_sys_inv :: "policy_sys \<Rightarrow> bool" where
  "policy_sys_inv s \<longleftrightarrow>
     (\<forall>w e. ps_evals s w = Some e \<longrightarrow>
        policies (ps_engine s) \<in> ev_seen e \<and> pc_ok (ev_request e) (ev_seen e) (ev_pc e))"

lemma policy_sys_inv_step [step_inv_intros]:
  "policy_sys_step s t \<Longrightarrow> policy_sys_inv s \<Longrightarrow> policy_sys_inv t"
proof (induction rule: policy_sys_step.induct)
  case (stored s w ws e')
  then show ?case
    by (auto simp: policy_sys_inv_def saw_def pc_ok_insert)
next
  case (advanced s w e)
  then show ?case by (auto simp: policy_sys_inv_def pc_ok_step)
qed (auto simp: policy_sys_inv_def)

interpretation policy_system: invariant_system "\<lambda>s. ps_evals s = Map.empty" policy_sys_step policy_sys_inv
  by unfold_locales (simp add: policy_sys_inv_def, rule policy_sys_inv_step)

section \<open>Properties\<close>

text \<open>
  Claim C16. Evaluation is linearizable: whatever the refresh task stores meanwhile and however many
  evaluations run, a decision is that of \<open>evaluate\<close> on one list that was current at some moment
  between the call and the return; it never mixes two lists.
\<close>

theorem evaluation_linearizable:
  assumes "policy_sys_step\<^sup>*\<^sup>* \<lparr>ps_engine = engine, ps_pending = [], ps_evals = Map.empty\<rparr> s"
    and "ps_evals s w = Some e" "ev_pc e = Decided r" "ev_request e = (u, rs, provider, model)"
  shows "\<exists>ps\<in>ev_seen e. r =
     evaluate \<lparr>policies = ps, policies_url = '''', engine_healthy = True\<rparr> u rs provider model"
proof -
  have "policy_sys_inv s" by (rule policy_system.reach_inv [OF _ assms(1)]) simp
  with assms(2-4) show ?thesis by (fastforce simp: policy_sys_inv_def decide_on_def)
qed

text \<open>
  An evaluation that is not disturbed is \<open>evaluate\<close>: it loads, visits at most every policy once, and
  decides.
\<close>

lemma eval_steps_scan:
  assumes "ps \<noteq> []" "evaluate_loop ps q = evaluate_loop rest q"
  shows "(eval_step current q ^^ Suc (length rest)) (Scanning ps rest) = Decided (decide_on ps q)"
  using assms(2)
proof (induction rest)
  case Nil
  then show ?case using assms(1) by (simp add: decide_on_eq)
next
  case (Cons p rest)
  show ?case
  proof (cases "policy_grants p q")
    case True
    have stay: "(eval_step current q ^^ n) (Decided r) = Decided r" for n r
      by (induction n) simp_all
    have "eval_step current q (Scanning ps (p # rest)) = Decided (decide_on ps q)"
      using True Cons.prems assms(1) by (simp add: decide_on_eq)
    then show ?thesis by (simp only: funpow_Suc_right o_apply stay)
  next
    case False
    then have one: "eval_step current q (Scanning ps (p # rest)) = Scanning ps rest"
      and IH: "(eval_step current q ^^ Suc (length rest)) (Scanning ps rest) = Decided (decide_on ps q)"
      using Cons by simp_all
    have "(eval_step current q ^^ Suc (length (p # rest))) (Scanning ps (p # rest)) =
        (eval_step current q ^^ Suc (length rest)) (eval_step current q (Scanning ps (p # rest)))"
      by (simp only: length_Cons funpow_Suc_right o_apply)
    then show ?thesis unfolding one IH .
  qed
qed

theorem undisturbed_evaluation:
  "\<exists>n\<le>length (policies engine) + 2.
     (eval_step (policies engine) (u, rs, provider, model) ^^ n) Loading =
       Decided (evaluate engine u rs provider model)"
proof (cases "policies engine = []")
  case True
  then show ?thesis by (intro exI [of _ 1]) (simp add: evaluate_def)
next
  case False
  let ?q = "(u, rs, provider, model)" and ?ps = "policies engine"
  have "(eval_step ?ps ?q ^^ Suc (length ?ps)) (eval_step ?ps ?q Loading) = Decided (decide_on ?ps ?q)"
    using eval_steps_scan [OF False refl, of ?ps ?q] False by (simp only: eval_step.simps if_False)
  then have "(eval_step ?ps ?q ^^ Suc (Suc (length ?ps))) Loading = Decided (decide_on ?ps ?q)"
    by (simp only: funpow_Suc_right o_apply)
  moreover have "decide_on ?ps ?q = evaluate engine u rs provider model"
    by (simp add: decide_on_def evaluate_def)
  ultimately show ?thesis by (intro exI [of _ "Suc (Suc (length ?ps))"]) simp
qed

text \<open>An evaluation that loaded the old list while a new, empty one is stored: it is still granted.\<close>

theorem evaluation_linearizable_witness:
  "\<exists>s e. policy_sys_step\<^sup>*\<^sup>*
       \<lparr>ps_engine = \<lparr>policies = [test_policy], policies_url = '''', engine_healthy = True\<rparr>,
        ps_pending = [], ps_evals = Map.empty\<rparr> s \<and>
     policies (ps_engine s) = [] \<and> ps_evals s 0 = Some e \<and>
     ev_pc e = Decided \<lparr>allowed = True, policy_id = Some ''test-1'', reason = ''Access granted by policy''\<rparr> \<and>
     (\<exists>ps\<in>ev_seen e. \<lparr>allowed = True, policy_id = Some ''test-1'', reason = ''Access granted by policy''\<rparr> =
        evaluate \<lparr>policies = ps, policies_url = '''', engine_healthy = True\<rparr>
          ''user-1'' [''engineering''] ''openai'' ''gpt-4'')"
proof -
  let ?q = "(''user-1'', [''engineering''], ''openai'', ''gpt-4'') :: access_request"
  let ?r = "\<lparr>allowed = True, policy_id = Some ''test-1'', reason = ''Access granted by policy''\<rparr>"
  let ?eng = "\<lambda>ps. \<lparr>policies = ps, policies_url = '''', engine_healthy = True\<rparr>"
  let ?ev = "\<lambda>p seen. [0 \<mapsto> \<lparr>ev_request = ?q, ev_pc = p, ev_seen = seen\<rparr>]"
  let ?w = "[Store_policies [], Store_healthy True]"
  let ?s = "\<lambda>ps ws ev. \<lparr>ps_engine = ?eng ps, ps_pending = ws, ps_evals = ev\<rparr>"
  have g: "policy_grants test_policy ?q" "policy_ident test_policy = ''test-1''"
    by (simp_all add: test_policy_def matches_subject_def policy_grants.simps)
  have "policy_sys_step (?s [test_policy] [] Map.empty) (?s [test_policy] [] (?ev Loading {[test_policy]}))"
    using called [of "?s [test_policy] [] Map.empty" 0 ?q] by simp
  moreover have "policy_sys_step (?s [test_policy] [] (?ev Loading {[test_policy]}))
      (?s [test_policy] [] (?ev (Scanning [test_policy] [test_policy]) {[test_policy]}))"
    using advanced [of "?s [test_policy] [] (?ev Loading {[test_policy]})" 0] by simp
  moreover have "policy_sys_step (?s [test_policy] [] (?ev (Scanning [test_policy] [test_policy]) {[test_policy]}))
      (?s [test_policy] ?w (?ev (Scanning [test_policy] [test_policy]) {[test_policy]}))"
    using fetched [of "?s [test_policy] [] (?ev (Scanning [test_policy] [test_policy]) {[test_policy]})" "Response 200 (Inr [])"]
    by (simp add: is_success_def)
  moreover have "policy_sys_step (?s [test_policy] ?w (?ev (Scanning [test_policy] [test_policy]) {[test_policy]}))
      (?s [] [Store_healthy True] (?ev (Scanning [test_policy] [test_policy]) {[], [test_policy]}))"
    using stored [of "?s [test_policy] ?w (?ev (Scanning [test_policy] [test_policy]) {[test_policy]})", OF _ refl]
    by (simp add: saw_def comp_def fun_upd_def if_distrib cong: if_cong)
  moreover have "policy_sys_step (?s [] [Store_healthy True] (?ev (Scanning [test_policy] [test_policy]) {[], [test_policy]}))
      (?s [] [Store_healthy True] (?ev (Decided ?r) {[], [test_policy]}))"
    using advanced [of "?s [] [Store_healthy True] (?ev (Scanning [test_policy] [test_policy]) {[], [test_policy]})" 0] g
    by simp
  ultimately have reach: "policy_sys_step\<^sup>*\<^sup>* (?s [test_policy] [] Map.empty)
      (?s [] [Store_healthy True] (?ev (Decided ?r) {[], [test_policy]}))"
    by (meson converse_rtranclp_into_rtranclp rtranclp.rtrancl_refl)
  have "\<exists>ps\<in>{[], [test_policy]}. ?r = evaluate (?eng ps) ''user-1'' [''engineering''] ''openai'' ''gpt-4''"
    using evaluation_linearizable [OF reach, of 0
        "\<lparr>ev_request = ?q, ev_pc = Decided ?r, ev_seen = {[], [test_policy]}\<rparr>" ?r] by simp
  with reach show ?thesis by (intro exI conjI) (assumption | simp)+
qed

end
