(* ===== verification/Error_Json.thy ===== *)
theory Error_Json
  imports Server Gw_Server
begin

text \<open>
  The JSON bodies both gateways write by string formatting (\<open>proxy_error_response\<close> of
  \<open>rust-gateway/src/server.rs\<close>, the failure answers of \<open>gateway/src/router.rs\<close> and
  \<open>gateway/src/proxy.rs\<close>), seen by a client: \<open>json_object\<close> reads an object whose members are strings,
  with the grammar of RFC 8259 less white space and the escapes by code point, which the gateways
  never write. The bodies are read back as the fields they were made of, unless a field contains a
  quote, a backslash or a control character, which are not escaped.
\<close>

section \<open>A reader for flat objects\<close>

abbreviation quote :: char where
  "quote \<equiv> CHR 0x22"

fun unescape :: "char \<Rightarrow> char option" where
  "unescape c =
     (if c = quote \<or> c = CHR 0x5C \<or> c = CHR ''/'' then Some c
      else if c = CHR ''n'' then Some (CHR 0x0A)
      else if c = CHR ''r'' then Some (CHR 0x0D)
      else if c = CHR ''t'' then Some (CHR 0x09)
      else if c = CHR ''b'' then Some (CHR 0x08)
      else if c = CHR ''f'' then Some (CHR 0x0C)
      else None)"

text \<open>The rest of a string after its opening quote, and what follows it.\<close>

fun json_chars :: "string \<Rightarrow> (string \<times> string) option" where
  "json_chars [] = None"
| "json_chars (c # cs) =
     (if c = quote then Some ([], cs)
      else if c = CHR 0x5C then
        (case cs of
           [] \<Rightarrow> None
         | d # ds \<Rightarrow>
             (case unescape d of
                None \<Rightarrow> None
              | Some x \<Rightarrow> (case json_chars ds of None \<Rightarrow> None | Some (v, r) \<Rightarrow> Some (x # v, r))))
      else if (of_char c :: nat) < 32 then None
      else (case json_chars cs of None \<Rightarrow> None | Some (v, r) \<Rightarrow> Some (c # v, r)))"

fun json_pair :: "string \<Rightarrow> ((string \<times> string) \<times> string) option" where
  "json_pair [] = None"
| "json_pair (q # s) =
     (if q \<noteq> quote then None
      else
        (case json_chars s of
           Some (k, c # q' # r) \<Rightarrow>
             if c = CHR '':'' \<and> q' = quote then
               (case json_chars r of None \<Rightarrow> None | Some (v, r') \<Rightarrow> Some ((k, v), r'))
             else None
         | _ \<Rightarrow> None))"

lemma json_chars_shorter: "json_chars s = Some (v, r) \<Longrightarrow> length r < length s"
  by (induction s arbitrary: v r rule: json_chars.induct)
    (fastforce split: if_splits option.splits list.splits)+

lemma json_pair_shorter: "json_pair s = Some (kv, r) \<Longrightarrow> length r < length s"
  by (cases s) (auto split: if_splits option.splits list.splits dest!: json_chars_shorter)

function json_members :: "string \<Rightarrow> (string \<times> string) list option" where
  "json_members s =
     (case json_pair s of
        Some (kv, c # r) \<Rightarrow>
          if c = CHR ''}'' then (if r = [] then Some [kv] else None)
          else if c = CHR '','' then
            (case json_members r of None \<Rightarrow> None | Some kvs \<Rightarrow> Some (kv # kvs))
          else None
      | _ \<Rightarrow> None)"
  by pat_completeness auto
termination
  by (relation "measure length") (auto dest!: json_pair_shorter)

declare json_members.simps [simp del]

fun json_object :: "string \<Rightarrow> (string \<times> string) list option" where
  "json_object [] = None"
| "json_object (c # s) = (if c = CHR ''{'' then json_members s else None)"

section \<open>Reading what was formatted\<close>

definition plain_char :: "char \<Rightarrow> bool" where
  "plain_char c \<longleftrightarrow> c \<noteq> quote \<and> c \<noteq> CHR 0x5C \<and> 32 \<le> (of_char c :: nat)"

definition plain :: "string \<Rightarrow> bool" where
  "plain s \<longleftrightarrow> list_all plain_char s"

lemma plain_append [simp]: "plain (s @ t) \<longleftrightarrow> plain s \<and> plain t"
  by (simp add: plain_def)

lemma json_chars_plain: "plain s \<Longrightarrow> json_chars (s @ quote # r) = Some (s, r)"
  by (induction s) (auto simp: plain_def plain_char_def)

definition member_text :: "string \<Rightarrow> string \<Rightarrow> string" where
  "member_text k v = quote # k @ quote # CHR '':'' # quote # v @ [quote]"

lemma json_pair_plain:
  "plain k \<Longrightarrow> plain v \<Longrightarrow> json_pair (member_text k v @ r) = Some ((k, v), r)"
  by (simp add: member_text_def json_chars_plain)

lemma json_members_last:
  "plain k \<Longrightarrow> plain v \<Longrightarrow> json_members (member_text k v @ ''}'') = Some [(k, v)]"
  by (subst json_members.simps) (simp add: json_pair_plain)

lemma json_members_more:
  "plain k \<Longrightarrow> plain v \<Longrightarrow>
   json_members (member_text k v @ CHR '','' # r) =
     (case json_members r of None \<Rightarrow> None | Some kvs \<Rightarrow> Some ((k, v) # kvs))"
  by (subst json_members.simps) (simp add: json_pair_plain)

fun object_text :: "(string \<times> string) list \<Rightarrow> string" where
  "object_text [] = ''}''"
| "object_text [(k, v)] = member_text k v @ ''}''"
| "object_text ((k, v) # kv # kvs) = member_text k v @ CHR '','' # object_text (kv # kvs)"

lemma json_members_object_text:
  "kvs \<noteq> [] \<Longrightarrow> list_all (\<lambda>(k, v). plain k \<and> plain v) kvs \<Longrightarrow> json_members (object_text kvs) = Some kvs"
  by (induction kvs rule: object_text.induct) (auto simp: json_members_last json_members_more)

lemma json_object_text:
  "kvs \<noteq> [] \<Longrightarrow> list_all (\<lambda>(k, v). plain k \<and> plain v) kvs \<Longrightarrow>
   json_object (CHR ''{'' # object_text kvs) = Some kvs"
  by (simp add: json_members_object_text)


section \<open>The bodies the gateways write\<close>

lemma error_body_text:
  "error_body code message rid =
     CHR ''{'' # object_text [(''error'', code), (''message'', message), (''request_id'', rid)]"
  by (simp add: error_body_def member_text_def)

lemma plain_literal [simp]: "plain [] \<longleftrightarrow> True" "plain (c # s) \<longleftrightarrow> plain_char c \<and> plain s"
  by (simp_all add: plain_def)

lemma plain_names: "plain ''error''" "plain ''message''" "plain ''request_id''"
  by (simp_all add: plain_char_def)

lemma error_body_reads:
  "plain code \<Longrightarrow> plain message \<Longrightarrow> plain rid \<Longrightarrow>
   json_object (error_body code message rid) =
     Some [(''error'', code), (''message'', message), (''request_id'', rid)]"
  unfolding error_body_text by (rule json_object_text) (simp_all add: plain_names del: plain_literal)

lemma decision_codes_plain: "plain (fst (decision_error d))"
  by (cases d) (simp_all add: plain_char_def)

lemma implements_body:
  assumes "implements rid d resp" "decision_error d = (code, message)" "code \<noteq> ''''"
  shows "resp_body resp = error_body code message rid"
  using assms by (cases d) (auto simp: own_response_def)

text \<open>A message that closes its string and opens another member.\<close>

lemma error_body_injection:
  "error_body code (m @ ''\",\"'' @ k @ ''\":\"'' @ v) rid =
     CHR ''{'' # object_text [(''error'', code), (''message'', m), (k, v), (''request_id'', rid)]"
  by (simp add: error_body_def member_text_def)

section \<open>Properties\<close>

text \<open>
  Claim C17. Error bodies are read back: when the proxy route refuses a request or its upstream fails,
  the body is a JSON object from which a client reads the code, the message and the request id of
  the decision, provided the message has no quote, backslash or control character.
\<close>

theorem proxy_errors_readable:
  assumes "http_contract lib" "visible rid" "plain rid" "is_proxy_route req"
    and "decision_error (decide lib (client_send (proxy_client st)) (app_router st) req rid) = (code, message)"
    and "code \<noteq> ''''" "plain message"
  shows "\<exists>h. handle_request lib client_send encoded st req rid dur = Returned h \<and>
     json_object (resp_body (h_response h)) =
       Some [(''error'', code), (''message'', message), (''request_id'', rid)]"
proof -
  obtain h where h: "handle_request lib client_send encoded st req rid dur = Returned h"
    "implements rid (decide lib (client_send (proxy_client st)) (app_router st) req rid) (h_response h)"
    using handle_request_served [OF assms(1,2), of client_send encoded st req dur] assms(4)
    by (auto simp: served_def)
  have "plain code"
    using decision_codes_plain [of "decide lib (client_send (proxy_client st)) (app_router st) req rid"] assms(5) by simp
  with h assms(3,7) implements_body [OF h(2) assms(5,6)] show ?thesis
    by (simp add: error_body_reads)
qed

theorem proxy_errors_readable_witness:
  "\<exists>h. handle_request strict_http (\<lambda>_ _. Inl ''connection refused'') (Inr '''') sample_state sample_request ''id-1'' 5 =
         Returned h \<and>
     json_object (resp_body (h_response h)) =
       Some [(''error'', ''upstream_error''),
             (''message'', ''Upstream request failed: upstream error: connection refused''), (''request_id'', ''id-1'')]"
proof (rule proxy_errors_readable [OF strict_http_contract])
  show "decision_error (decide strict_http (\<lambda>_. Inl ''connection refused'') (app_router sample_state) sample_request ''id-1'') =
      (''upstream_error'', ''Upstream request failed: upstream error: connection refused'')"
    by (simp add: decide_def sample_request_def sample_state_def target_def select_def strict_http_def
        http_chars max_body_bytes_def upstream_verdict_def)
qed (simp_all add: http_chars plain_char_def is_proxy_route_def sample_request_def proxy_paths_def)

text \<open>
  Claim C18. The message is not escaped: an upstream error whose text contains a quote can end the
  message and add members of its choice to the error object that the client reads.
\<close>

theorem error_text_injects_members:
  assumes "http_contract lib" "visible rid" "plain rid" "is_proxy_route req"
    and "req_body req = Inr body" "length body \<le> 10485760"
    and "uri_ok lib (target (app_router st) (req_path req))"
    and "\<And>r. client_send (proxy_client st) r = Inl (e @ ''\",\"'' @ k @ ''\":\"'' @ v)"
    and "plain e" "plain k" "plain v"
  shows "\<exists>h. handle_request lib client_send encoded st req rid dur = Returned h \<and>
     json_object (resp_body (h_response h)) =
       Some [(''error'', ''upstream_error''), (''message'', ''Upstream request failed: upstream error: '' @ e),
             (k, v), (''request_id'', rid)]"
proof -
  let ?d = "UpstreamFailed (Upstream (e @ ''\",\"'' @ k @ ''\":\"'' @ v))"
  have d: "decide lib (client_send (proxy_client st)) (app_router st) req rid = ?d"
    using assms(5-8) by (simp add: decide_def max_body_bytes_def upstream_verdict_def)
  obtain h where h: "handle_request lib client_send encoded st req rid dur = Returned h" "implements rid ?d (h_response h)"
    using handle_request_served [OF assms(1,2), of client_send encoded st req dur] assms(4)
    by (auto simp: served_def d)
  have body: "resp_body (h_response h) =
      error_body ''upstream_error'' ((''Upstream request failed: upstream error: '' @ e) @ ''\",\"'' @ k @ ''\":\"'' @ v) rid"
    using h(2) by (simp add: own_response_def)
  have "json_object (resp_body (h_response h)) =
      Some [(''error'', ''upstream_error''), (''message'', ''Upstream request failed: upstream error: '' @ e),
            (k, v), (''request_id'', rid)]"
    unfolding body error_body_injection using assms(3,9-11)
    by (intro json_object_text) (simp_all add: plain_char_def)
  with h(1) show ?thesis by (intro exI [of _ h] conjI)
qed

theorem error_text_injects_members_witness:
  "\<exists>h. handle_request strict_http (\<lambda>_ _. Inl ''x\",\"retry\":\"no'') (Inr '''') sample_state sample_request ''id-1'' 5 =
         Returned h \<and>
     json_object (resp_body (h_response h)) =
       Some [(''error'', ''upstream_error''), (''message'', ''Upstream request failed: upstream error: x''),
             (''retry'', ''no''), (''request_id'', ''id-1'')]"
proof -
  have "visible ''id-1''" "plain ''id-1''" "plain ''x''" "plain ''retry''" "plain ''no''" "is_proxy_route sample_request"
    "req_body sample_request = Inr ''hello''" "uri_ok strict_http (target (app_router sample_state) (req_path sample_request))"
    by (simp_all add: http_chars plain_char_def is_proxy_route_def sample_request_def proxy_paths_def
        sample_state_def target_def select_def strict_http_def)
  with error_text_injects_members [OF strict_http_contract, of "''id-1''" sample_request "''hello''" sample_state
      "\<lambda>_ _. Inl ''x\",\"retry\":\"no''" "''x''" "''retry''" "''no''" "Inr ''''" 5]
  show ?thesis by simp
qed

text \<open>
  The failure answers of the gateway crate are read back in the same way, from the router and from
  the handler that is not wired in.
\<close>

theorem gw_failure_readable:
  assumes "http_contract lib" "plain (proxy_error_display e)"
  shows "\<exists>resp. gw_failure_response lib e = Returned resp \<and> resp_status resp = 502 \<and>
     json_object (resp_body resp) =
       Some [(''error'', ''upstream_failure''), (''message'', proxy_error_display e)]"
proof -
  let ?body = "''{\"error\":\"upstream_failure\",\"message\":\"'' @ proxy_error_display e @ ''\"}''"
  have txt_eq: "?body = CHR ''{'' # object_text [(''error'', ''upstream_failure''), (''message'', proxy_error_display e)]"
    by (simp add: member_text_def)
  have reads: "json_object ?body = Some [(''error'', ''upstream_failure''), (''message'', proxy_error_display e)]"
    unfolding txt_eq using assms(2) by (intro json_object_text) (simp_all add: plain_char_def)
  have "gw_failure_response lib e =
      Returned \<lparr>resp_status = 502, resp_headers = [(''content-type'', ''application/json'')], resp_body = ?body\<rparr>"
    unfolding gw_failure_response_def content_type_ok [OF assms(1) types_visible(3)] unwrap_result.simps ..
  then show ?thesis using reads by (simp only: outcome.inject ex_simps simp_thms http_response.simps)
qed

end
