(* ===== verification/Spec2Isabelle.thy ===== *)
theory Spec2Isabelle
  imports Lifecycle Rate_Limit_Concurrent Policy_Concurrent Error_Json
begin

text \<open>
  AppGate is a security gateway in front of language-model APIs. Two Rust crates implement it:
  \<open>src/rust-gateway\<close> (the production gateway: configuration from the environment, an HTTP server
  that proxies \<open>POST\<close> requests, and components for tokens, rate limits, policies, SSRF, audit,
  cache, circuit breakers and health) and \<open>src/gateway\<close> (a TLS gateway that proxies to the control
  plane, with components of the same names). This development models both crates and proves the
  properties their components promise, and a few properties that show where the code does not do
  what its comments say.

  \<^bold>\<open>Conventions.\<close> A struct is a record, an enum a datatype, \<open>u16\<close>, \<open>u32\<close>, \<open>u64\<close> and \<open>usize\<close> are words
  that wrap as in the release profile, \<open>Result\<close> is a sum with the error on the left, a \<open>panic\<close> is the
  value \<open>Panicked\<close>, and a time is a number of nanoseconds. Definitions keep the names of the source;
  those of the gateway crate that exist in both crates start with \<open>gw_\<close> (\<open>dl_\<close> for its rate limiter).
  Libraries (\<open>hyper\<close>, \<open>http\<close>, \<open>reqwest\<close>, \<open>jsonwebtoken\<close>, \<open>redis\<close>, \<open>governor\<close>, \<open>moka\<close>, \<open>rustls\<close>, \<open>envy\<close>, \<open>url\<close>)
  are parameters; where a property needs their behaviour it assumes a named contract
  (\<open>http_contract\<close>, \<open>redis_contract\<close>, \<open>jwt_contract\<close>), and each contract has a concrete instance on which
  the property is applied. A handler returns, beside its result, the requests it gave to the client's
  \<open>send()\<close>, so that what it asks to leave the gateway is part of every statement; whether \<open>reqwest\<close> then
  refuses a URL or follows redirects is beyond the model.

  \<^bold>\<open>Theories and sources.\<close>
  \<^item> \<open>Prelude\<close>: Rust integers, strings, options and results; the interfaces \<open>call_machine\<close>,
    \<open>invariant_system\<close> and \<open>first_match\<close> that the components instantiate.
  \<^item> \<open>Http\<close>: requests, responses, the response builder and the contract of the \<open>http\<close> crate.
  \<^item> \<open>Config\<close> (\<open>config.rs\<close> of both crates, \<open>Args\<close>): the structs, the serde default functions and the
    derived \<open>Default\<close> instances, which differ.
  \<^item> \<open>Circuit_Breaker\<close> (\<open>rust-gateway/src/circuit_breaker.rs\<close>): the breaker with \<open>u32\<close> counters refines
    a three-state specification; when it trips, rejects and recovers.
  \<^item> \<open>Breaker_Registry\<close> (the same file): the lock sections of \<open>get_or_create\<close> as steps of concurrent
    tasks; one breaker per name, and breakers do not interfere.
  \<^item> \<open>Health\<close> (\<open>health.rs\<close>): the table, the background rounds and any interleaving of its writers; an
    upstream is unhealthy exactly after three failures in a row.
  \<^item> \<open>Audit_Log\<close> (\<open>audit.rs\<close> of both crates): channel and batching task as an instance of the interface
    \<open>batching_worker\<close>; conservation of events and batch bounds.
  \<^item> \<open>Policy\<close> (\<open>policy.rs\<close> of both crates): evaluation, characterised exactly, and the refresh loop.
  \<^item> \<open>Policy_Concurrent\<close>: evaluations beside the refresh task, load by load and store by store; every
    decision is that of one list current during the evaluation.
  \<^item> \<open>Routing\<close> (\<open>rust-gateway/src/router.rs\<close>): parsing of routes with its round trip, and selection.
  \<^item> \<open>Ssrf\<close> (\<open>ssrf.rs\<close> of both crates): which URLs each guard accepts, with the address blocks and host
    names written out.
  \<^item> \<open>Rate_Limit\<close> (\<open>rate_limit.rs\<close> of both crates): the Redis sliding window as a function and command
    by command, its bound for sequential checks; the local limiter.
  \<^item> \<open>Rate_Limit_Concurrent\<close>: any number of workers whose Redis commands interleave, as a step relation;
    the limit can be exceeded by one less than the number of workers, and by no more.
  \<^item> \<open>Proxy\<close> (\<open>proxy.rs\<close> of both crates): what is sent upstream and what is answered; the header loop
    is an instance of the interface \<open>header_filter\<close> in both crates.
  \<^item> \<open>Jwt\<close> (\<open>jwt.rs\<close> of both crates): construction of the validators and what an accepted token satisfies:
    which claims it carries, under which key its signature verifies, issuer, audience and expiry.
    Verification is a relation between token, algorithm and key that the library's contract names.
  \<^item> \<open>Response_Cache\<close> (\<open>cache.rs\<close>): the operations on the library's cache, and its lifetime, capacity and
    weights.
  \<^item> \<open>Metrics\<close> (\<open>metrics.rs\<close> of both crates): the calls on the collectors, and what the registry tells of
    any list of events.
  \<^item> \<open>Tls\<close> (\<open>tls.rs\<close> of both crates): when the configuration loads.
  \<^item> \<open>Server\<close> (\<open>rust-gateway/src/server.rs\<close>, \<open>AppState\<close> of \<open>main.rs\<close>): responses, routing, the proxy handler
    and the request wrapper, proved against a decision table that fixes status, headers and body.
  \<^item> \<open>Error_Json\<close>: the error bodies of both crates as a client reads them, by a reader for flat JSON
    objects; when they are read back, and what an unescaped message does.
  \<^item> \<open>Connections\<close> (\<open>AppGateServer::run\<close>): permits, counter, tasks and shutdown signal as a step
    relation with its invariant, and the drain loop.
  \<^item> \<open>Gw_Server\<close> (\<open>server.rs\<close>, \<open>router.rs\<close>, \<open>main.rs\<close> of the gateway crate): request handler, connection
    counting and start-up.
  \<^item> \<open>Startup\<close> (\<open>rust-gateway/src/main.rs\<close>, both \<open>telemetry.rs\<close>): the state \<open>main\<close> builds and when it exits.
  \<^item> \<open>Lifecycle\<close> (both \<open>main.rs\<close>, both \<open>telemetry.rs\<close>): from the running server to the end of the
    process: signals, broadcast, timeout on the server task, exit status, tracing guards, and the
    teardown between the last log line and the exit, whose steps take any time or do not return.
  \<^item> this theory: a list of requests end to end, and properties that span components.

  \<^bold>\<open>How the parts interact.\<close> \<open>main_start\<close> builds \<open>app_state\<close> from every component's constructor;
  \<open>handle_request\<close> calls \<open>route_request\<close>, which calls \<open>handle_proxy\<close>, which uses the router's \<open>select\<close> and
  the proxy's \<open>forward\<close>, and records metrics; \<open>main_process\<close> puts \<open>main_start\<close>, \<open>server_listen\<close> and \<open>drain_loop\<close>
  together with the signals, and \<open>gw_process\<close> does the same with \<open>run_server\<close>. No other component of
  the state is used on that path, which is itself a theorem.

  \<^bold>\<open>Bounds and loops.\<close> No model uses fuel. Loops over data are structural recursions. The background
  loops (audit task, health rounds, policy refresh, accept loop) do not end; each of their
  iterations is a function or a step, and properties hold after any number of them. The drain loop
  is a partial function, and is proved to return within 301 sleeps of 100 ms, the first number
  whose total exceeds the 30 seconds allowed.

  \<^bold>\<open>Not modelled.\<close> The contents of log lines other than the access log and those of the shutdown,
  the bucket bounds of the histograms, HTTP framing and timeouts inside \<open>hyper\<close>, the
  cryptography behind the verification of signatures, what \<open>moka\<close> evicts, the expiry of Redis keys
  (which drops only what the next check purges), the branches for targets that are not Unix, the benchmarks, the helper \<open>tracing.rs\<close> that no
  module includes, and everything that is not Rust: the Go control plane and packages, and the
  deployment files. Memory ordering is taken to be sequentially consistent for the single counter
  involved. Both crates are compiled with \<open>panic = abort\<close>, so a panic of any task ends the process.

  \<^bold>\<open>Interleaving.\<close> Operations of the health table, the response cache, the audit channel and the
  breakers are atomic (one lock section or one library call), so concurrent callers amount to a
  list of calls in some order, and the properties are stated for every such list. What takes
  several atomic actions (breaker creation, policy evaluation and refresh, Redis checks, accepting and
  draining) is a step relation.

  \<^bold>\<open>Plan for extensions.\<close> The number of admissions per window under interleaved checks, beside the
  size of the sorted set, under an assumption on how long a check may stall.
\<close>

section \<open>A sequence of requests\<close>

text \<open>
  The requests of a connection are handled one after the other (\<open>handle_connection\<close> gives each to
  \<open>handle_request\<close>); \<open>handle_all\<close> is what a list of them leads to.
\<close>

fun handle_all ::
  "http_lib \<Rightarrow> ('p \<Rightarrow> upstream_send) \<Rightarrow> string + bytes \<Rightarrow> ('k, 'conn, 'g, 'c, 'm, 'p) app_state \<Rightarrow>
     (http_request \<times> string \<times> nat) list \<Rightarrow> handled list outcome" where
  "handle_all lib client_send encoded st [] = Returned []"
| "handle_all lib client_send encoded st ((req, rid, dur) # reqs) =
     (case handle_request lib client_send encoded st req rid dur of
        Panicked e \<Rightarrow> Panicked e
      | Returned h \<Rightarrow> map_outcome (\<lambda>hs. h # hs) (handle_all lib client_send encoded st reqs))"

text \<open>
  How \<open>hyper\<close> ends a connection: cleanly, because the peer closed it in the middle of a message, or
  with another error. \<open>handle_connection\<close> serves the requests and warns of the last kind only.
\<close>

datatype conn_end = Closed | Incomplete_message | Conn_error string

fun conn_warnings :: "string \<Rightarrow> conn_end \<Rightarrow> string list" where
  "conn_warnings peer Closed = []"
| "conn_warnings peer Incomplete_message = []"
| "conn_warnings peer (Conn_error e) = [''Connection error: '' @ peer @ '': '' @ e]"

definition handle_connection ::
  "http_lib \<Rightarrow> ('p \<Rightarrow> upstream_send) \<Rightarrow> string + bytes \<Rightarrow> ('k, 'conn, 'g, 'c, 'm, 'p) app_state \<Rightarrow>
     string \<Rightarrow> (http_request \<times> string \<times> nat) list \<Rightarrow> conn_end \<Rightarrow> (handled list \<times> string list) outcome" where
  "handle_connection lib client_send encoded st peer_addr reqs ended =
     map_outcome (\<lambda>hs. (hs, conn_warnings peer_addr ended)) (handle_all lib client_send encoded st reqs)"

lemma handle_all_metrics:
  assumes "http_contract lib" "list_all (\<lambda>(req, rid, dur). visible rid) reqs"
  shows "\<exists>hs. handle_all lib client_send encoded st reqs = Returned hs \<and>
     map (log_path \<circ> h_log) hs = map (req_path \<circ> fst) reqs \<and>
     concat (map h_metrics hs) =
       record_all record_request
         (map (\<lambda>(h, req, rid, dur). (req_path req, log_status (h_log h), dur)) (zip hs reqs))"
  using assms(2)
proof (induction reqs)
  case (Cons r reqs)
  obtain req rid dur where r: "r = (req, rid, dur)" by (cases r)
  have "visible rid" using Cons.prems r by simp
  from handle_request_served [OF assms(1) this, of client_send encoded st req dur]
  obtain h where h: "handle_request lib client_send encoded st req rid dur = Returned h"
    "h_metrics h = record_request (req_path req) (log_status (h_log h)) dur" "log_path (h_log h) = req_path req"
    by (auto simp: handle_request_def Let_def split: prod.splits outcome.splits)
  with Cons show ?case by (auto simp: r)
qed simp

lemma counts_by_log:
  assumes "map (log_path \<circ> h_log) hs = map (req_path \<circ> fst) reqs"
  shows "length (filter (\<lambda>(e, s, d). e = ep \<and> show_nat (unat s) = l)
           (map (\<lambda>(h, req, rid, dur). (req_path req, log_status (h_log h), dur)) (zip hs reqs))) =
         length (filter (\<lambda>h. log_path (h_log h) = ep \<and> show_nat (unat (log_status (h_log h))) = l) hs)"
    and "length (filter (\<lambda>(e, s, d). e = ep)
           (map (\<lambda>(h, req, rid, dur). (req_path req, log_status (h_log h), dur)) (zip hs reqs))) =
         length (filter (\<lambda>r. req_path (fst r) = ep) reqs)"
proof -
  have len: "length hs = length reqs" using assms by (metis length_map)
  show "length (filter (\<lambda>(e, s, d). e = ep \<and> show_nat (unat s) = l)
           (map (\<lambda>(h, req, rid, dur). (req_path req, log_status (h_log h), dur)) (zip hs reqs))) =
         length (filter (\<lambda>h. log_path (h_log h) = ep \<and> show_nat (unat (log_status (h_log h))) = l) hs)"
    using len assms by (induction hs reqs rule: list_induct2) auto
  show "length (filter (\<lambda>(e, s, d). e = ep)
           (map (\<lambda>(h, req, rid, dur). (req_path req, log_status (h_log h), dur)) (zip hs reqs))) =
         length (filter (\<lambda>r. req_path (fst r) = ep) reqs)"
    using len by (induction hs reqs rule: list_induct2) auto
qed

lemma handle_all_append:
  "handle_all lib client_send encoded st (reqs @ reqs') =
     (case handle_all lib client_send encoded st reqs of
        Panicked e \<Rightarrow> Panicked e
      | Returned hs \<Rightarrow> map_outcome (\<lambda>hs'. hs @ hs') (handle_all lib client_send encoded st reqs'))"
proof (induction reqs)
  case Nil
  show ?case by (cases "handle_all lib client_send encoded st reqs'") auto
next
  case (Cons r reqs)
  obtain req rid dur where "r = (req, rid, dur)" by (cases r)
  with Cons show ?case
    by (cases "handle_all lib client_send encoded st reqs'")
      (auto split: outcome.splits)
qed

text \<open>
  Keep-alive does not couple requests: two connections served one after the other handle their
  requests as a single connection with all of them would, because no request changes the state.
\<close>

theorem connections_compose:
  "handle_connection lib client_send encoded st peer (reqs @ reqs') ended =
     (case handle_connection lib client_send encoded st peer reqs Closed of
        Panicked e \<Rightarrow> Panicked e
      | Returned (hs, ws) \<Rightarrow>
          (case handle_connection lib client_send encoded st peer reqs' ended of
             Panicked e \<Rightarrow> Panicked e
           | Returned (hs', ws') \<Rightarrow> Returned (hs @ hs', ws @ ws')))"
  by (cases "handle_all lib client_send encoded st reqs"; cases "handle_all lib client_send encoded st reqs'")
    (auto simp: handle_connection_def handle_all_append)

section \<open>Properties across components\<close>

text \<open>
  Claim C33. Metrics agree with traffic, end to end: any list of requests is answered in full, and
  afterwards the request counter of an endpoint and status equals the number of access-log lines
  with that path and status, and the duration histogram has one observation per request of the
  endpoint. The endpoint label is the request's path, so clients choose the set of series.
\<close>

theorem traffic_counted:
  assumes "http_contract lib" "list_all (\<lambda>(req, rid, dur). visible rid) reqs"
  shows "\<exists>hs. handle_all lib client_send encoded st reqs = Returned hs \<and> length hs = length reqs \<and>
     counted requests_total [ep, l] (concat (map h_metrics hs)) =
       length (filter (\<lambda>h. log_path (h_log h) = ep \<and> show_nat (unat (log_status (h_log h))) = l) hs) \<and>
     observed request_duration [ep] (concat (map h_metrics hs)) =
       length (filter (\<lambda>r. req_path (fst r) = ep) reqs)"
proof -
  obtain hs where hs: "handle_all lib client_send encoded st reqs = Returned hs"
    "map (log_path \<circ> h_log) hs = map (req_path \<circ> fst) reqs"
    "concat (map h_metrics hs) =
       record_all record_request
         (map (\<lambda>(h, req, rid, dur). (req_path req, log_status (h_log h), dur)) (zip hs reqs))"
    using handle_all_metrics [OF assms] by blast
  have "length hs = length reqs" using hs(2) by (metis length_map)
  then show ?thesis
    using hs(1) record_all_counts counts_by_log [OF hs(2)] by (intro exI [of _ hs]) (simp add: hs(3))
qed

theorem traffic_counted_witness:
  "\<exists>hs. handle_all strict_http (\<lambda>_. sample_upstream) (Inr '''') sample_state
       [(sample_request, ''id-1'', 5), (sample_request, ''id-2'', 7)] = Returned hs \<and> length hs = 2 \<and>
     observed request_duration [''/v1/proxy''] (concat (map h_metrics hs)) = 2"
proof -
  have p: "req_path sample_request = ''/v1/proxy''" by (simp add: sample_request_def)
  have "list_all (\<lambda>(req, rid, dur). visible rid)
      [(sample_request, ''id-1'', 5 :: nat), (sample_request, ''id-2'', 7)]"
    by (simp add: http_chars)
  from traffic_counted [OF strict_http_contract this, of "\<lambda>_. sample_upstream" "Inr ''''" sample_state "''/v1/proxy''" "''201''"]
  show ?thesis by (auto simp: p simp del: handle_all.simps)
qed

lemma handle_all_confined:
  assumes "router_new build cfg env = Inr (app_router st)" "http_contract lib"
    and "list_all (\<lambda>(req, rid, dur). visible rid) reqs"
  shows "\<exists>hs. handle_all lib client_send encoded st reqs = Returned hs \<and>
     list_all2 (\<lambda>h (req, rid, dur). length (h_sent h) \<le> 1 \<and>
       list_all (\<lambda>c. configured_upstream cfg env (req_path req) (cr_url c)) (h_sent h)) hs reqs"
  using assms(3)
proof (induction reqs)
  case (Cons r reqs)
  obtain req rid dur where r: "r = (req, rid, dur)" by (cases r)
  have "visible rid" using Cons.prems r by simp
  from handle_request_served [OF assms(2) this, of client_send encoded st req dur]
  obtain h where h: "handle_request lib client_send encoded st req rid dur = Returned h"
    "served lib (client_send (proxy_client st)) (app_router st) req rid (h_response h) (h_sent h)"
    by blast
  have "configured_upstream cfg env (req_path req) (target (app_router st) (req_path req))"
    using select_Some [of "app_router st" "req_path req"] by (auto simp: target_def intro: select_configured [OF assms(1)])
  with h Cons show ?case by (auto simp: r served_def proxy_client_request_def split: if_splits)
qed simp

text \<open>
  Claim C12. Clients cannot steer the gateway: from the environment string to the request that goes out,
  whatever requests a list holds, each is answered, leads to at most one call of the upstream
  client, and the URL of that call is the default upstream of the configuration or the upstream of
  a piece of \<open>APPGATE_ROUTES\<close> whose prefix the path starts with; no path, query, header or body
  becomes part of it.
\<close>

theorem traffic_confined:
  assumes "router_new build cfg env = Inr (app_router st)" "http_contract lib"
    and "list_all (\<lambda>(req, rid, dur). visible rid) reqs"
  shows "\<exists>hs. handle_all lib client_send encoded st reqs = Returned hs \<and>
     list_all2 (\<lambda>h (req, rid, dur). length (h_sent h) \<le> 1 \<and>
       list_all (\<lambda>c. cr_url c = default_url (upstream cfg) \<or>
         (\<exists>v pre prov. env ''APPGATE_ROUTES'' = Some v \<and> starts_with (req_path req) pre \<and>
            CHR ''='' \<notin> set pre \<and> CHR ''='' \<notin> set prov \<and>
            pre @ ''='' @ prov @ ''='' @ cr_url c \<in> set (split_on CHR '','' v))) (h_sent h)) hs reqs"
  using handle_all_confined [OF assms] by (simp only: configured_upstream_def)

text \<open>A gateway with one route for the proxy path, and a request with a query and a forwarding header.\<close>

definition routed_env :: env where
  "routed_env = [''APPGATE_ROUTES'' \<mapsto> ''/v1=openai=http://llm?k=1'']"

theorem traffic_confined_witness:
  "\<exists>(st :: (unit, unit, unit, unit, unit, unit) app_state) h.
     router_new (\<lambda>_. Inr ()) sample_config routed_env = Inr (app_router st) \<and>
     handle_all strict_http (\<lambda>_. sample_upstream) (Inr '''') st
       [(sample_request\<lparr>req_headers := [(''host'', ''http://evil'')]\<rparr>, ''id-1'', 5)] = Returned [h] \<and>
     length (h_sent h) \<le> 1 \<and>
     list_all (\<lambda>c. cr_url c = default_url (upstream sample_config) \<or>
       (\<exists>v pre prov. routed_env ''APPGATE_ROUTES'' = Some v \<and> starts_with (req_path sample_request) pre \<and>
          CHR ''='' \<notin> set pre \<and> CHR ''='' \<notin> set prov \<and>
          pre @ ''='' @ prov @ ''='' @ cr_url c \<in> set (split_on CHR '','' v))) (h_sent h)"
proof -
  obtain rt where rt: "router_new (\<lambda>_. Inr ()) sample_config routed_env = Inr rt"
    by (simp add: router_new_def Let_def)
  let ?st = "sample_state\<lparr>app_router := rt\<rparr>"
  let ?reqs = "[(sample_request\<lparr>req_headers := [(''host'', ''http://evil'')]\<rparr>, ''id-1'', 5 :: nat)]"
  have st: "router_new (\<lambda>_. Inr ()) sample_config routed_env = Inr (app_router ?st)" by (simp add: rt)
  have "list_all (\<lambda>(req, rid, dur). visible rid) ?reqs" by (simp add: http_chars)
  from traffic_confined [OF st strict_http_contract this, of "\<lambda>_. sample_upstream" "Inr ''''"]
  obtain h where "handle_all strict_http (\<lambda>_. sample_upstream) (Inr '''') ?st ?reqs = Returned [h]"
    "length (h_sent h) \<le> 1"
    "list_all (\<lambda>c. cr_url c = default_url (upstream sample_config) \<or>
       (\<exists>v pre prov. routed_env ''APPGATE_ROUTES'' = Some v \<and> starts_with (req_path sample_request) pre \<and>
          CHR ''='' \<notin> set pre \<and> CHR ''='' \<notin> set prov \<and>
          pre @ ''='' @ prov @ ''='' @ cr_url c \<in> set (split_on CHR '','' v))) (h_sent h)"
    by (auto simp: list_all2_Cons2 simp del: handle_all.simps append_Cons append_Nil)
  with st show ?thesis by blast
qed

end
